theory Spec2Isabelle
  imports Complex_Main "HOL-Library.Word" "HOL-Library.AList" "HOL-Library.Log_Nat"
begin

unbundle bit_operations_syntax

section \<open>Strings and values of the C\# runtime\<close>

text \<open>
  A C\# \<open>string\<close> reference is modelled as \<open>string option\<close>: \<open>None\<close> is \<open>null\<close>.
  Characters are the 8-bit characters of HOL, read as the code units U+0000 to U+00FF.
  A \<open>long\<close> is an \<open>int\<close>: the listener only compares timestamps and converts them to
  dates behind a range check, so no 64-bit arithmetic can wrap.
\<close>

datatype csharp_error = ArgumentException | ArgumentNullException | ArgumentOutOfRangeException |
    SocketException
  \<comment> \<open>The second and third are subclasses of the first: a handler for \<open>ArgumentException\<close>
      catches all three.\<close>

definition IsNullOrEmpty :: "string option \<Rightarrow> bool" where
  "IsNullOrEmpty s = (case s of None \<Rightarrow> True | Some v \<Rightarrow> v = [])"

definition IsWhiteSpace :: "char \<Rightarrow> bool" where
  \<comment> \<open>\<open>char.IsWhiteSpace\<close> on U+0000..U+00FF: TAB..CR, SPACE, NEL and NBSP.\<close>
  "IsWhiteSpace c = (let n = (of_char c :: nat) in (9 \<le> n \<and> n \<le> 13) \<or> n = 32 \<or> n = 133
      \<or> n = 160)"

definition IsNullOrWhiteSpace :: "string option \<Rightarrow> bool" where
  "IsNullOrWhiteSpace s = (case s of None \<Rightarrow> True | Some v \<Rightarrow> list_all IsWhiteSpace v)"

definition ToUpperInvariant :: "char \<Rightarrow> char" where
  \<comment> \<open>Upper-casing inside U+0000..U+00FF: a..z and the accented letters U+00E0..U+00FE
      (not the division sign U+00F7) move down by 32. The upper-case forms of U+00B5 and
      U+00FF lie outside the range and are the image of no other character of the range,
      so leaving both fixed decides the same equalities.\<close>
  "ToUpperInvariant c = (let n = (of_char c :: nat) in
     if (97 \<le> n \<and> n \<le> 122) \<or> (224 \<le> n \<and> n \<le> 254 \<and> n \<noteq> 247) then
         char_of (n - 32) else c)"

definition EqualsOrdinalIgnoreCase :: "string option \<Rightarrow> string option \<Rightarrow> bool" where
  \<comment> \<open>\<open>string.Equals(a, b, StringComparison.OrdinalIgnoreCase)\<close>; two nulls are equal.\<close>
  "EqualsOrdinalIgnoreCase a b = (case (a, b) of
       (None, None) \<Rightarrow> True
     | (Some x, Some y) \<Rightarrow> map ToUpperInvariant x = map ToUpperInvariant y
     | _ \<Rightarrow> False)"

fun digits :: "nat \<Rightarrow> string" where
  "digits n = (if n < 10 then [char_of (48 + n)] else digits (n div 10) @ [char_of (48 + n mod 10)])"

declare digits.simps [simp del]

definition Int64_ToString :: "int \<Rightarrow> string" where
  \<comment> \<open>What string interpolation prints for a \<open>long\<close>.\<close>
  "Int64_ToString n = (if n < 0 then CHR ''-'' # digits (nat (- n)) else digits (nat n))"

definition UTF8_GetBytes :: "string \<Rightarrow> 8 word list" where
  \<comment> \<open>\<open>Encoding.UTF8.GetBytes\<close> on code units below U+0100: one byte below U+0080, two
      bytes above.\<close>
  "UTF8_GetBytes s = concat (map (\<lambda>c. let n = (of_char c :: nat) in
       if n < 128 then [of_nat n] else [of_nat (192 + n div 64), of_nat (128 + n mod 64)]) s)"

definition base64_alphabet :: string where
  "base64_alphabet = ''ABCDEFGHIJKLMNOPQRSTUVWXYZabcdefghijklmnopqrstuvwxyz0123456789+/''"

fun ToBase64String :: "8 word list \<Rightarrow> string" where
  "ToBase64String (a # b # c # rest) =
     (let x = unat a * 65536 + unat b * 256 + unat c in
      [base64_alphabet ! (x div 262144), base64_alphabet ! (x div 4096 mod 64),
       base64_alphabet ! (x div 64 mod 64), base64_alphabet ! (x mod 64)] @ ToBase64String rest)"
| "ToBase64String [a, b] =
     (let x = unat a * 65536 + unat b * 256 in
      [base64_alphabet ! (x div 262144), base64_alphabet ! (x div 4096 mod 64),
       base64_alphabet ! (x div 64 mod 64), CHR ''=''])"
| "ToBase64String [a] =
     (let x = unat a * 65536 in
      [base64_alphabet ! (x div 262144), base64_alphabet ! (x div 4096 mod 64), CHR ''='', CHR ''=''])"
| "ToBase64String [] = []"

definition digest_bytes :: "256 word \<Rightarrow> 8 word list" where
  \<comment> \<open>The 32 bytes of a SHA-256 digest, most significant first.\<close>
  "digest_bytes w = map (\<lambda>i. ucast (drop_bit (8 * (31 - i)) w)) [0..<32]"

type_synonym hmacsha256 = "8 word list \<Rightarrow> 8 word list \<Rightarrow> 256 word"

text \<open>
  The keyed hash itself is the .NET class \<open>HMACSHA256\<close>, which is not part of the
  repository: every definition below takes it as the parameter \<open>H\<close>, a function from key
  bytes and message bytes to a 256-bit digest.
\<close>

section \<open>The command envelope (UdpCommandMessage)\<close>

record UdpCommandMessage =
  cmdId :: "string option"
  action :: "string option"
  payload :: "string option"
  timestamp :: int
  signature :: "string option"

definition canonical :: "UdpCommandMessage \<Rightarrow> string" where
  \<comment> \<open>\<open>$"{message.action}|{message.payload ?? string.Empty}|{message.timestamp}"\<close>; a null
      interpolated string prints as the empty string.\<close>
  "canonical m = (case action m of None \<Rightarrow> [] | Some a \<Rightarrow> a) @ ''|''
     @ (case payload m of None \<Rightarrow> [] | Some p \<Rightarrow> p) @ ''|'' @ Int64_ToString (timestamp
         m)"

subsection \<open>UdpClientReporter.ComputeSignature\<close>

definition ComputeSignature :: "hmacsha256 \<Rightarrow> string option \<Rightarrow> UdpCommandMessage
    \<Rightarrow> csharp_error + string" where
  "ComputeSignature H sharedSecret message =
     (case sharedSecret of
        None \<Rightarrow> Inl ArgumentNullException
      | Some secret \<Rightarrow>
          Inr (ToBase64String (digest_bytes (H (UTF8_GetBytes secret) (UTF8_GetBytes (canonical message))))))"

subsection \<open>UdpCommandListener.CryptographicEquals and IsAuthorized\<close>

fun xor_accumulate :: "32 word \<Rightarrow> string \<Rightarrow> string \<Rightarrow> 32 word" where
  \<comment> \<open>The loop \<open>result |= a[i] ^ b[i]\<close> over two strings of equal length.\<close>
  "xor_accumulate result (x # xs) (y # ys) = xor_accumulate (result OR (of_char x XOR of_char y)) xs ys"
| "xor_accumulate result _ _ = result"

definition CryptographicEquals :: "string option \<Rightarrow> string option \<Rightarrow> bool" where
  "CryptographicEquals a b = (case (a, b) of
       (Some x, Some y) \<Rightarrow> if length x \<noteq> length y then False else xor_accumulate 0 x y = 0
     | _ \<Rightarrow> False)"

definition IsAuthorized :: "hmacsha256 \<Rightarrow> string option \<Rightarrow> UdpCommandMessage
    \<Rightarrow> bool" where
  "IsAuthorized H sharedSecret message =
     (if IsNullOrEmpty sharedSecret then True
      else if IsNullOrEmpty (signature message) then False
      else (case sharedSecret of
              None \<Rightarrow> True
            | Some secret \<Rightarrow>
                (let expectedSignature =
                       ToBase64String (digest_bytes (H (UTF8_GetBytes secret) (UTF8_GetBytes (canonical
                           message))))
                 in CryptographicEquals (Some expectedSignature) (signature message))))"

subsection \<open>UdpCommandListener.IsStale\<close>

text \<open>
  A \<open>DateTimeOffset\<close> is modelled by its number of ticks (100 ns) since the Unix epoch.
  The two factory methods raise outside the years 0001 to 9999. The clock
  \<open>DateTimeOffset.UtcNow\<close> is the parameter \<open>utcNow\<close>.

  The age is a \<open>double\<close>: \<open>TimeSpan.TotalSeconds\<close> converts the 64-bit tick count to a
  \<open>double\<close> and divides it by the \<open>double\<close> 10,000,000; the older class libraries multiply
  it by the \<open>double\<close> nearest to one ten-millionth instead. The listener is modelled with
  the first; the second is \<open>TotalSeconds_product\<close>. A \<open>double\<close> is modelled by the
  rational number it denotes, and \<open>to_double\<close> rounds a rational number to the nearest
  number with a significand of 53 bits, ties to the even significand, as the conversion,
  the division and the multiplication do. The exponent is not bounded: the magnitudes that arise here, from
  one tick to \<open>2\<^sup>6\<^sup>3\<close> ticks, are far from the subnormal numbers and from overflow. The
  window is a \<open>float\<close>; the comparison converts it to \<open>double\<close> without loss, so it is
  the real number it denotes.
\<close>

definition FromUnixTimeMilliseconds :: "int \<Rightarrow> csharp_error + int" where
  "FromUnixTimeMilliseconds milliseconds =
     (if milliseconds < - 62135596800000 \<or> milliseconds > 253402300799999
      then Inl ArgumentOutOfRangeException else Inr (milliseconds * 10000))"

definition FromUnixTimeSeconds :: "int \<Rightarrow> csharp_error + int" where
  "FromUnixTimeSeconds seconds =
     (if seconds < - 62135596800 \<or> seconds > 253402300799
      then Inl ArgumentOutOfRangeException else Inr (seconds * 10000000))"

definition MaxUtcNowTicks :: int where
  \<comment> \<open>\<open>DateTimeOffset.MaxValue\<close> in ticks since the Unix epoch.\<close>
  "MaxUtcNowTicks = 2534023007999999999"

definition round_half_even :: "rat \<Rightarrow> int" where
  \<comment> \<open>The nearest integer, the even one of two that are equally near.\<close>
  "round_half_even x =
     (let f = \<lfloor>x\<rfloor>; r = x - of_int f
      in if r < 1 / 2 then f else if 1 / 2 < r then f + 1 else if even f then f else f + 1)"

definition binary_exponent :: "rat \<Rightarrow> int" where
  \<comment> \<open>For a positive \<open>x\<close>, the exponent \<open>e\<close> with \<open>2\<^sup>e \<le> x < 2\<^sup>e\<^sup>+\<^sup>1\<close>, from the bit
      lengths of numerator and denominator.\<close>
  "binary_exponent x =
     (case quotient_of x of
        (n, d) \<Rightarrow>
          (let s = bitlen n - bitlen d
           in if of_int d * 2 powi s \<le> (of_int n :: rat) then s else s - 1))"

definition to_double :: "rat \<Rightarrow> rat" where
  \<comment> \<open>Rounding to \<open>double\<close>: the significand, scaled into \<open>2\<^sup>5\<^sup>2 .. 2\<^sup>5\<^sup>3\<close>, is rounded to
      an integer.\<close>
  "to_double x =
     (if x = 0 then 0
      else (let e = binary_exponent \<bar>x\<bar> - 52
            in sgn x * of_int (round_half_even (\<bar>x\<bar> / 2 powi e)) * 2 powi e))"

definition TotalSeconds :: "int \<Rightarrow> rat" where
  \<comment> \<open>\<open>(double)_ticks / TicksPerSecond\<close>, the property as .NET Core and its successors
      compute it.\<close>
  "TotalSeconds ticks = to_double (to_double (of_int ticks) / 10000000)"

definition SecondsPerTick :: rat where
  \<comment> \<open>The constant \<open>1.0 / TicksPerSecond\<close> of the older class libraries.\<close>
  "SecondsPerTick = to_double (1 / 10000000)"

definition TotalSeconds_product :: "int \<Rightarrow> rat" where
  \<comment> \<open>\<open>(double)_ticks * SecondsPerTick\<close>, the property as the class libraries of the .NET
      Framework and of Mono, the runtime of the Unity player, compute it.\<close>
  "TotalSeconds_product ticks = to_double (to_double (of_int ticks) * SecondsPerTick)"

definition IsStale_with ::
  "(int \<Rightarrow> rat) \<Rightarrow> real \<Rightarrow> int \<Rightarrow> UdpCommandMessage \<Rightarrow>
      csharp_error + bool" where
  \<comment> \<open>The method, with the property \<open>TimeSpan.TotalSeconds\<close> of the class library as its first
      parameter.\<close>
  "IsStale_with TimeSpan_TotalSeconds staleCommandWindowSeconds utcNow message =
     (if staleCommandWindowSeconds \<le> 0 \<or> timestamp message \<le> 0 then Inr False
      else case (if timestamp message > 9999999999
                 then FromUnixTimeMilliseconds (timestamp message)
                 else FromUnixTimeSeconds (timestamp message)) of
             Inl e \<Rightarrow> Inl e
           | Inr ts \<Rightarrow>
               (let ageSeconds = TimeSpan_TotalSeconds (utcNow - ts)
                in Inr (real_of_rat ageSeconds > staleCommandWindowSeconds)))"

definition IsStale :: "real \<Rightarrow> int \<Rightarrow> UdpCommandMessage \<Rightarrow> csharp_error +
    bool" where
  "IsStale staleCommandWindowSeconds utcNow message =
     IsStale_with TotalSeconds staleCommandWindowSeconds utcNow message"

subsection \<open>UdpCommandListener.RegisterCommandId and PruneProcessedCommands\<close>

text \<open>
  The dictionary \<open>_processedCommands\<close> is a list of key/value pairs with distinct keys;
  \<open>Count\<close> is its length, the indexer assignment is \<open>AList.update\<close> and \<open>Remove\<close> is
  \<open>AList.delete\<close>. The clock \<open>DateTimeOffset.UtcNow.ToUnixTimeSeconds()\<close> is read once at
  the insertion and once more in the pruning pass: the two readings are the parameters
  \<open>nowInsert\<close> and \<open>nowPrune\<close>. The cast \<open>(long)\<close> of a float that is at least 1 truncates,
  which is \<open>floor\<close>; the language leaves the cast unspecified beyond the range of
  \<open>long\<close>, and the model is meant for windows inside that range.
\<close>

type_synonym processed_commands = "(string \<times> int) list"

definition MaxRememberedCommandIds :: nat where
  "MaxRememberedCommandIds = 128"

definition ContainsKey :: "'k \<Rightarrow> ('k \<times> 'v) list \<Rightarrow> bool" where
  "ContainsKey key d = (map_of d key \<noteq> None)"

definition PruneProcessedCommands :: "real \<Rightarrow> int \<Rightarrow> processed_commands \<Rightarrow>
    processed_commands" where
  "PruneProcessedCommands staleCommandWindowSeconds nowPrune processedCommands =
     (let cutoff = nowPrune - \<lfloor>max 1 staleCommandWindowSeconds\<rfloor>;
          toRemove = map fst (filter (\<lambda>kvp. snd kvp < cutoff) processedCommands)
      in fold AList.delete toRemove processedCommands)"

definition RegisterCommandId ::
  "real \<Rightarrow> int \<Rightarrow> int \<Rightarrow> processed_commands \<Rightarrow> UdpCommandMessage
      \<Rightarrow> bool \<times> processed_commands" where
  "RegisterCommandId staleCommandWindowSeconds nowInsert nowPrune processedCommands message =
     (case cmdId message of
        None \<Rightarrow> (True, processedCommands)
      | Some key \<Rightarrow>
          if key = [] then (True, processedCommands)
          else if ContainsKey key processedCommands then (False, processedCommands)
          else
            (let inserted = AList.update key nowInsert processedCommands
             in if length inserted > MaxRememberedCommandIds
                then (True, PruneProcessedCommands staleCommandWindowSeconds nowPrune inserted)
                else (True, inserted)))"

subsection \<open>UdpCommandListener.ParseMessage and one round of ListenLoop\<close>

text \<open>
  \<open>JsonUtility.FromJson\<close> belongs to the engine and is the parameter \<open>FromJson\<close>: it returns
  an envelope, \<open>null\<close>, or raises. A round of the receive loop takes one datagram (its text
  and the sender's endpoint) and the three clock readings the round may make; it returns
  what became of the datagram and the new state of the listener.
\<close>

record IPEndPoint =
  Address :: string
  Port :: int

type_synonym from_json = "string \<Rightarrow> csharp_error + UdpCommandMessage option"

definition is_ArgumentException :: "csharp_error \<Rightarrow> bool" where
  "is_ArgumentException e = (e \<noteq> SocketException)"

definition ParseMessage :: "from_json \<Rightarrow> string \<Rightarrow> csharp_error + UdpCommandMessage
    option" where
  \<comment> \<open>\<open>Inr None\<close> is the source's \<open>null\<close>; only an \<open>ArgumentException\<close> is caught.\<close>
  "ParseMessage FromJson json =
     (if IsNullOrWhiteSpace (Some json) then Inr None
      else case FromJson json of
             Inl e \<Rightarrow> if is_ArgumentException e then Inr None else Inl e
           | Inr None \<Rightarrow> Inr None
           | Inr (Some command) \<Rightarrow> if IsNullOrEmpty (action command) then Inr None else Inr (Some
               command))"

record listener_config =
  sharedSecret :: "string option"
  staleCommandWindowSeconds :: real

record listener_state =
  processedCommands :: processed_commands
  pendingCommands :: "(UdpCommandMessage \<times> IPEndPoint option) list"

record clock_readings =
  staleClock :: int
  insertClock :: int
  pruneClock :: int

datatype outcome =
    EmptyDatagram
  | Malformed
  | Unauthorized
  | Stale
  | Duplicate
  | Enqueued
  | ReceiveException csharp_error

definition ListenLoop_round ::
  "hmacsha256 \<Rightarrow> from_json \<Rightarrow> listener_config \<Rightarrow> clock_readings \<Rightarrow>
      string \<times> IPEndPoint
     \<Rightarrow> listener_state \<Rightarrow> outcome \<times> listener_state" where
  "ListenLoop_round H FromJson cfg clock datagram st =
     (let messageJson = fst datagram; remoteEndpoint = snd datagram in
      if messageJson = [] then (EmptyDatagram, st)
      else case ParseMessage FromJson messageJson of
        Inl e \<Rightarrow> (ReceiveException e, st)
      | Inr None \<Rightarrow> (Malformed, st)
      | Inr (Some command) \<Rightarrow>
          if \<not> IsAuthorized H (sharedSecret cfg) command then (Unauthorized, st)
          else case IsStale (staleCommandWindowSeconds cfg) (staleClock clock) command of
            Inl e \<Rightarrow> (ReceiveException e, st)
          | Inr True \<Rightarrow> (Stale, st)
          | Inr False \<Rightarrow>
              (case RegisterCommandId (staleCommandWindowSeconds cfg) (insertClock clock) (pruneClock clock)
                      (processedCommands st) command of
                 (False, processed) \<Rightarrow> (Duplicate, st\<lparr>processedCommands :=
                     processed\<rparr>)
               | (True, processed) \<Rightarrow>
                   (Enqueued, st\<lparr>processedCommands := processed,
                                 pendingCommands := pendingCommands st @ [(command, Some
                                     remoteEndpoint)]\<rparr>)))"

subsection \<open>UdpCommandListener: bindings and DispatchCommand\<close>

text \<open>
  A handler (a delegate or a UnityEvent listener) is an opaque value of type \<open>'h\<close>; running
  one is the effect \<open>Invoke h message\<close>, handlers are taken to return normally, and a
  dispatch returns the effects in the order the source performs them. The dictionary
  \<open>_bindingLookup\<close> is built with \<open>StringComparer.OrdinalIgnoreCase\<close>: a list of
  key/binding pairs searched with that comparer. \<open>RegisterHandler\<close> changes the binding
  object that the dictionary holds, which is the first entry whose key matches.
\<close>

record 'h UdpCommandBinding =
  Action :: "string option"
  onCommand :: "'h list"
  RuntimeHandlers :: "'h list"

type_synonym 'h binding_lookup = "(string \<times> 'h UdpCommandBinding) list"

fun TryGetValue :: "string \<Rightarrow> (string \<times> 'v) list \<Rightarrow> 'v option" where
  "TryGetValue key [] = None"
| "TryGetValue key ((k, v) # rest) =
     (if EqualsOrdinalIgnoreCase (Some k) (Some key) then Some v else TryGetValue key rest)"

definition BuildBindingLookup_step ::
  "'h UdpCommandBinding option \<Rightarrow> 'h binding_lookup \<Rightarrow> 'h binding_lookup" where
  \<comment> \<open>One round of the \<open>foreach\<close> over the Inspector's bindings.\<close>
  "BuildBindingLookup_step binding lookup =
     (case binding of
        None \<Rightarrow> lookup
      | Some b \<Rightarrow>
          (case Action b of
             None \<Rightarrow> lookup
           | Some a \<Rightarrow>
               if IsNullOrWhiteSpace (Some a) then lookup
               else if TryGetValue a lookup \<noteq> None then lookup
               else lookup @ [(a, b)]))"

definition BuildBindingLookup :: "'h UdpCommandBinding option list \<Rightarrow> 'h binding_lookup" where
  "BuildBindingLookup bindings = fold BuildBindingLookup_step bindings []"

fun AddRuntimeHandler :: "string \<Rightarrow> 'h \<Rightarrow> 'h binding_lookup \<Rightarrow> 'h
    binding_lookup" where
  "AddRuntimeHandler key h [] = []"
| "AddRuntimeHandler key h ((k, b) # rest) =
     (if EqualsOrdinalIgnoreCase (Some k) (Some key)
      then (k, b\<lparr>RuntimeHandlers := RuntimeHandlers b @ [h]\<rparr>) # rest
      else (k, b) # AddRuntimeHandler key h rest)"

definition RegisterHandler ::
  "string option \<Rightarrow> 'h option \<Rightarrow> 'h binding_lookup \<Rightarrow> csharp_error + 'h
      binding_lookup" where
  "RegisterHandler act handler lookup =
     (case act of
        None \<Rightarrow> Inl ArgumentException
      | Some a \<Rightarrow>
          if a = [] then Inl ArgumentException
          else case handler of
            None \<Rightarrow> Inl ArgumentNullException
          | Some h \<Rightarrow>
              (case TryGetValue a lookup of
                 None \<Rightarrow> Inr (lookup @ [(a, \<lparr>Action = Some a, onCommand = [],
                     RuntimeHandlers = [h]\<rparr>)])
               | Some binding \<Rightarrow> Inr (AddRuntimeHandler a h lookup)))"

fun RegisterHandler_calls ::
  "(string \<times> 'h) list \<Rightarrow> 'h binding_lookup \<Rightarrow> csharp_error + 'h binding_lookup"
      where
  \<comment> \<open>The calls of \<open>RegisterHandler\<close> that the scripts of an application make, in order,
      each with an action and a handler; a call that raises ends the sequence.\<close>
  "RegisterHandler_calls [] lookup = Inr lookup"
| "RegisterHandler_calls ((a, h) # rest) lookup =
     (case RegisterHandler (Some a) (Some h) lookup of
        Inl e \<Rightarrow> Inl e
      | Inr registered \<Rightarrow> RegisterHandler_calls rest registered)"

record UdpCommandAcknowledgement =
  ack_cmdId :: "string option"
  status :: string
  receivedTimestamp :: int

datatype 'h effect =
    Invoke 'h UdpCommandMessage
  | LogWarning
  | Send UdpCommandAcknowledgement IPEndPoint
  | Throw csharp_error

record 'h dispatcher =
  onCommandReceived :: "'h list"
  CommandReceived :: "'h list"
  bindingLookup :: "'h binding_lookup"
  sendAcknowledgement :: bool
  ackClientOpen :: bool

definition Binding_Invoke :: "'h UdpCommandBinding \<Rightarrow> UdpCommandMessage \<Rightarrow> 'h effect
    list" where
  "Binding_Invoke binding message =
     map (\<lambda>h. Invoke h message) (onCommand binding) @ map (\<lambda>h. Invoke h message)
         (RuntimeHandlers binding)"

definition SendAcknowledgement ::
  "'h dispatcher \<Rightarrow> int \<Rightarrow> UdpCommandMessage \<Rightarrow> IPEndPoint \<Rightarrow> 'h
      effect list" where
  "SendAcknowledgement d nowMilliseconds message remote =
     (if \<not> ackClientOpen d then []
      else [Send \<lparr>ack_cmdId = cmdId message, status = ''received'', receivedTimestamp =
          nowMilliseconds\<rparr> remote])"

definition DispatchCommand ::
  "'h dispatcher \<Rightarrow> int \<Rightarrow> UdpCommandMessage \<times> IPEndPoint option \<Rightarrow> 'h
      effect list" where
  "DispatchCommand d nowMilliseconds pending =
     (let message = fst pending in
      map (\<lambda>h. Invoke h message) (onCommandReceived d)
      @ map (\<lambda>h. Invoke h message) (CommandReceived d)
      @ (case action message of
           None \<Rightarrow> [Throw ArgumentNullException]
         | Some a \<Rightarrow>
             (case TryGetValue a (bindingLookup d) of
                Some binding \<Rightarrow> Binding_Invoke binding message
              | None \<Rightarrow> [LogWarning])
             @ (case snd pending of
                  None \<Rightarrow> []
                | Some remote \<Rightarrow>
                    if sendAcknowledgement d then SendAcknowledgement d nowMilliseconds message remote
                    else [])))"

definition raises :: "'h effect list \<Rightarrow> bool" where
  "raises effects = list_ex (\<lambda>e. case e of Throw x \<Rightarrow> True | _ \<Rightarrow> False)
      effects"

fun Update_loop ::
  "'h dispatcher \<Rightarrow> int \<Rightarrow> (UdpCommandMessage \<times> IPEndPoint option) list
     \<Rightarrow> 'h effect list \<times> (UdpCommandMessage \<times> IPEndPoint option) list" where
  "Update_loop d nowMilliseconds [] = ([], [])"
| "Update_loop d nowMilliseconds (pending # rest) =
     (let effects = DispatchCommand d nowMilliseconds pending
      in if raises effects then (effects, rest)
         else case Update_loop d nowMilliseconds rest of
                (later, left) \<Rightarrow> (effects @ later, left))"

definition Update ::
  "'h dispatcher \<Rightarrow> int \<Rightarrow> listener_state \<Rightarrow> 'h effect list \<times>
      listener_state" where
  \<comment> \<open>The frame update dequeues and dispatches the pending commands in turn; a dispatch
      that raises ends the frame's loop and leaves the rest of the queue.\<close>
  "Update d nowMilliseconds st =
     (case Update_loop d nowMilliseconds (pendingCommands st) of
        (effects, left) \<Rightarrow> (effects, st\<lparr>pendingCommands := left\<rparr>))"

section \<open>The client reporter (UdpClientReporter)\<close>

text \<open>
  The fields of the component that host discovery reads and writes. An IP address is the
  text that \<open>IPAddress.ToString\<close> prints. \<open>Dns.GetHostAddresses\<close> is the parameter
  \<open>GetHostAddresses\<close>, and \<open>Transmit\<close> tells whether \<open>udpClient.Send\<close> to an endpoint
  returns without raising.
\<close>

record HostAnnouncementPayload =
  hostName :: "string option"
  hostAddress :: "string option"
  hostPort :: int
  commandPort :: int

record UdpClientReporter =
  hostAddress :: "string option"
  hostPort :: int
  discoveryPort :: int
  autoDiscoverHost :: bool
  registerOnEnable :: bool
  cachedEndpoint :: "IPEndPoint option"
  cachedHostAddress :: "string option"
  hasSentRegistration :: bool
  hasLoggedMissingHost :: bool

datatype AddressFamily = InterNetwork | InterNetworkV6

type_synonym get_host_addresses = "string \<Rightarrow> csharp_error + (AddressFamily \<times> string) list"

definition IsHostResolved :: "UdpClientReporter \<Rightarrow> bool" where
  "IsHostResolved st =
     (\<not> IsNullOrWhiteSpace (UdpClientReporter.hostAddress st)
      \<and> \<not> EqualsOrdinalIgnoreCase (UdpClientReporter.hostAddress st) (Some ''auto''))"

definition ResetCachedEndpoint :: "UdpClientReporter \<Rightarrow> UdpClientReporter" where
  "ResetCachedEndpoint st = st\<lparr>cachedEndpoint := None, cachedHostAddress := None\<rparr>"

definition ApplyHostAnnouncement ::
  "HostAnnouncementPayload option \<Rightarrow> IPEndPoint option \<Rightarrow> UdpClientReporter
      \<Rightarrow>
      bool \<times> UdpClientReporter" where
  "ApplyHostAnnouncement announcement remote st =
     (let payloadAddress = (case announcement of None \<Rightarrow> None | Some p \<Rightarrow>
         HostAnnouncementPayload.hostAddress p);
          resolvedAddress =
            (if \<not> IsNullOrWhiteSpace payloadAddress then payloadAddress
             else case remote of None \<Rightarrow> None | Some r \<Rightarrow> Some (Address r))
      in if IsNullOrWhiteSpace resolvedAddress then (False, st)
         else
           (let resolvedPort =
                  (case announcement of
                     None \<Rightarrow> UdpClientReporter.hostPort st
                   | Some p \<Rightarrow>
                       if HostAnnouncementPayload.hostPort p > 0 then HostAnnouncementPayload.hostPort p
                       else UdpClientReporter.hostPort st);
                addressChanged = (\<not> EqualsOrdinalIgnoreCase (UdpClientReporter.hostAddress st)
                    resolvedAddress);
                portChanged = (resolvedPort \<noteq> UdpClientReporter.hostPort st);
                st1 = st\<lparr>UdpClientReporter.hostAddress := resolvedAddress,
                         UdpClientReporter.hostPort := resolvedPort,
                         discoveryPort := resolvedPort\<rparr>;
                st2 = (if addressChanged \<or> portChanged
                       then (ResetCachedEndpoint st1)\<lparr>hasSentRegistration := False\<rparr>
                       else st1)
            in (True, st2\<lparr>hasLoggedMissingHost := False\<rparr>)))"

definition new_IPEndPoint :: "string \<Rightarrow> int \<Rightarrow> csharp_error + IPEndPoint" where
  \<comment> \<open>The constructor \<open>IPEndPoint(address, port)\<close> raises for a port outside
      \<open>IPEndPoint.MinPort .. IPEndPoint.MaxPort\<close>.\<close>
  "new_IPEndPoint ip portNumber =
     (if portNumber < 0 \<or> portNumber > 65535 then Inl ArgumentOutOfRangeException
      else Inr \<lparr>Address = ip, Port = portNumber\<rparr>)"

definition TryResolveEndpoint ::
  "get_host_addresses \<Rightarrow> UdpClientReporter \<Rightarrow> IPEndPoint option \<times>
      UdpClientReporter" where
  \<comment> \<open>Whatever is raised inside the \<open>try\<close>, by the resolver or by the constructor of the
      endpoint, is caught and logged: the method returns \<open>false\<close> and caches nothing.\<close>
  "TryResolveEndpoint GetHostAddresses st =
     (if \<not> IsHostResolved st then (None, st)
      else if (case cachedEndpoint st of
                 None \<Rightarrow> False
               | Some e \<Rightarrow>
                   EqualsOrdinalIgnoreCase (UdpClientReporter.hostAddress st) (cachedHostAddress st)
                   \<and> Port e = UdpClientReporter.hostPort st)
      then (cachedEndpoint st, st)
      else case UdpClientReporter.hostAddress st of
        None \<Rightarrow> (None, st)
      | Some host \<Rightarrow>
          (case GetHostAddresses host of
             Inl e \<Rightarrow> (None, st)
           | Inr addresses \<Rightarrow>
               (case filter (\<lambda>address. fst address = InterNetwork) addresses of
                  [] \<Rightarrow> (None, st)
                | address # others \<Rightarrow>
                    (case new_IPEndPoint (snd address) (UdpClientReporter.hostPort st) of
                       Inl e \<Rightarrow> (None, st)
                     | Inr endpoint \<Rightarrow>
                         (Some endpoint,
                          st\<lparr>cachedEndpoint := Some endpoint,
                             cachedHostAddress := UdpClientReporter.hostAddress st\<rparr>)))))"

definition EnsureHostReady :: "UdpClientReporter \<Rightarrow> bool \<times> UdpClientReporter" where
  "EnsureHostReady st =
     (if IsHostResolved st then (True, st\<lparr>hasLoggedMissingHost := False\<rparr>)
      else if hasLoggedMissingHost st then (False, st)
      else (False, st\<lparr>hasLoggedMissingHost := True\<rparr>))"

definition SendCommand ::
  "get_host_addresses \<Rightarrow> (IPEndPoint \<Rightarrow> bool) \<Rightarrow> UdpClientReporter
      \<Rightarrow> IPEndPoint option \<times> UdpClientReporter" where
  \<comment> \<open>Returns the endpoint the datagram was sent to; \<open>None\<close> is the source's \<open>false\<close>.\<close>
  "SendCommand GetHostAddresses Transmit st =
     (case EnsureHostReady st of
        (False, st1) \<Rightarrow> (None, st1)
      | (True, st1) \<Rightarrow>
          (case TryResolveEndpoint GetHostAddresses st1 of
             (None, st2) \<Rightarrow> (None, st2)
           | (Some endpoint, st2) \<Rightarrow> if Transmit endpoint then (Some endpoint, st2) else (None,
               st2)))"

definition RegisterClient ::
  "get_host_addresses \<Rightarrow> (IPEndPoint \<Rightarrow> bool) \<Rightarrow> UdpClientReporter
      \<Rightarrow> IPEndPoint option \<times> UdpClientReporter" where
  "RegisterClient GetHostAddresses Transmit st =
     (case EnsureHostReady st of
        (False, st1) \<Rightarrow> (None, st1)
      | (True, st1) \<Rightarrow>
          (case SendCommand GetHostAddresses Transmit st1 of
             (None, st2) \<Rightarrow> (None, st2)
           | (Some endpoint, st2) \<Rightarrow> (Some endpoint, st2\<lparr>hasSentRegistration :=
               True\<rparr>)))"

definition MaybeStartReporting ::
  "get_host_addresses \<Rightarrow> (IPEndPoint \<Rightarrow> bool) \<Rightarrow> bool \<Rightarrow>
      UdpClientReporter \<Rightarrow> IPEndPoint option \<times> UdpClientReporter" where
  \<comment> \<open>Up to the start of the heartbeat coroutine, which touches none of these fields.\<close>
  "MaybeStartReporting GetHostAddresses Transmit forceRegister st =
     (if \<not> IsHostResolved st then (None, st)
      else
        (let st1 = st\<lparr>hasLoggedMissingHost := False\<rparr>
         in if \<not> hasSentRegistration st1 \<and> (forceRegister \<or> registerOnEnable st1)
            then RegisterClient GetHostAddresses Transmit st1
            else (None, st1)))"

definition first_InterNetwork :: "get_host_addresses \<Rightarrow> string \<Rightarrow> string option" where
  \<comment> \<open>The address that \<open>TryResolveEndpoint\<close> picks for a host: the first IPv4 address, if any.\<close>
  "first_InterNetwork G host =
     (case G host of
        Inl e \<Rightarrow> None
      | Inr addresses \<Rightarrow>
          (case filter (\<lambda>ip. fst ip = InterNetwork) addresses of
             [] \<Rightarrow> None
           | ip # others \<Rightarrow> Some (snd ip)))"

definition cache_coherent :: "get_host_addresses \<Rightarrow> UdpClientReporter \<Rightarrow> bool" where
  \<comment> \<open>An invariant of the reporter, not a function of the source: a cached endpoint holds the
      address resolved for the host name it was cached under.\<close>
  "cache_coherent G st =
     (case cachedEndpoint st of
        None \<Rightarrow> True
      | Some e \<Rightarrow>
          (case cachedHostAddress st of
             None \<Rightarrow> False
           | Some host \<Rightarrow> first_InterNetwork G host = Some (Address e)))"

section \<open>The host tool's roster (renderer.js)\<close>

text \<open>
  A registration or heartbeat record reaches \<open>upsertClient\<close> as an object with seven
  properties. A text property is a \<open>string option\<close> and \<open>commandPort\<close>, which the caller
  passes only when \<open>Number.isInteger\<close> holds, an \<open>int option\<close>; \<open>None\<close> stands for both
  \<open>undefined\<close> and \<open>null\<close>, which every test in the function treats alike. The only call
  site passes an object literal, so the record itself is never null. The \<open>Map\<close> of clients
  is a list of key/entry pairs in insertion order; \<open>Map.set\<close> is \<open>AList.update\<close>.
  \<open>Date.now()\<close> is the parameter \<open>now\<close>, and \<open>Number.parseInt(portInput.value, 10)\<close> is
  the parameter \<open>portInput\<close>, with \<open>None\<close> for \<open>NaN\<close>.
\<close>

record packet =
  address :: string
  port :: int

record client_record =
  deviceId :: "string option"
  deviceName :: "string option"
  platform :: "string option"
  buildVersion :: "string option"
  ipv4 :: "string option"
  scene :: "string option"
  commandPort :: "int option"

record device =
  deviceId :: string
  deviceName :: string
  platform :: string
  buildVersion :: string
  ipv4 :: string
  scene :: string
  commandPort :: "int option"
  remoteAddress :: string
  remotePort :: int
  firstSeen :: int
  lastSeen :: int

type_synonym clients = "(string \<times> device) list"

definition or_string :: "string option \<Rightarrow> string \<Rightarrow> string" where
  \<comment> \<open>\<open>x || y\<close> for a text property \<open>x\<close>: undefined, null and the empty string are falsy.\<close>
  "or_string x y = (case x of None \<Rightarrow> y | Some v \<Rightarrow> if v = [] then y else v)"

definition or_number :: "int option \<Rightarrow> int \<Rightarrow> int" where
  \<comment> \<open>\<open>x || y\<close> for a number \<open>x\<close>: undefined, null, NaN and 0 are falsy.\<close>
  "or_number x y = (case x of None \<Rightarrow> y | Some n \<Rightarrow> if n = 0 then y else n)"

definition assign_defined :: "'a option \<Rightarrow> 'a \<Rightarrow> 'a" where
  \<comment> \<open>One round of the \<open>Object.entries\<close> loop: the property is overwritten when the value
      is neither undefined nor null.\<close>
  "assign_defined v old = (case v of None \<Rightarrow> old | Some x \<Rightarrow> x)"

definition client_key :: "packet \<Rightarrow> client_record \<Rightarrow> clients \<Rightarrow> string" where
  "client_key pkt rec cs =
     or_string (client_record.deviceId rec)
       (if address pkt \<noteq> [] then address pkt else ''client-'' @ digits (length cs + 1))"

definition new_client :: "int \<Rightarrow> packet \<Rightarrow> client_record \<Rightarrow> string
    \<Rightarrow> device" where
  \<comment> \<open>The object literal that stands in when the map has no entry under the key.\<close>
  "new_client now pkt rec key =
     \<lparr>device.deviceId = or_string (client_record.deviceId rec) key,
      device.deviceName = or_string (client_record.deviceName rec) [],
      device.platform = or_string (client_record.platform rec) [],
      device.buildVersion = or_string (client_record.buildVersion rec) [],
      device.ipv4 = or_string (client_record.ipv4 rec) (address pkt),
      device.scene = or_string (client_record.scene rec) [],
      device.commandPort = client_record.commandPort rec,
      remoteAddress = address pkt,
      remotePort = port pkt,
      firstSeen = now,
      lastSeen = now\<rparr>"

definition merge_client :: "int option \<Rightarrow> int \<Rightarrow> packet \<Rightarrow> client_record
    \<Rightarrow> device \<Rightarrow> device" where
  \<comment> \<open>From \<open>const updated = {...current, ...}\<close> to the default of \<open>deviceName\<close>: the entry
      that is stored, computed from the entry \<open>current\<close>.\<close>
  "merge_client portInput now pkt rec current =
     (let spread = current\<lparr>remoteAddress := address pkt, remotePort := port pkt, lastSeen :=
         now\<rparr>;
          merged = spread
            \<lparr>device.deviceId := assign_defined (client_record.deviceId rec) (device.deviceId spread),
             device.deviceName := assign_defined (client_record.deviceName rec) (device.deviceName spread),
             device.platform := assign_defined (client_record.platform rec) (device.platform spread),
             device.buildVersion := assign_defined (client_record.buildVersion rec) (device.buildVersion
                 spread),
             device.ipv4 := assign_defined (client_record.ipv4 rec) (device.ipv4 spread),
             device.scene := assign_defined (client_record.scene rec) (device.scene spread),
             device.commandPort :=
               (case client_record.commandPort rec of None \<Rightarrow> device.commandPort spread | Some n
                   \<Rightarrow> Some n)\<rparr>;
          with_ipv4 = merged\<lparr>device.ipv4 := or_string (Some (device.ipv4 merged)) (address
              pkt)\<rparr>;
          with_scene = with_ipv4\<lparr>device.scene := or_string (Some (device.scene with_ipv4))
              (device.scene current)\<rparr>;
          with_port = with_scene
            \<lparr>device.commandPort := Some (or_number (device.commandPort with_scene) (or_number portInput
                3939))\<rparr>
      in if device.deviceName with_port = []
         then with_port\<lparr>device.deviceName := device.deviceId with_port\<rparr>
         else with_port)"

definition upsertClient :: "int option \<Rightarrow> int \<Rightarrow> packet \<Rightarrow> client_record
    \<Rightarrow> clients \<Rightarrow> clients" where
  "upsertClient portInput now pkt rec cs =
     (let key = client_key pkt rec cs;
          current = (case map_of cs key of Some existing \<Rightarrow> existing | None \<Rightarrow>
              new_client now pkt rec key);
          updated = merge_client portInput now pkt rec current
      in AList.update key updated cs)"

definition HEARTBEAT_TIMEOUT_MS :: int where
  "HEARTBEAT_TIMEOUT_MS = 10000"

definition isOffline :: "int \<Rightarrow> device \<Rightarrow> bool" where
  \<comment> \<open>\<open>now - device.lastSeen > HEARTBEAT_TIMEOUT_MS\<close>, as \<open>renderDeviceGrid\<close>,
      \<open>updateDeviceStats\<close> and \<open>toggleDeviceSelection\<close> compute it.\<close>
  "isOffline now d = (now - lastSeen d > HEARTBEAT_TIMEOUT_MS)"

type_synonym locale_compare = "string \<Rightarrow> string \<Rightarrow> int"

definition compare_cards ::
  "(string \<Rightarrow> string) \<Rightarrow> locale_compare \<Rightarrow> string \<times> device
      \<Rightarrow> string \<times> device \<Rightarrow> int" where
  \<comment> \<open>The comparator that \<open>renderDeviceGrid\<close> hands to \<open>sort\<close>: the lower-cased name
      (\<open>deviceName || deviceId || ''\<close>) first, the scene second. \<open>String.prototype.toLowerCase\<close>
      and \<open>localeCompare\<close> belong to the JavaScript runtime and are parameters.\<close>
  "compare_cards toLowerCase localeCompare a b =
     (let nameA = toLowerCase (or_string (Some (device.deviceName (snd a)))
                                 (or_string (Some (device.deviceId (snd a))) []));
          nameB = toLowerCase (or_string (Some (device.deviceName (snd b)))
                                 (or_string (Some (device.deviceId (snd b))) []))
      in if nameA \<noteq> nameB then localeCompare nameA nameB
         else localeCompare (or_string (Some (device.scene (snd a))) [])
                (or_string (Some (device.scene (snd b))) []))"

fun insert_sorted :: "('a \<Rightarrow> 'a \<Rightarrow> int) \<Rightarrow> 'a \<Rightarrow> 'a list
    \<Rightarrow> 'a list" where
  "insert_sorted comparefn x [] = [x]"
| "insert_sorted comparefn x (y # ys) =
     (if comparefn x y < 0 then x # y # ys else y # insert_sorted comparefn x ys)"

definition Array_sort :: "('a \<Rightarrow> 'a \<Rightarrow> int) \<Rightarrow> 'a list \<Rightarrow> 'a list"
    where
  \<comment> \<open>\<open>Array.prototype.sort\<close> is stable; with a comparator that orders its arguments
      consistently, as \<open>localeCompare\<close> does, the result is the one computed here: each
      element in turn goes behind the elements that do not come after it.\<close>
  "Array_sort comparefn xs = fold (insert_sorted comparefn) xs []"

definition renderDeviceGrid ::
  "(string \<Rightarrow> string) \<Rightarrow> locale_compare \<Rightarrow> int \<Rightarrow> clients
      \<Rightarrow> string list
     \<Rightarrow> (string \<times> bool) list \<times> string list" where
  \<comment> \<open>The cards drawn, in the order drawn, each with its key and whether it is shown
      offline, and the selection after the pass: keys without an entry are removed first,
      and the key of every card drawn offline is removed as the card is drawn. An empty
      map draws the placeholder and no card.\<close>
  "renderDeviceGrid toLowerCase localeCompare now cs selectedDevices =
     (let valid = filter (\<lambda>key. map_of cs key \<noteq> None) selectedDevices
      in if cs = [] then ([], valid)
         else
           (let ordered = Array_sort (compare_cards toLowerCase localeCompare) cs
            in (map (\<lambda>entry. (fst entry, isOffline now (snd entry))) ordered,
                filter (\<lambda>key. \<not> list_ex (\<lambda>entry. fst entry = key \<and> isOffline now
                    (snd entry)) ordered)
                  valid)))"

definition updateDeviceStats :: "int \<Rightarrow> clients \<Rightarrow> nat \<times> nat" where
  \<comment> \<open>The pair \<open>(onlineCount, offlineCount)\<close> shown in the statistics line.\<close>
  "updateDeviceStats now cs =
     (let offlineCount = length (filter (\<lambda>entry. now - lastSeen (snd entry) > HEARTBEAT_TIMEOUT_MS)
         cs)
      in (length cs - offlineCount, offlineCount))"

definition selectAllDevices ::
  "(string \<Rightarrow> string) \<Rightarrow> locale_compare \<Rightarrow> int \<Rightarrow> int
      \<Rightarrow> clients \<Rightarrow> string list
     \<Rightarrow> (string \<times> bool) list \<times> string list" where
  \<comment> \<open>The clock is read once for the loop (\<open>now\<close>) and once more by the closing
      \<open>renderDeviceGrid()\<close> (\<open>nowRender\<close>), whose cards and selection are the result.\<close>
  "selectAllDevices toLowerCase localeCompare now nowRender cs selectedDevices =
     renderDeviceGrid toLowerCase localeCompare nowRender cs
       (fold (\<lambda>entry selected.
                if now - lastSeen (snd entry) \<le> HEARTBEAT_TIMEOUT_MS \<and> fst entry \<notin> set
                    selected
                then selected @ [fst entry] else selected)
             cs selectedDevices)"

section \<open>Notions of the specification\<close>

definition spec_age_seconds :: "int \<Rightarrow> int \<Rightarrow> real" where
  \<comment> \<open>The age of an envelope as the specification words it, in exact arithmetic: the wall
      clock (in ticks of 100 ns) minus the timestamp, read as Unix milliseconds from
      10,000,000,000 on and as Unix seconds below. This definition does not come from the
      code; \<open>IsStale\<close> is compared with it.\<close>
  "spec_age_seconds utcNow t =
     real_of_int utcNow / 10000000 - (if t \<ge> 10000000000 then real_of_int t / 1000 else real_of_int t)"

definition matching_handlers ::
  "'h UdpCommandBinding option list \<Rightarrow> (string \<times> 'h) list \<Rightarrow> string \<Rightarrow>
      'h list option" where
  \<comment> \<open>The handlers registered for an action, the action compared ignoring letter case:
      the listeners of the first Inspector binding that has the action (with the handlers
      that binding already carries), then the handlers registered at run time under the
      action, in the order of their registration; \<open>None\<close> when nothing is registered for
      the action. This definition does not come from the code; \<open>DispatchCommand\<close> is
      compared with it.\<close>
  "matching_handlers bindings registrations a =
     (let inspector = find (\<lambda>b. \<not> IsNullOrWhiteSpace (Action b) \<and> EqualsOrdinalIgnoreCase
         (Action b) (Some a))
                        (List.map_filter (\<lambda>b. b) bindings);
          runtime = map snd (filter (\<lambda>r. EqualsOrdinalIgnoreCase (Some (fst r)) (Some a))
              registrations)
      in case inspector of
           Some b \<Rightarrow> Some (onCommand b @ RuntimeHandlers b @ runtime)
         | None \<Rightarrow> if runtime = [] then None else Some runtime)"

section \<open>Authentication\<close>

lemma of_char_lt_256: "(of_char c :: nat) < 256"
proof -
  have "(of_char c :: nat) mod 256 < 256" by simp
  then show ?thesis by (simp only: of_char_mod_256)
qed

lemma of_char_word32_eq_iff: "(of_char c :: 32 word) = of_char d \<longleftrightarrow> c = d"
proof
  assume h: "(of_char c :: 32 word) = of_char d"
  have c: "(of_char c :: nat) < 2 ^ 32"
    by (rule less_trans [OF of_char_lt_256]) simp
  have d: "(of_char d :: nat) < 2 ^ 32"
    by (rule less_trans [OF of_char_lt_256]) simp
  have "(of_nat (of_char c) :: 32 word) = of_nat (of_char d)"
    using h by (simp add: of_nat_of_char)
  then have "(of_char c :: nat) = of_char d"
    using c d by (simp add: word_of_nat_eq_iff take_bit_nat_eq_self)
  then show "c = d" by simp
qed simp

lemma xor_accumulate_eq_0_iff:
  "length x = length y \<Longrightarrow> xor_accumulate r x y = 0 \<longleftrightarrow> r = 0 \<and> x = y"
proof (induction x y arbitrary: r rule: list_induct2)
  case Nil
  show ?case by simp
next
  case (Cons a x b y)
  have "(of_char a XOR of_char b = (0::32 word)) \<longleftrightarrow> a = b"
    by (metis bit.xor_left_self xor.right_neutral of_char_word32_eq_iff)
  then show ?case
    using Cons.IH by (auto simp: or_eq_0_iff)
qed

lemma CryptographicEquals_iff: "CryptographicEquals a b \<longleftrightarrow> a \<noteq> None \<and> a = b"
  by (auto simp: CryptographicEquals_def xor_accumulate_eq_0_iff split: option.splits)

lemma ToBase64String_not_empty: "bs \<noteq> [] \<Longrightarrow> ToBase64String bs \<noteq> []"
  by (induction bs rule: ToBase64String.induct) (simp_all add: Let_def)

lemma digest_bytes_not_empty: "digest_bytes w \<noteq> []"
proof -
  have "length (digest_bytes w) = 32" by (simp add: digest_bytes_def)
  then show ?thesis by auto
qed

lemma canonical_signature_update [simp]: "canonical (m\<lparr>signature := s\<rparr>) = canonical m"
  by (simp add: canonical_def)

text \<open>
  C1. For every envelope \<open>E\<close> and every non-empty shared secret \<open>S\<close>, the signer returns a
  signature, namely the base64 text of the HMAC-SHA256 of the canonical string
  \<open>action | payload-or-empty | timestamp\<close>; the verifier accepts \<open>E\<close> carrying that
  signature and rejects \<open>E\<close> carrying any other signature field.
\<close>

theorem C1_sign_then_verify:
  assumes "\<not> IsNullOrEmpty S"
  shows "\<exists>sig. ComputeSignature H S E = Inr sig
      \<and> (\<exists>secret. S = Some secret \<and> sig = ToBase64String (digest_bytes (H (UTF8_GetBytes
          secret)
            (UTF8_GetBytes ((case action E of None \<Rightarrow> [] | Some a \<Rightarrow> a) @ ''|''
               @ (case payload E of None \<Rightarrow> [] | Some p \<Rightarrow> p) @ ''|'' @ Int64_ToString
                   (timestamp E))))))
      \<and> IsAuthorized H S (E\<lparr>signature := Some sig\<rparr>)
      \<and> (\<forall>s. s \<noteq> Some sig \<longrightarrow> \<not> IsAuthorized H S (E\<lparr>signature :=
          s\<rparr>))"
proof -
  from assms obtain secret where S: "S = Some secret" "secret \<noteq> []"
    by (auto simp: IsNullOrEmpty_def split: option.splits)
  define sig where "sig = ToBase64String (digest_bytes (H (UTF8_GetBytes secret) (UTF8_GetBytes (canonical
      E))))"
  have ne: "sig \<noteq> []"
    unfolding sig_def by (rule ToBase64String_not_empty) (rule digest_bytes_not_empty)
  have 1: "ComputeSignature H S E = Inr sig"
    by (simp add: ComputeSignature_def S sig_def)
  have 2: "IsAuthorized H S (E\<lparr>signature := Some sig\<rparr>)"
    using ne by (simp add: IsAuthorized_def S IsNullOrEmpty_def CryptographicEquals_iff sig_def)
  have 3: "\<not> IsAuthorized H S (E\<lparr>signature := s\<rparr>)" if "s \<noteq> Some sig" for s
    using that by (auto simp: IsAuthorized_def S IsNullOrEmpty_def CryptographicEquals_iff sig_def)
  show ?thesis
    using 1 2 3 S(1) by (auto simp: sig_def canonical_def)
qed

theorem C1_sign_then_verify_witness:
  "\<not> IsNullOrEmpty (Some ''s3cret'')
   \<and> (\<exists>sig. ComputeSignature (\<lambda>key text. 0) (Some ''s3cret'')
                \<lparr>cmdId = None, action = Some ''Beep'', payload = Some [], timestamp = 1700000000000,
                 signature = None\<rparr> = Inr sig
            \<and> IsAuthorized (\<lambda>key text. 0) (Some ''s3cret'')
                \<lparr>cmdId = None, action = Some ''Beep'', payload = Some [], timestamp = 1700000000000,
                 signature = Some sig\<rparr>
            \<and> \<not> IsAuthorized (\<lambda>key text. 0) (Some ''s3cret'')
                \<lparr>cmdId = None, action = Some ''Beep'', payload = Some [], timestamp = 1700000000000,
                 signature = Some (CHR ''x'' # sig)\<rparr>)"
proof -
  have h: "\<not> IsNullOrEmpty (Some ''s3cret'')"
    by (simp add: IsNullOrEmpty_def)
  from C1_sign_then_verify [OF h, of "\<lambda>key text. 0"
      "\<lparr>cmdId = None, action = Some ''Beep'', payload = Some [], timestamp = 1700000000000, signature =
          None\<rparr>"]
  obtain sig where
    "ComputeSignature (\<lambda>key text. 0) (Some ''s3cret'')
       \<lparr>cmdId = None, action = Some ''Beep'', payload = Some [], timestamp = 1700000000000, signature =
           None\<rparr>
     = Inr sig"
    "IsAuthorized (\<lambda>key text. 0) (Some ''s3cret'')
       \<lparr>cmdId = None, action = Some ''Beep'', payload = Some [], timestamp = 1700000000000,
        signature = Some sig\<rparr>"
    "\<forall>s. s \<noteq> Some sig \<longrightarrow> \<not> IsAuthorized (\<lambda>key text. 0) (Some
        ''s3cret'')
       \<lparr>cmdId = None, action = Some ''Beep'', payload = Some [], timestamp = 1700000000000,
        signature = s\<rparr>"
    by auto
  then show ?thesis using h by auto
qed

text \<open>
  C2. With no shared secret configured (null or empty) the verifier accepts every
  envelope, whatever its signature field, and the receive loop drops no datagram as
  unauthorized; with a non-empty secret the verifier rejects every envelope whose
  signature is null or empty, and the receive loop drops it as unauthorized.
\<close>

theorem C2_verify_secret_and_signature_presence:
  "(IsNullOrEmpty S \<longrightarrow>
      (\<forall>s. IsAuthorized H S (E\<lparr>signature := s\<rparr>))
      \<and> (sharedSecret cfg = S \<longrightarrow> fst (ListenLoop_round H FromJson cfg clock datagram st)
          \<noteq> Unauthorized))
   \<and> (\<not> IsNullOrEmpty S \<and> IsNullOrEmpty (signature E) \<longrightarrow>
      \<not> IsAuthorized H S E
      \<and> (sharedSecret cfg = S \<and> fst datagram \<noteq> [] \<and> ParseMessage FromJson (fst datagram)
          = Inr (Some E) \<longrightarrow>
           ListenLoop_round H FromJson cfg clock datagram st = (Unauthorized, st)))"
proof (intro conjI impI)
  assume "IsNullOrEmpty S"
  then show "\<forall>s. IsAuthorized H S (E\<lparr>signature := s\<rparr>)"
    by (simp add: IsAuthorized_def)
next
  assume "IsNullOrEmpty S" and "sharedSecret cfg = S"
  then have "IsAuthorized H (sharedSecret cfg) command" for command
    by (simp add: IsAuthorized_def)
  then show "fst (ListenLoop_round H FromJson cfg clock datagram st) \<noteq> Unauthorized"
    by (auto simp: ListenLoop_round_def Let_def split: sum.splits option.splits bool.splits prod.splits)
next
  assume "\<not> IsNullOrEmpty S \<and> IsNullOrEmpty (signature E)"
  then show "\<not> IsAuthorized H S E"
    by (simp add: IsAuthorized_def)
next
  assume h: "\<not> IsNullOrEmpty S \<and> IsNullOrEmpty (signature E)"
    and r: "sharedSecret cfg = S \<and> fst datagram \<noteq> [] \<and> ParseMessage FromJson (fst datagram) =
        Inr (Some E)"
  from h have "\<not> IsAuthorized H (sharedSecret cfg) E"
    using r by (simp add: IsAuthorized_def)
  with r show "ListenLoop_round H FromJson cfg clock datagram st = (Unauthorized, st)"
    by (simp add: ListenLoop_round_def)
qed

theorem C2_verify_secret_and_signature_presence_witness:
  "IsNullOrEmpty (Some [])
   \<and> IsAuthorized (\<lambda>key text. 0) (Some []) \<lparr>cmdId = None, action = Some ''Beep'', payload
       = None, timestamp = 5, signature = Some ''junk''\<rparr>
   \<and> \<not> IsNullOrEmpty (Some ''s3cret'')
   \<and> IsNullOrEmpty (signature \<lparr>cmdId = None, action = Some ''Beep'', payload = None, timestamp =
       5, signature = None\<rparr>)
   \<and> \<not> IsAuthorized (\<lambda>key text. 0) (Some ''s3cret'') \<lparr>cmdId = None, action = Some
       ''Beep'', payload = None, timestamp = 5, signature = None\<rparr>
   \<and> ParseMessage (\<lambda>json. Inr (Some \<lparr>cmdId = None, action = Some ''Beep'', payload = None,
       timestamp = 5, signature = None\<rparr>)) ''json'' = Inr (Some \<lparr>cmdId = None, action = Some
       ''Beep'', payload = None, timestamp = 5, signature = None\<rparr>)
   \<and> ListenLoop_round (\<lambda>key text. 0) (\<lambda>json. Inr (Some \<lparr>cmdId = None, action =
       Some ''Beep'', payload = None, timestamp = 5, signature = None\<rparr>))
         \<lparr>sharedSecret = Some ''s3cret'', staleCommandWindowSeconds = 5\<rparr>
         \<lparr>staleClock = 60000000, insertClock = 6, pruneClock = 6\<rparr>
         (''json'', \<lparr>Address = ''10.0.0.7'', Port = 50000\<rparr>)
         \<lparr>processedCommands = [], pendingCommands = []\<rparr>
       = (Unauthorized, \<lparr>processedCommands = [], pendingCommands = []\<rparr>)"
proof -
  let ?H = "(\<lambda>key text. 0) :: hmacsha256"
  let ?FJ = "(\<lambda>json. Inr (Some \<lparr>cmdId = None, action = Some ''Beep'', payload = None, timestamp
      = 5, signature = None\<rparr>)) :: from_json"
  let ?m0 = "\<lparr>cmdId = None, action = Some ''Beep'', payload = None, timestamp = 5, signature =
      None\<rparr>"
  let ?cfg = "\<lparr>sharedSecret = Some ''s3cret'', staleCommandWindowSeconds = 5\<rparr>"
  let ?clk = "\<lparr>staleClock = 60000000, insertClock = 6, pruneClock = 6\<rparr>"
  let ?dg = "(''json'', \<lparr>Address = ''10.0.0.7'', Port = 50000\<rparr>)"
  let ?st = "\<lparr>processedCommands = [], pendingCommands = []\<rparr>"
  have e: "IsNullOrEmpty (Some [])" and n: "\<not> IsNullOrEmpty (Some ''s3cret'')"
    and z: "IsNullOrEmpty (signature ?m0)"
    by (simp_all add: IsNullOrEmpty_def)
  have parse: "ParseMessage ?FJ ''json'' = Inr (Some ?m0)"
    by (simp add: ParseMessage_def IsNullOrWhiteSpace_def IsWhiteSpace_def IsNullOrEmpty_def)
  have a: "IsAuthorized ?H (Some []) (?m0\<lparr>signature := Some ''junk''\<rparr>)"
    using C2_verify_secret_and_signature_presence
            [where S = "Some []" and H = ?H and E = ?m0 and cfg = ?cfg and FromJson = ?FJ and clock = ?clk
               and datagram = ?dg and st = ?st] e
    by blast
  have b: "\<not> IsAuthorized ?H (Some ''s3cret'') ?m0
      \<and> ListenLoop_round ?H ?FJ ?cfg ?clk ?dg ?st = (Unauthorized, ?st)"
    using C2_verify_secret_and_signature_presence
            [where S = "Some ''s3cret''" and H = ?H and E = ?m0 and cfg = ?cfg and FromJson = ?FJ
               and clock = ?clk and datagram = ?dg and st = ?st] n z parse
    by simp
  show ?thesis
    using e n z parse a b by simp
qed

section \<open>Staleness\<close>

lemma round_half_even_ge_floor: "\<lfloor>x\<rfloor> \<le> round_half_even x"
  by (simp add: round_half_even_def Let_def)

lemma round_half_even_le_floor_plus_1: "round_half_even x \<le> \<lfloor>x\<rfloor> + 1"
  by (simp add: round_half_even_def Let_def)

lemma round_half_even_of_int [simp]: "round_half_even (of_int z) = z"
  by (simp add: round_half_even_def Let_def)

lemma round_half_even_lower:
  assumes "of_int z \<le> x"
  shows "z \<le> round_half_even x"
proof -
  have "z \<le> \<lfloor>x\<rfloor>" using assms by (simp add: le_floor_iff)
  then show ?thesis using round_half_even_ge_floor [of x] by linarith
qed

lemma round_half_even_upper:
  assumes "x \<le> of_int z"
  shows "round_half_even x \<le> z"
proof (cases "x = of_int \<lfloor>x\<rfloor>")
  case True
  then have "round_half_even x = \<lfloor>x\<rfloor>"
    by (metis round_half_even_of_int)
  moreover have "\<lfloor>x\<rfloor> \<le> z" using assms by (simp add: floor_le_iff)
  ultimately show ?thesis by simp
next
  case False
  then have "of_int \<lfloor>x\<rfloor> < x" using of_int_floor_le [of x] by linarith
  then have "(of_int \<lfloor>x\<rfloor> :: rat) < of_int z" using assms by simp
  then have "\<lfloor>x\<rfloor> < z" by (simp only: of_int_less_iff)
  then show ?thesis using round_half_even_le_floor_plus_1 [of x] by simp
qed

lemma binary_exponent_bounds:
  assumes "0 < x"
  shows "2 powi binary_exponent x \<le> x" and "x < 2 powi (binary_exponent x + 1)"
proof -
  obtain n d where q: "quotient_of x = (n, d)" by (cases "quotient_of x")
  have d: "0 < d" using q by (rule quotient_of_denom_pos)
  have x: "x = of_int n / of_int d" using q by (rule quotient_of_div)
  have n: "0 < n" using assms d unfolding x by (simp add: zero_less_divide_iff)
  define bn where "bn = bitlen n"
  define bd where "bd = bitlen d"
  have bn1: "1 \<le> bn" using n bitlen_eq_zero_iff [of n] bitlen_nonneg [of n] unfolding bn_def by linarith
  have bd1: "1 \<le> bd" using d bitlen_eq_zero_iff [of d] bitlen_nonneg [of d] unfolding bd_def by linarith
  have nb: "(2::rat) powi (bn - 1) \<le> of_int n" "(of_int n :: rat) < 2 powi bn"
  proof -
    from bitlen_bounds [OF n] have a: "2 ^ nat (bn - 1) \<le> n" and b: "n < 2 ^ nat bn"
      unfolding bn_def by simp_all
    have "(2::rat) powi (bn - 1) = of_int (2 ^ nat (bn - 1))" using bn1 by (simp add: power_int_def)
    also have "\<dots> \<le> of_int n" using a by (simp only: of_int_le_iff)
    finally show "(2::rat) powi (bn - 1) \<le> of_int n" .
    have "(of_int n :: rat) < of_int (2 ^ nat bn)" using b by (simp only: of_int_less_iff)
    also have "\<dots> = 2 powi bn" using bn1 by (simp add: power_int_def)
    finally show "(of_int n :: rat) < 2 powi bn" .
  qed
  have db: "(2::rat) powi (bd - 1) \<le> of_int d" "(of_int d :: rat) < 2 powi bd"
  proof -
    from bitlen_bounds [OF d] have a: "2 ^ nat (bd - 1) \<le> d" and b: "d < 2 ^ nat bd"
      unfolding bd_def by simp_all
    have "(2::rat) powi (bd - 1) = of_int (2 ^ nat (bd - 1))" using bd1 by (simp add: power_int_def)
    also have "\<dots> \<le> of_int d" using a by (simp only: of_int_le_iff)
    finally show "(2::rat) powi (bd - 1) \<le> of_int d" .
    have "(of_int d :: rat) < of_int (2 ^ nat bd)" using b by (simp only: of_int_less_iff)
    also have "\<dots> = 2 powi bd" using bd1 by (simp add: power_int_def)
    finally show "(of_int d :: rat) < 2 powi bd" .
  qed
  define s where "s = bn - bd"
  define E where "E = binary_exponent x"
  have e: "E = (if of_int d * 2 powi s \<le> (of_int n :: rat) then s else s - 1)"
    by (simp add: E_def binary_exponent_def q Let_def s_def bn_def bd_def)
  have dpos: "(0::rat) < of_int d" using d by simp
  have low: "(2::rat) powi (s - 1) * of_int d \<le> of_int n"
  proof -
    have "(2::rat) powi (s - 1) * of_int d \<le> 2 powi (s - 1) * 2 powi bd"
      using db(2) by (intro mult_left_mono) simp_all
    also have "\<dots> = 2 powi (bn - 1)"
      by (simp add: s_def power_int_add [symmetric])
    finally show ?thesis using nb(1) by simp
  qed
  have high: "(of_int n :: rat) < 2 powi (s + 1) * of_int d"
  proof -
    have "(of_int n :: rat) < 2 powi bn" by (rule nb(2))
    also have "\<dots> = 2 powi (s + 1) * 2 powi (bd - 1)"
      by (simp add: s_def power_int_add [symmetric])
    also have "\<dots> \<le> 2 powi (s + 1) * of_int d"
      using db(1) by (intro mult_left_mono) simp_all
    finally show ?thesis .
  qed
  have "2 powi E \<le> x"
    using low dpos unfolding e x by (auto simp: pos_le_divide_eq mult.commute)
  then show "2 powi binary_exponent x \<le> x" by (simp only: E_def)
  have "x < 2 powi (E + 1)"
    using high dpos unfolding e x by (auto simp: pos_divide_less_eq mult.commute not_le)
  then show "x < 2 powi (binary_exponent x + 1)" by (simp only: E_def)
qed


lemma to_double_positive:
  assumes "0 < x"
  shows "to_double x = of_int (round_half_even (x / 2 powi (binary_exponent x - 52))) * 2 powi
      (binary_exponent x - 52)"
  using assms by (simp add: to_double_def Let_def)

lemma power_int_nat_diff:
  assumes "e \<le> j"
  shows "(2::rat) powi j = of_int (2 ^ nat (j - e)) * 2 powi e"
proof -
  have "(2::rat) powi j = 2 powi (j - e) * 2 powi e"
    by (simp add: power_int_add [symmetric])
  also have "(2::rat) powi (j - e) = of_int (2 ^ nat (j - e))"
    using assms by (simp add: power_int_def)
  finally show ?thesis .
qed

lemma dyadic_below_binade:
  assumes "0 < k" "k < 2 ^ 53" "j < E - 52"
  shows "of_int k * (2::rat) powi j < 2 powi E"
proof -
  have "of_int k * (2::rat) powi j < 2 ^ 53 * 2 powi j"
    using assms(2) by (intro mult_strict_right_mono) (simp_all add: of_int_less_numeral_power_cancel_iff)
  also have "\<dots> = 2 powi (53 + j)"
    by (simp add: power_int_add)
  also have "\<dots> \<le> 2 powi E"
    using assms(3) by (intro power_int_increasing) simp_all
  finally show ?thesis .
qed

lemma to_double_lower:
  assumes "0 < x" "0 < k" "k < 2 ^ 53" "of_int k * 2 powi j \<le> x"
  shows "of_int k * 2 powi j \<le> to_double x"
proof -
  define E where "E = binary_exponent x"
  define q :: rat where "q = 2 powi (E - 52)"
  have q: "0 < q" by (simp add: q_def)
  have td: "to_double x = of_int (round_half_even (x / q)) * q"
    using to_double_positive [OF assms(1)] by (simp add: E_def q_def)
  have low: "2 powi E \<le> x" using binary_exponent_bounds(1) [OF assms(1)] by (simp add: E_def)
  show ?thesis
  proof (cases "E - 52 \<le> j")
    case True
    define z where "z = k * 2 ^ nat (j - (E - 52))"
    have D: "of_int k * 2 powi j = of_int z * q"
      using power_int_nat_diff [OF True] by (simp add: z_def q_def)
    have "of_int z \<le> x / q" using assms(4) q unfolding D by (simp add: pos_le_divide_eq)
    then have "z \<le> round_half_even (x / q)" by (rule round_half_even_lower)
    then have "(of_int z :: rat) \<le> of_int (round_half_even (x / q))" by (simp only: of_int_le_iff)
    then show ?thesis unfolding D td using q by (simp add: mult_right_mono)
  next
    case False
    then have "of_int k * (2::rat) powi j < 2 powi E"
      using dyadic_below_binade [OF assms(2,3), of j E] by simp
    moreover have "2 powi E \<le> to_double x"
    proof -
      have "(2::rat) powi E = of_int (2 ^ 52) * q"
        using power_int_nat_diff [of "E - 52" E] by (simp add: q_def)
      then have "of_int (2 ^ 52) \<le> x / q" using low q by (simp add: pos_le_divide_eq)
      then have "2 ^ 52 \<le> round_half_even (x / q)" by (rule round_half_even_lower)
      then have "(of_int (2 ^ 52) :: rat) \<le> of_int (round_half_even (x / q))" by (simp only:
          of_int_le_iff)
      then have "of_int (2 ^ 52) * q \<le> of_int (round_half_even (x / q)) * q"
        using q by (simp add: mult_right_mono)
      then show ?thesis unfolding td using \<open>(2::rat) powi E = of_int (2 ^ 52) * q\<close> by simp
    qed
    ultimately show ?thesis by simp
  qed
qed

lemma to_double_upper:
  assumes "0 < x" "0 < k" "k < 2 ^ 53" "x \<le> of_int k * 2 powi j"
  shows "to_double x \<le> of_int k * 2 powi j"
proof -
  define E where "E = binary_exponent x"
  define q :: rat where "q = 2 powi (E - 52)"
  have q: "0 < q" by (simp add: q_def)
  have td: "to_double x = of_int (round_half_even (x / q)) * q"
    using to_double_positive [OF assms(1)] by (simp add: E_def q_def)
  have low: "2 powi E \<le> x" using binary_exponent_bounds(1) [OF assms(1)] by (simp add: E_def)
  show ?thesis
  proof (cases "E - 52 \<le> j")
    case True
    define z where "z = k * 2 ^ nat (j - (E - 52))"
    have D: "of_int k * 2 powi j = of_int z * q"
      using power_int_nat_diff [OF True] by (simp add: z_def q_def)
    have "x / q \<le> of_int z" using assms(4) q unfolding D by (simp add: pos_divide_le_eq)
    then have "round_half_even (x / q) \<le> z" by (rule round_half_even_upper)
    then have "(of_int (round_half_even (x / q)) :: rat) \<le> of_int z" by (simp only: of_int_le_iff)
    then show ?thesis unfolding D td using q by (simp add: mult_right_mono)
  next
    case False
    then have "of_int k * (2::rat) powi j < 2 powi E"
      using dyadic_below_binade [OF assms(2,3), of j E] by simp
    then show ?thesis using low assms(4) by simp
  qed
qed

lemma to_double_exact:
  assumes "0 < k" "k < 2 ^ 53"
  shows "to_double (of_int k * 2 powi j) = of_int k * 2 powi j"
proof -
  have pos: "(0::rat) < of_int k * 2 powi j" using assms(1) by simp
  show ?thesis
    using to_double_lower [OF pos assms, of j] to_double_upper [OF pos assms, of j] by simp
qed

lemma to_double_nonpositive:
  assumes "x \<le> 0"
  shows "to_double x \<le> 0"
proof (cases "x = 0")
  case True
  then show ?thesis by (simp add: to_double_def)
next
  case False
  define q :: rat where "q = 2 powi (binary_exponent \<bar>x\<bar> - 52)"
  have q: "0 < q" by (simp add: q_def)
  have "of_int 0 \<le> \<bar>x\<bar> / q" using q by simp
  then have "0 \<le> round_half_even (\<bar>x\<bar> / q)" by (rule round_half_even_lower)
  then have "(0::rat) \<le> of_int (round_half_even (\<bar>x\<bar> / q)) * q" using q by simp
  moreover have "to_double x = - (of_int (round_half_even (\<bar>x\<bar> / q)) * q)"
    using False assms by (simp add: to_double_def Let_def q_def sgn_if)
  ultimately show ?thesis by simp
qed

lemma to_double_of_int:
  assumes "0 < n" "n < 2 ^ 53"
  shows "to_double (of_int n) = of_int n"
  using to_double_exact [OF assms, of 0] by simp

lemma window_below_2_29:
  assumes "0 < k" "k < 2 ^ 24" "e \<le> 5"
  shows "of_int k * (2::rat) powi e < 2 ^ 29"
proof -
  have "of_int k * (2::rat) powi e < 2 ^ 24 * 2 powi e"
    using assms(2) by (intro mult_strict_right_mono) (simp_all add: of_int_less_numeral_power_cancel_iff)
  also have "\<dots> \<le> 2 ^ 24 * 2 powi 5"
    using assms(3) by (intro mult_left_mono power_int_increasing) simp_all
  finally show ?thesis by simp
qed

lemma next_tick_gap:
  assumes k: "0 < k" and e: "e \<le> 5" and less: "of_int k * (2::rat) powi e < of_int n / 10000000"
  shows "of_int k * (2::rat) powi e * 10000000 + 2 powi (e - 5) \<le> of_int n"
proof (cases "0 \<le> e")
  case True
  define a where "a = k * 2 ^ nat e * 10000000"
  have a: "of_int k * (2::rat) powi e * 10000000 = of_int a"
    using True by (simp add: a_def power_int_def)
  have "(of_int a :: rat) < of_int n" using less unfolding a [symmetric] by (simp add: pos_less_divide_eq)
  then have "a < n" by (simp only: of_int_less_iff)
  then have "a + 1 \<le> n" by simp
  then have "(of_int (a + 1) :: rat) \<le> of_int n" by (simp only: of_int_le_iff)
  moreover have "(2::rat) powi (e - 5) \<le> 1"
  proof -
    have "(2::rat) powi (e - 5) \<le> 2 powi 0" using e by (intro power_int_increasing) simp_all
    then show ?thesis by simp
  qed
  ultimately show ?thesis unfolding a by simp
next
  case False
  define p where "p = (2::int) ^ nat (- e)"
  have p: "(2::rat) powi e = 1 / of_int p"
    using False by (simp add: p_def power_int_def field_simps)
  have ppos: "(0::rat) < of_int p" by (simp add: p_def)
  have "of_int k * (10000000::rat) < of_int n * of_int p"
    using less ppos unfolding p by (simp add: field_simps)
  then have "(of_int (k * 10000000) :: rat) < of_int (n * p)" by simp
  then have "k * 10000000 < n * p" by (simp only: of_int_less_iff)
  then have "k * 10000000 + 1 \<le> n * p" by simp
  then have "(of_int (k * 10000000 + 1) :: rat) \<le> of_int (n * p)" by (simp only: of_int_le_iff)
  then have "of_int k * (10000000::rat) + 1 \<le> of_int n * of_int p" by simp
  then have "(of_int k * (10000000::rat) + 1) / of_int p \<le> of_int n"
    using ppos by (simp add: pos_divide_le_eq)
  then have "of_int k * (2::rat) powi e * 10000000 + 2 powi e \<le> of_int n"
    unfolding p by (simp add: add_divide_distrib add.commute)
  moreover have "(2::rat) powi (e - 5) \<le> 2 powi e" by (intro power_int_increasing) simp_all
  ultimately show ?thesis by simp
qed

lemma next_tick_clears_window:
  assumes k: "0 < k" and e: "e \<le> 5" and less: "of_int k * (2::rat) powi e < of_int n / 10000000"
  shows "of_int (k * 2 ^ 29 + 1) * (2::rat) powi (e - 29) \<le> of_int n / 10000000"
proof -
  have split: "of_int (k * 2 ^ 29 + 1) * (2::rat) powi (e - 29) = of_int k * 2 powi e + 2 powi (e - 29)"
    by (simp add: algebra_simps power_int_diff)
  have step: "of_int k * (2::rat) powi e * 10000000 + 2 powi (e - 5) \<le> of_int n"
    using k e less by (rule next_tick_gap)
  have "(2::rat) powi (e - 29) * 10000000 \<le> 2 powi (e - 29) * 2 ^ 24"
    by (intro mult_left_mono) simp_all
  also have "\<dots> = 2 powi (e - 5)"
    by (simp add: power_int_diff)
  finally have "(of_int k * (2::rat) powi e + 2 powi (e - 29)) * 10000000 \<le> of_int n"
    using step by (simp add: algebra_simps)
  then show ?thesis unfolding split by (simp add: pos_le_divide_eq)
qed

lemma TotalSeconds_exceeds_window:
  assumes k: "0 < k" "k < 2 ^ 24" and e: "e \<le> 5"
  shows "of_int k * 2 powi e < TotalSeconds n \<longleftrightarrow> of_int k * (2::rat) powi e < of_int n /
      10000000"
proof -
  let ?w = "of_int k * (2::rat) powi e"
  have wpos: "0 < ?w" using k(1) by simp
  have k53: "k < 2 ^ 53" using k(2) by simp
  consider (neg) "n \<le> 0" | (mid) "0 < n" "n < 2 ^ 53" | (big) "2 ^ 53 \<le> n" by linarith
  then show ?thesis
  proof cases
    case neg
    then have "to_double (of_int n) \<le> 0" by (intro to_double_nonpositive) simp
    then have "to_double (of_int n) / 10000000 \<le> 0" by simp
    then have "TotalSeconds n \<le> 0" unfolding TotalSeconds_def by (rule to_double_nonpositive)
    moreover have "(of_int n :: rat) / 10000000 \<le> 0" using neg by simp
    ultimately show ?thesis using wpos by simp
  next
    case mid
    let ?x = "(of_int n :: rat) / 10000000"
    have xpos: "0 < ?x" using mid(1) by simp
    have ts: "TotalSeconds n = to_double ?x"
      by (simp add: TotalSeconds_def to_double_of_int [OF mid])
    show ?thesis
    proof
      assume "?w < TotalSeconds n"
      show "?w < ?x"
      proof (rule ccontr)
        assume "\<not> ?w < ?x"
        then have "?x \<le> ?w" by simp
        from to_double_upper [OF xpos k(1) k53 this] \<open>?w < TotalSeconds n\<close> show False
          unfolding ts by simp
      qed
    next
      assume less: "?w < ?x"
      have k2: "0 < k * 2 ^ 29 + 1" "k * 2 ^ 29 + 1 < 2 ^ 53" using k by simp_all
      have "of_int (k * 2 ^ 29 + 1) * (2::rat) powi (e - 29) \<le> TotalSeconds n"
        unfolding ts using next_tick_clears_window [OF k(1) e less]
        by (rule to_double_lower [OF xpos k2])
      moreover have "?w < of_int (k * 2 ^ 29 + 1) * (2::rat) powi (e - 29)"
        by (simp add: algebra_simps power_int_diff)
      ultimately show "?w < TotalSeconds n" by simp
    qed
  next
    case big
    have npos: "(0::rat) < of_int n" using big by simp
    have "(of_int (2 ^ 52) :: rat) * 2 powi 1 \<le> of_int n"
    proof -
      have "(of_int (2 ^ 53) :: rat) \<le> of_int n" using big by (simp only: of_int_le_iff)
      then show ?thesis by simp
    qed
    then have d1: "of_int (2 ^ 52) * 2 powi 1 \<le> to_double (of_int n)"
      by (intro to_double_lower [OF npos]) simp_all
    let ?y = "to_double (of_int n) / 10000000"
    have y: "(2::rat) ^ 29 \<le> ?y" using d1 by simp
    then have ypos: "0 < ?y" by (rule less_le_trans [rotated]) simp
    have "of_int 1 * (2::rat) powi 29 \<le> ?y" using y by simp
    then have "of_int 1 * (2::rat) powi 29 \<le> to_double ?y"
      by (intro to_double_lower [OF ypos]) simp_all
    then have "(2::rat) ^ 29 \<le> TotalSeconds n" by (simp add: TotalSeconds_def)
    moreover have "(2::rat) ^ 29 \<le> of_int n / 10000000"
    proof -
      have "(of_int (2 ^ 53) :: rat) \<le> of_int n" using big by (simp only: of_int_le_iff)
      then show ?thesis by simp
    qed
    ultimately show ?thesis using window_below_2_29 [OF k e] by simp
  qed
qed


lemma round_half_even_above_half:
  assumes "of_int z + 1 / 2 < y"
  shows "z + 1 \<le> round_half_even y"
proof -
  have "of_int z \<le> y" using assms by simp
  then have fl: "z \<le> \<lfloor>y\<rfloor>" by (simp add: le_floor_iff)
  show ?thesis
  proof (cases "z = \<lfloor>y\<rfloor>")
    case True
    then have "1 / 2 < y - of_int \<lfloor>y\<rfloor>" using assms by simp
    then have "round_half_even y = \<lfloor>y\<rfloor> + 1"
      by (simp add: round_half_even_def Let_def)
    then show ?thesis using True by simp
  next
    case False
    then have "z + 1 \<le> \<lfloor>y\<rfloor>" using fl by simp
    then show ?thesis using round_half_even_ge_floor [of y] by linarith
  qed
qed

lemma binary_exponent_unique:
  assumes "0 < x" "2 powi E \<le> x" "x < 2 powi (E + 1)"
  shows "binary_exponent x = E"
proof -
  define B where "B = binary_exponent x"
  have b: "2 powi B \<le> x" "x < 2 powi (B + 1)"
    using binary_exponent_bounds [OF assms(1)] by (simp_all add: B_def)
  have "B < E + 1"
  proof (rule ccontr)
    assume "\<not> B < E + 1"
    then have "(2::rat) powi (E + 1) \<le> 2 powi B" by (intro power_int_increasing) simp_all
    then show False using b(1) assms(3) by simp
  qed
  moreover have "E < B + 1"
  proof (rule ccontr)
    assume "\<not> E < B + 1"
    then have "(2::rat) powi (B + 1) \<le> 2 powi E" by (intro power_int_increasing) simp_all
    then show False using b(2) assms(2) by simp
  qed
  ultimately show ?thesis by (simp add: B_def)
qed

lemma TotalSeconds_exceeds_wide_window:
  assumes k: "0 < k" "k < 2 ^ 24" and e: "6 \<le> e"
    and small: "of_int k * (2::rat) powi e * 10000000 < 2 ^ 53"
  shows "of_int k * 2 powi e < TotalSeconds n \<longleftrightarrow> of_int k * (2::rat) powi e < of_int n /
      10000000"
proof -
  define w0 where "w0 = k * 2 ^ nat e"
  define c where "c = k * 2 ^ nat (e - 6) * 78125"
  define Z where "Z = w0 * 2 ^ 23"
  let ?w = "of_int k * (2::rat) powi e"
  have w: "?w = of_int w0" using e by (simp add: w0_def power_int_def)
  have w0pos: "0 < w0" using k(1) by (simp add: w0_def)
  have wpos: "0 < ?w" using k(1) by simp
  have k53: "k < 2 ^ 53" using k(2) by simp
  have "(2::int) ^ nat e = 2 ^ (6 + nat (e - 6))" using e by (simp add: nat_diff_distrib)
  then have w0c: "w0 * 10000000 = 8192 * c"
    by (simp add: w0_def c_def power_add)
  have "(of_int (w0 * 10000000) :: rat) < of_int (2 ^ 53)" using small unfolding w by simp
  then have small0: "w0 * 10000000 < 2 ^ 53" by (simp only: of_int_less_iff)
  then have "c < 2 ^ 40" unfolding w0c by simp
  then have room: "w0 * 10000000 + 8192 \<le> 2 ^ 53" unfolding w0c by simp
  have w030: "w0 < 2 ^ 30" using small0 by simp
  have Z1: "0 < Z + 1" "Z + 1 < 2 ^ 53" using w0pos w030 by (simp_all add: Z_def)
  have next_double: "of_int (Z + 1) * (2::rat) powi (- 23) = ?w + 2 powi (- 23)"
    unfolding w by (simp add: Z_def power_int_minus field_simps)
  have above: "?w < of_int (Z + 1) * (2::rat) powi (- 23)"
    unfolding next_double by simp
  have next_fits: "of_int (Z + 1) * (2::rat) powi (- 23) \<le> 2 ^ 53 / 10000000"
  proof -
    have "(of_int (w0 * 10000000 + 8192) :: rat) \<le> of_int (2 ^ 53)"
      using room by (simp only: of_int_le_iff)
    then have "?w * 10000000 + 8192 \<le> 2 ^ 53" unfolding w by simp
    moreover have "(2::rat) powi (- 23) * 10000000 \<le> 8192" by (simp add: power_int_minus)
    ultimately have "(?w + 2 powi (- 23)) * 10000000 \<le> 2 ^ 53" by (simp add: algebra_simps)
    then show ?thesis unfolding next_double by (simp add: pos_le_divide_eq)
  qed
  consider (neg) "n \<le> 0" | (mid) "0 < n" "n < 2 ^ 53" | (big) "2 ^ 53 \<le> n" by linarith
  then show ?thesis
  proof cases
    case neg
    then have "to_double (of_int n) \<le> 0" by (intro to_double_nonpositive) simp
    then have "to_double (of_int n) / 10000000 \<le> 0" by simp
    then have "TotalSeconds n \<le> 0" unfolding TotalSeconds_def by (rule to_double_nonpositive)
    moreover have "(of_int n :: rat) / 10000000 \<le> 0" using neg by simp
    ultimately show ?thesis using wpos by simp
  next
    case mid
    let ?x = "(of_int n :: rat) / 10000000"
    have xpos: "0 < ?x" using mid(1) by simp
    have ts: "TotalSeconds n = to_double ?x"
      by (simp add: TotalSeconds_def to_double_of_int [OF mid])
    show ?thesis
    proof
      assume "?w < TotalSeconds n"
      show "?w < ?x"
      proof (rule ccontr)
        assume "\<not> ?w < ?x"
        then have "?x \<le> ?w" by simp
        from to_double_upper [OF xpos k(1) k53 this] \<open>?w < TotalSeconds n\<close> show False
          unfolding ts by simp
      qed
    next
      assume less: "?w < ?x"
      have "(of_int (w0 * 10000000) :: rat) < of_int n"
        using less unfolding w by (simp add: pos_less_divide_eq)
      then have "w0 * 10000000 < n" by (simp only: of_int_less_iff)
      then have "w0 * 10000000 + 1 \<le> n" by simp
      then have "(of_int (w0 * 10000000 + 1) :: rat) \<le> of_int n" by (simp only: of_int_le_iff)
      then have tick: "?w + 1 / 10000000 \<le> ?x"
        unfolding w by (simp add: field_simps)
      show "?w < TotalSeconds n"
      proof (cases "w0 < 2 ^ 29")
        case True
        have fine: "0 < w0 * 2 ^ 24 + 1" "w0 * 2 ^ 24 + 1 < 2 ^ 53" using w0pos True by simp_all
        have eq: "of_int (w0 * 2 ^ 24 + 1) * (2::rat) powi (- 24) = ?w + 2 powi (- 24)"
          unfolding w by (simp add: power_int_minus field_simps)
        have "(2::rat) powi (- 24) \<le> 1 / 10000000" by (simp add: power_int_minus)
        then have "of_int (w0 * 2 ^ 24 + 1) * (2::rat) powi (- 24) \<le> ?x"
          unfolding eq using tick by simp
        then have "of_int (w0 * 2 ^ 24 + 1) * (2::rat) powi (- 24) \<le> TotalSeconds n"
          unfolding ts by (rule to_double_lower [OF xpos fine])
        moreover have "?w < of_int (w0 * 2 ^ 24 + 1) * (2::rat) powi (- 24)"
          unfolding eq by simp
        ultimately show ?thesis by simp
      next
        case False
        then have "2 ^ 29 \<le> w0" by simp
        then have "(of_int (2 ^ 29) :: rat) \<le> of_int w0" by (simp only: of_int_le_iff)
        then have lo: "(2::rat) powi 29 \<le> ?x" using less unfolding w by simp
        have "(of_int n :: rat) < of_int (2 ^ 53)" using mid(2) by (simp only: of_int_less_iff)
        then have hi: "?x < 2 powi (29 + 1)" by simp
        have E: "binary_exponent ?x = 29" using xpos lo hi by (rule binary_exponent_unique)
        have td: "to_double ?x = of_int (round_half_even (?x / 2 powi (- 23))) * 2 powi (- 23)"
          using to_double_positive [OF xpos] by (simp add: E)
        have "(?w + 1 / 10000000) / 2 powi (- 23) \<le> ?x / 2 powi (- 23)"
          using tick by (simp add: divide_right_mono)
        moreover have "of_int Z + 1 / 2 < (?w + 1 / 10000000) / 2 powi (- 23)"
          unfolding w by (simp add: Z_def power_int_minus field_simps)
        ultimately have "of_int Z + 1 / 2 < ?x / 2 powi (- 23)" by simp
        then have "Z + 1 \<le> round_half_even (?x / 2 powi (- 23))" by (rule round_half_even_above_half)
        then have "(of_int (Z + 1) :: rat) \<le> of_int (round_half_even (?x / 2 powi (- 23)))"
          by (simp only: of_int_le_iff)
        then have "of_int (Z + 1) * (2::rat) powi (- 23) \<le> to_double ?x"
          unfolding td by (intro mult_right_mono) simp_all
        then show ?thesis using above unfolding ts by simp
      qed
    qed
  next
    case big
    have npos: "(0::rat) < of_int n" using big by simp
    have n53: "(of_int (2 ^ 53) :: rat) \<le> of_int n" using big by (simp only: of_int_le_iff)
    then have "(of_int (2 ^ 52) :: rat) * 2 powi 1 \<le> of_int n" by simp
    then have d1: "of_int (2 ^ 52) * 2 powi 1 \<le> to_double (of_int n)"
      by (intro to_double_lower [OF npos]) simp_all
    let ?y = "to_double (of_int n) / 10000000"
    have y: "(2::rat) ^ 53 / 10000000 \<le> ?y" using d1 by (simp add: divide_right_mono)
    then have ypos: "0 < ?y" by (rule less_le_trans [rotated]) simp
    have "of_int (Z + 1) * (2::rat) powi (- 23) \<le> ?y" using next_fits y by (rule order_trans)
    then have "of_int (Z + 1) * (2::rat) powi (- 23) \<le> to_double ?y"
      by (rule to_double_lower [OF ypos Z1])
    then have "?w < TotalSeconds n" using above by (simp add: TotalSeconds_def)
    moreover have "?w < of_int n / 10000000"
    proof -
      have "?w < 2 ^ 53 / 10000000" using small by (simp add: pos_less_divide_eq)
      also have "\<dots> \<le> of_int n / 10000000" using n53 by (simp add: divide_right_mono)
      finally show ?thesis .
    qed
    ultimately show ?thesis by simp
  qed
qed

lemma TotalSeconds_exceeds_any_window:
  assumes "0 < k" "k < 2 ^ 24" and "of_int k * (2::rat) powi e * 10000000 < 2 ^ 53"
  shows "of_int k * 2 powi e < TotalSeconds n \<longleftrightarrow> of_int k * (2::rat) powi e < of_int n /
      10000000"
proof (cases "e \<le> 5")
  case True
  show ?thesis by (rule TotalSeconds_exceeds_window [OF assms(1,2) True])
next
  case False
  then have "6 \<le> e" by simp
  then show ?thesis by (rule TotalSeconds_exceeds_wide_window [OF assms(1,2) _ assms(3)])
qed

lemma SecondsPerTick_value: "SecondsPerTick = 944473296573929 / 9444732965739290427392"
  unfolding SecondsPerTick_def by code_simp

lemma TotalSeconds_product_exceeds_window:
  assumes k: "0 < k" "k < 2 ^ 24" and e: "e \<le> 5"
  shows "of_int k * 2 powi e < TotalSeconds_product n
           \<longleftrightarrow> of_int k * (2::rat) powi e < of_int n / 10000000"
proof -
  let ?w = "of_int k * (2::rat) powi e"
  let ?c = "SecondsPerTick"
  define t :: rat where "t = 2 powi e"
  have t: "0 < t" by (simp add: t_def)
  have wt: "?w = of_int k * t" by (simp add: t_def)
  have wpos: "0 < ?w" using k(1) by simp
  have k53: "k < 2 ^ 53" using k(2) by simp
  have cpos: "0 < ?c" by (simp add: SecondsPerTick_value)
  have cle: "?c * 10000000 \<le> 1" by (simp add: SecondsPerTick_value)
  have margin: "(2::rat) ^ 24 * (1 - ?c * 10000000) \<le> ?c / 32 - 1 / 2 ^ 29"
    by (simp add: SecondsPerTick_value)
  have wide: "(2::rat) ^ 29 \<le> 2 ^ 53 * ?c" by (simp add: SecondsPerTick_value)
  consider (neg) "n \<le> 0" | (mid) "0 < n" "n < 2 ^ 53" | (big) "2 ^ 53 \<le> n" by linarith
  then show ?thesis
  proof cases
    case neg
    then have "to_double (of_int n) \<le> 0" by (intro to_double_nonpositive) simp
    then have "to_double (of_int n) * ?c \<le> 0" using cpos by (simp add: mult_le_0_iff)
    then have "TotalSeconds_product n \<le> 0" unfolding TotalSeconds_product_def by (rule
        to_double_nonpositive)
    moreover have "(of_int n :: rat) / 10000000 \<le> 0" using neg by simp
    ultimately show ?thesis using wpos by simp
  next
    case mid
    let ?x = "(of_int n :: rat) / 10000000"
    let ?p = "(of_int n :: rat) * ?c"
    have ppos: "0 < ?p" using mid(1) cpos by simp
    have ts: "TotalSeconds_product n = to_double ?p"
      by (simp add: TotalSeconds_product_def to_double_of_int [OF mid])
    have below: "?p \<le> ?x"
    proof -
      have "?p * 10000000 = of_int n * (?c * 10000000)" by simp
      also have "\<dots> \<le> of_int n * 1" using cle mid(1) by (intro mult_left_mono) simp_all
      finally show ?thesis by (simp add: pos_le_divide_eq)
    qed
    show ?thesis
    proof
      assume "?w < TotalSeconds_product n"
      show "?w < ?x"
      proof (rule ccontr)
        assume "\<not> ?w < ?x"
        then have "?p \<le> ?w" using below by simp
        from to_double_upper [OF ppos k(1) k53 this] \<open>?w < TotalSeconds_product n\<close> show False
          unfolding ts by simp
      qed
    next
      assume less: "?w < ?x"
      have gap: "?w * 10000000 + t / 32 \<le> of_int n"
        using next_tick_gap [OF k(1) e less] by (simp add: t_def power_int_diff)
      have k2: "0 < k * 2 ^ 29 + 1" "k * 2 ^ 29 + 1 < 2 ^ 53" using k by simp_all
      have next_is: "of_int (k * 2 ^ 29 + 1) * (2::rat) powi (e - 29) = ?w + t / 2 ^ 29"
        by (simp add: algebra_simps power_int_diff t_def)
      have "of_int k \<le> (2::rat) ^ 24"
      proof -
        have "k \<le> 2 ^ 24" using k(2) by simp
        then have "(of_int k :: rat) \<le> of_int (2 ^ 24)" by (simp only: of_int_le_iff)
        then show ?thesis by simp
      qed
      then have "?w \<le> 2 ^ 24 * t" unfolding wt using t by (simp add: mult_right_mono)
      then have "?w * (1 - ?c * 10000000) \<le> 2 ^ 24 * t * (1 - ?c * 10000000)"
        using cle by (intro mult_right_mono) simp_all
      also have "\<dots> = t * (2 ^ 24 * (1 - ?c * 10000000))" by simp
      also have "\<dots> \<le> t * (?c / 32 - 1 / 2 ^ 29)"
        using margin t by (intro mult_left_mono) simp_all
      finally have "?w + t / 2 ^ 29 \<le> (?w * 10000000 + t / 32) * ?c"
        by (simp add: algebra_simps)
      also have "\<dots> \<le> ?p" using gap cpos by (intro mult_right_mono) simp_all
      finally have "of_int (k * 2 ^ 29 + 1) * (2::rat) powi (e - 29) \<le> ?p"
        unfolding next_is .
      then have "of_int (k * 2 ^ 29 + 1) * (2::rat) powi (e - 29) \<le> TotalSeconds_product n"
        unfolding ts by (rule to_double_lower [OF ppos k2])
      moreover have "?w < of_int (k * 2 ^ 29 + 1) * (2::rat) powi (e - 29)"
        unfolding next_is using t by simp
      ultimately show "?w < TotalSeconds_product n" by simp
    qed
  next
    case big
    have npos: "(0::rat) < of_int n" using big by simp
    have n53: "(of_int (2 ^ 53) :: rat) \<le> of_int n" using big by (simp only: of_int_le_iff)
    then have "(of_int (2 ^ 52) :: rat) * 2 powi 1 \<le> of_int n" by simp
    then have d1: "of_int (2 ^ 52) * 2 powi 1 \<le> to_double (of_int n)"
      by (intro to_double_lower [OF npos]) simp_all
    let ?y = "to_double (of_int n) * ?c"
    have "(2::rat) ^ 53 \<le> to_double (of_int n)" using d1 by simp
    then have "(2::rat) ^ 53 * ?c \<le> ?y" using cpos by (intro mult_right_mono) simp_all
    with wide have y: "(2::rat) ^ 29 \<le> ?y" by (rule order_trans)
    then have ypos: "0 < ?y" by (rule less_le_trans [rotated]) simp
    have "of_int 1 * (2::rat) powi 29 \<le> ?y" using y by simp
    then have "of_int 1 * (2::rat) powi 29 \<le> to_double ?y"
      by (intro to_double_lower [OF ypos]) simp_all
    then have "(2::rat) ^ 29 \<le> TotalSeconds_product n" by (simp add: TotalSeconds_product_def)
    moreover have "(2::rat) ^ 29 \<le> of_int n / 10000000"
      using n53 by simp
    ultimately show ?thesis using window_below_2_29 [OF k e] by simp
  qed
qed

lemma of_rat_dyadic: "real_of_rat (of_int k * 2 powi e) = real_of_int k * 2 powi e"
proof -
  have "real_of_rat (2 powi e) = 2 powi e"
    by (simp add: power_int_def of_rat_power of_rat_inverse of_rat_divide)
  then show ?thesis by (simp add: of_rat_mult)
qed

lemma window_exceeded_iff:
  assumes "W = real_of_int k * 2 powi e" "0 < k" "k < 2 ^ 24" "W * 10000000 < 2 ^ 53"
  shows "W < real_of_rat (TotalSeconds n) \<longleftrightarrow> W < real_of_int n / 10000000"
proof -
  let ?w = "of_int k * (2::rat) powi e"
  have W: "W = real_of_rat ?w" using assms(1) by (simp only: of_rat_dyadic)
  have "real_of_rat (?w * 10000000) < real_of_rat (2 ^ 53)"
    using assms(4) unfolding W by (simp add: of_rat_mult of_rat_power)
  then have small: "?w * 10000000 < 2 ^ 53" by (simp only: of_rat_less)
  have "W < real_of_rat (TotalSeconds n) \<longleftrightarrow> ?w < TotalSeconds n"
    unfolding W by (rule of_rat_less)
  also have "\<dots> \<longleftrightarrow> ?w < of_int n / 10000000"
    by (rule TotalSeconds_exceeds_any_window [OF assms(2,3) small])
  also have "\<dots> \<longleftrightarrow> real_of_rat ?w < real_of_rat (of_int n / 10000000)"
    by (rule of_rat_less [symmetric])
  also have "real_of_rat (of_int n / 10000000) = real_of_int n / 10000000"
    by (simp add: of_rat_divide)
  finally show ?thesis unfolding W .
qed

lemma window_exceeded_product_iff:
  assumes "W = real_of_int k * 2 powi e" "0 < k" "k < 2 ^ 24" "e \<le> 5"
  shows "W < real_of_rat (TotalSeconds_product n) \<longleftrightarrow> W < real_of_int n / 10000000"
proof -
  let ?w = "of_int k * (2::rat) powi e"
  have W: "W = real_of_rat ?w" using assms(1) by (simp only: of_rat_dyadic)
  have "W < real_of_rat (TotalSeconds_product n) \<longleftrightarrow> ?w < TotalSeconds_product n"
    unfolding W by (rule of_rat_less)
  also have "\<dots> \<longleftrightarrow> ?w < of_int n / 10000000"
    by (rule TotalSeconds_product_exceeds_window [OF assms(2-4)])
  also have "\<dots> \<longleftrightarrow> real_of_rat ?w < real_of_rat (of_int n / 10000000)"
    by (rule of_rat_less [symmetric])
  also have "real_of_rat (of_int n / 10000000) = real_of_int n / 10000000"
    by (simp add: of_rat_divide)
  finally show ?thesis unfolding W .
qed

lemma IsStale_disabled: "W \<le> 0 \<Longrightarrow> IsStale W utcNow m = Inr False"
  by (simp add: IsStale_def IsStale_with_def)

lemma IsStale_with_exact:
  assumes agree: "\<And>n. W < real_of_rat (TimeSpan_TotalSeconds n) \<longleftrightarrow> W < real_of_int n /
      10000000"
    and "0 < W" "0 < timestamp m" "timestamp m \<le> 253402300799999"
  shows "IsStale_with TimeSpan_TotalSeconds W utcNow m = Inr (spec_age_seconds utcNow (timestamp m) > W)"
proof (cases "timestamp m > 9999999999")
  case True
  have "IsStale_with TimeSpan_TotalSeconds W utcNow m
          = Inr (W < real_of_rat (TimeSpan_TotalSeconds (utcNow - timestamp m * 10000)))"
    using assms(2-4) True by (simp add: IsStale_with_def FromUnixTimeMilliseconds_def Let_def)
  also have "\<dots> = Inr (W < real_of_int (utcNow - timestamp m * 10000) / 10000000)"
    by (simp only: agree)
  also have "real_of_int (utcNow - timestamp m * 10000) / 10000000 = spec_age_seconds utcNow (timestamp m)"
    using True by (simp add: spec_age_seconds_def field_simps)
  finally show ?thesis by simp
next
  case False
  have "IsStale_with TimeSpan_TotalSeconds W utcNow m
          = Inr (W < real_of_rat (TimeSpan_TotalSeconds (utcNow - timestamp m * 10000000)))"
    using assms(2,3) False by (simp add: IsStale_with_def FromUnixTimeSeconds_def Let_def)
  also have "\<dots> = Inr (W < real_of_int (utcNow - timestamp m * 10000000) / 10000000)"
    by (simp only: agree)
  also have "real_of_int (utcNow - timestamp m * 10000000) / 10000000 = spec_age_seconds utcNow (timestamp m)"
    using False by (simp add: spec_age_seconds_def field_simps)
  finally show ?thesis by simp
qed

lemma IsStale_exact:
  assumes "W = real_of_int k * 2 powi e" "0 < k" "k < 2 ^ 24" "W * 10000000 < 2 ^ 53"
    and "0 < timestamp m" "timestamp m \<le> 253402300799999"
  shows "IsStale W utcNow m = Inr (spec_age_seconds utcNow (timestamp m) > W)"
proof -
  have W: "0 < W" using assms(1,2) by simp
  show ?thesis
    unfolding IsStale_def
    using window_exceeded_iff [OF assms(1-4)] W assms(5,6) by (rule IsStale_with_exact)
qed

lemma IsStale_product_exact:
  assumes "W = real_of_int k * 2 powi e" "0 < k" "k < 2 ^ 24" "e \<le> 5"
    and "0 < timestamp m" "timestamp m \<le> 253402300799999"
  shows "IsStale_with TotalSeconds_product W utcNow m = Inr (spec_age_seconds utcNow (timestamp m) > W)"
proof -
  have W: "0 < W" using assms(1,2) by simp
  show ?thesis
    using window_exceeded_product_iff [OF assms(1-4)] W assms(5,6) by (rule IsStale_with_exact)
qed

lemma IsStale_out_of_range:
  assumes "0 < W" "253402300799999 < timestamp m"
  shows "IsStale_with TimeSpan_TotalSeconds W utcNow m = Inl ArgumentOutOfRangeException"
  using assms
  by (simp add: IsStale_with_def FromUnixTimeMilliseconds_def)

lemma age_out_of_range:
  assumes "utcNow \<le> MaxUtcNowTicks" "253402300799999 < t"
  shows "spec_age_seconds utcNow t < 0"
proof -
  have "real_of_int utcNow \<le> 2534023007999999999"
    using assms(1) unfolding MaxUtcNowTicks_def by linarith
  moreover have "real_of_int t \<ge> 253402300800000"
    using assms(2) by linarith
  ultimately show ?thesis
    using assms(2) by (simp add: spec_age_seconds_def field_simps)
qed

lemma IsStale_5:
  assumes "0 < timestamp m" "timestamp m \<le> 253402300799999"
  shows "IsStale 5 utcNow m = Inr (spec_age_seconds utcNow (timestamp m) > 5)"
  using IsStale_exact [where W = 5 and k = 5 and e = 0, OF _ _ _ _ assms] by simp

text \<open>
  C4 (amended). For an envelope whose timestamp is set (positive, the test the code makes)
  and denotes a date that \<open>DateTimeOffset\<close> represents (up to the year 9999), and a positive
  window \<open>W\<close> that is a \<open>float\<close> (a significand \<open>k\<close> of at most 24 bits and an exponent
  \<open>e\<close>) of less than \<open>2\<^sup>5\<^sup>3\<close> ticks, which is 900,719,925.4740992 seconds: the envelope is
  rejected as stale exactly when its age exceeds \<open>W\<close>, the age being the clock minus the
  timestamp read as milliseconds from 10,000,000,000 on and as seconds below, in exact
  arithmetic; an age equal to \<open>W\<close> is admitted, and so is every smaller age: the receive
  loop hands the envelope on to duplicate suppression. Where the class library computes
  \<open>TotalSeconds\<close> as a product, the same holds for every window below \<open>2\<^sup>2\<^sup>9\<close> seconds (an
  exponent \<open>e\<close> of at most 5). With a window of zero or less no envelope at all is stale.
  A millisecond timestamp beyond the year 9999 makes the date conversion raise: the
  envelope is not called stale, and yet the receive loop drops the datagram, although
  its age is negative.
\<close>

theorem C4_stale_exactly_beyond_window:
  assumes "0 < timestamp m" and "W = real_of_int k * 2 powi e" and "0 < k" and "k < 2 ^ 24"
  shows "(W * 10000000 < 2 ^ 53 \<and> timestamp m \<le> 253402300799999 \<longrightarrow>
            IsStale W utcNow m = Inr (spec_age_seconds utcNow (timestamp m) > W))
       \<and> (e \<le> 5 \<and> timestamp m \<le> 253402300799999 \<longrightarrow>
            IsStale W utcNow m = Inr (spec_age_seconds utcNow (timestamp m) > W)
            \<and> IsStale_with TotalSeconds_product W utcNow m
                  = Inr (spec_age_seconds utcNow (timestamp m) > W))
       \<and> (W * 10000000 < 2 ^ 53 \<and> timestamp m \<le> 253402300799999
              \<and> spec_age_seconds utcNow (timestamp m) = W \<longrightarrow>
            IsStale W utcNow m = Inr False)
       \<and> (253402300799999 < timestamp m \<longrightarrow>
            IsStale W utcNow m = Inl ArgumentOutOfRangeException
            \<and> IsStale_with TotalSeconds_product W utcNow m = Inl ArgumentOutOfRangeException
            \<and> (utcNow \<le> MaxUtcNowTicks \<longrightarrow> spec_age_seconds utcNow (timestamp m) < 0))
       \<and> (W' \<le> 0 \<longrightarrow> IsStale W' utcNow m' = Inr False
                     \<and> IsStale_with TotalSeconds_product W' utcNow m' = Inr False)
       \<and> (fst datagram \<noteq> [] \<and> ParseMessage FromJson (fst datagram) = Inr (Some m)
            \<and> IsAuthorized H (sharedSecret cfg) m
            \<and> staleCommandWindowSeconds cfg = W \<and> staleClock clock = utcNow
            \<and> W * 10000000 < 2 ^ 53 \<longrightarrow>
            (fst (ListenLoop_round H FromJson cfg clock datagram st) = Stale \<longleftrightarrow>
               timestamp m \<le> 253402300799999 \<and> spec_age_seconds utcNow (timestamp m) > W)
            \<and> (timestamp m \<le> 253402300799999 \<and> spec_age_seconds utcNow (timestamp m) \<le> W
                \<longrightarrow>
                 fst (ListenLoop_round H FromJson cfg clock datagram st) = Enqueued
                 \<or> fst (ListenLoop_round H FromJson cfg clock datagram st) = Duplicate)
            \<and> (253402300799999 < timestamp m \<longrightarrow>
                 ListenLoop_round H FromJson cfg clock datagram st
                   = (ReceiveException ArgumentOutOfRangeException, st)))"
proof -
  have W: "0 < W" using assms(2,3) by simp
  have quotient: "IsStale W utcNow m = Inr (spec_age_seconds utcNow (timestamp m) > W)"
    if "W * 10000000 < 2 ^ 53" "timestamp m \<le> 253402300799999"
    using IsStale_exact [OF assms(2-4) that(1) assms(1) that(2)] .
  have narrow: "W * 10000000 < 2 ^ 53" if "e \<le> 5"
  proof -
    have "real_of_rat (of_int k * 2 powi e) < real_of_rat (2 ^ 29)"
      using window_below_2_29 [OF assms(3,4) that] by (simp only: of_rat_less)
    then have "W < 2 ^ 29" unfolding assms(2) by (simp add: of_rat_dyadic of_rat_power)
    then show ?thesis by simp
  qed
  have product: "IsStale_with TotalSeconds_product W utcNow m
                  = Inr (spec_age_seconds utcNow (timestamp m) > W)"
    if "e \<le> 5" "timestamp m \<le> 253402300799999"
    using IsStale_product_exact [OF assms(2-4) that(1) assms(1) that(2)] .
  have boundary: "IsStale W utcNow m = Inr False"
    if "W * 10000000 < 2 ^ 53" "timestamp m \<le> 253402300799999"
      "spec_age_seconds utcNow (timestamp m) = W"
    using quotient [OF that(1,2)] that(3) by simp
  have beyond: "IsStale_with TS W utcNow m = Inl ArgumentOutOfRangeException"
    if "253402300799999 < timestamp m" for TS
    using IsStale_out_of_range [OF W that] .
  have future: "spec_age_seconds utcNow (timestamp m) < 0"
    if "253402300799999 < timestamp m" "utcNow \<le> MaxUtcNowTicks"
    using age_out_of_range [OF that(2,1)] .
  have disabled: "IsStale_with TS W' utcNow m' = Inr False" if "W' \<le> 0" for TS
    using that by (simp add: IsStale_with_def)
  have round: "(fst (ListenLoop_round H FromJson cfg clock datagram st) = Stale \<longleftrightarrow>
               timestamp m \<le> 253402300799999 \<and> spec_age_seconds utcNow (timestamp m) > W)
            \<and> (timestamp m \<le> 253402300799999 \<and> spec_age_seconds utcNow (timestamp m) \<le> W
                \<longrightarrow>
                 fst (ListenLoop_round H FromJson cfg clock datagram st) = Enqueued
                 \<or> fst (ListenLoop_round H FromJson cfg clock datagram st) = Duplicate)
            \<and> (253402300799999 < timestamp m \<longrightarrow>
                 ListenLoop_round H FromJson cfg clock datagram st
                   = (ReceiveException ArgumentOutOfRangeException, st))"
    if r: "fst datagram \<noteq> []" "ParseMessage FromJson (fst datagram) = Inr (Some m)"
      "IsAuthorized H (sharedSecret cfg) m" "staleCommandWindowSeconds cfg = W" "staleClock clock = utcNow"
      "W * 10000000 < 2 ^ 53"
  proof (cases "timestamp m \<le> 253402300799999")
    case True
    show ?thesis
      using r(1-5) True quotient [OF r(6) True]
      by (auto simp: ListenLoop_round_def Let_def split: prod.splits bool.splits)
  next
    case False
    then have "IsStale W utcNow m = Inl ArgumentOutOfRangeException"
      using beyond [of TotalSeconds] by (simp add: IsStale_def)
    then show ?thesis
      using r(1-5) False by (simp add: ListenLoop_round_def Let_def)
  qed
  have c1: "W * 10000000 < 2 ^ 53 \<and> timestamp m \<le> 253402300799999 \<longrightarrow>
            IsStale W utcNow m = Inr (spec_age_seconds utcNow (timestamp m) > W)"
    using quotient by blast
  have c2: "e \<le> 5 \<and> timestamp m \<le> 253402300799999 \<longrightarrow>
            IsStale W utcNow m = Inr (spec_age_seconds utcNow (timestamp m) > W)
            \<and> IsStale_with TotalSeconds_product W utcNow m
                  = Inr (spec_age_seconds utcNow (timestamp m) > W)"
    using quotient narrow product by blast
  have c3: "W * 10000000 < 2 ^ 53 \<and> timestamp m \<le> 253402300799999
              \<and> spec_age_seconds utcNow (timestamp m) = W \<longrightarrow>
            IsStale W utcNow m = Inr False"
    using boundary by blast
  have c4: "253402300799999 < timestamp m \<longrightarrow>
            IsStale W utcNow m = Inl ArgumentOutOfRangeException
            \<and> IsStale_with TotalSeconds_product W utcNow m = Inl ArgumentOutOfRangeException
            \<and> (utcNow \<le> MaxUtcNowTicks \<longrightarrow> spec_age_seconds utcNow (timestamp m) < 0)"
    using beyond [of TotalSeconds] beyond [of TotalSeconds_product] future by (simp add: IsStale_def)
  have c5: "W' \<le> 0 \<longrightarrow> IsStale W' utcNow m' = Inr False
                     \<and> IsStale_with TotalSeconds_product W' utcNow m' = Inr False"
    using disabled [of TotalSeconds] disabled [of TotalSeconds_product] by (simp add: IsStale_def)
  show ?thesis
    using c1 c2 c3 c4 c5 round by blast
qed

theorem C4_stale_exactly_beyond_window_witness:
  "0 < timestamp \<lparr>cmdId = None, action = Some ''Beep'', payload = None, timestamp = 1700000000,
      signature = None\<rparr>
   \<and> (5::real) = real_of_int 5 * 2 powi 0
   \<and> (5::real) * 10000000 < 2 ^ 53
   \<and> spec_age_seconds 17000000050000000 1700000000 = 5
   \<and> IsStale 5 17000000050000000 \<lparr>cmdId = None, action = Some ''Beep'', payload = None, timestamp
       = 1700000000, signature = None\<rparr> = Inr False
   \<and> IsStale_with TotalSeconds_product 5 17000000050000000 \<lparr>cmdId = None, action = Some ''Beep'',
       payload = None, timestamp = 1700000000, signature = None\<rparr> = Inr False
   \<and> spec_age_seconds 17000000050000000 1699999999000 > 5
   \<and> IsStale 5 17000000050000000 \<lparr>cmdId = None, action = Some ''Beep'', payload = None, timestamp
       = 1699999999000, signature = None\<rparr> = Inr True
   \<and> IsStale_with TotalSeconds_product 5 17000000050000000 \<lparr>cmdId = None, action = Some ''Beep'',
       payload = None, timestamp = 1699999999000, signature = None\<rparr> = Inr True
   \<and> IsStale 5 17000000050000000 \<lparr>cmdId = None, action = Some ''Beep'', payload = None, timestamp
       = 253402300800000, signature = None\<rparr> = Inl ArgumentOutOfRangeException
   \<and> IsStale 0 17000000050000000 \<lparr>cmdId = None, action = Some ''Beep'', payload = None, timestamp
       = 1, signature = None\<rparr> = Inr False
   \<and> (900719872::real) = real_of_int 14073748 * 2 powi 6
   \<and> (900719872::real) * 10000000 < 2 ^ 53
   \<and> spec_age_seconds 9007198730000001 1 > 900719872
   \<and> IsStale 900719872 9007198730000001 \<lparr>cmdId = None, action = Some ''Beep'', payload = None,
       timestamp = 1, signature = None\<rparr> = Inr True"
proof -
  have five: "(5::real) = real_of_int 5 * 2 powi 0" "(0::int) < 5" "(5::int) < 2 ^ 24"
    and five_small: "(5::real) * 10000000 < 2 ^ 53" "(0::int) \<le> 5"
    by simp_all
  have wide: "(900719872::real) = real_of_int 14073748 * 2 powi 6" "(0::int) < 14073748"
    "(14073748::int) < 2 ^ 24"
    and wide_small: "(900719872::real) * 10000000 < 2 ^ 53"
    by simp_all
  have age1: "spec_age_seconds 17000000050000000 1700000000 = 5"
    and age2: "spec_age_seconds 17000000050000000 1699999999000 > 5"
    and age3: "spec_age_seconds 9007198730000001 1 > 900719872"
    by (simp_all add: spec_age_seconds_def)
  have t1: "0 < timestamp \<lparr>cmdId = None, action = Some ''Beep'', payload = None, timestamp =
      1700000000, signature = None\<rparr>" "timestamp \<lparr>cmdId = None, action = Some ''Beep'', payload =
      None, timestamp = 1700000000, signature = None\<rparr> \<le> 253402300799999"
    and t2: "0 < timestamp \<lparr>cmdId = None, action = Some ''Beep'', payload = None, timestamp =
        1699999999000, signature = None\<rparr>" "timestamp \<lparr>cmdId = None, action = Some ''Beep'',
        payload = None, timestamp = 1699999999000, signature = None\<rparr> \<le> 253402300799999"
    and t3: "0 < timestamp \<lparr>cmdId = None, action = Some ''Beep'', payload = None, timestamp =
        253402300800000, signature = None\<rparr>" "253402300799999 < timestamp \<lparr>cmdId = None, action =
        Some ''Beep'', payload = None, timestamp = 253402300800000, signature = None\<rparr>"
    and t4: "0 < timestamp \<lparr>cmdId = None, action = Some ''Beep'', payload = None, timestamp = 1,
        signature = None\<rparr>" "timestamp \<lparr>cmdId = None, action = Some ''Beep'', payload = None,
        timestamp = 1, signature = None\<rparr> \<le> 253402300799999"
    by simp_all
  from C4_stale_exactly_beyond_window [OF t1(1) five, where utcNow = 17000000050000000]
  have fresh: "IsStale 5 17000000050000000 \<lparr>cmdId = None, action = Some ''Beep'', payload = None,
      timestamp = 1700000000, signature = None\<rparr> = Inr False"
    and fresh_product: "IsStale_with TotalSeconds_product 5 17000000050000000 \<lparr>cmdId = None, action =
        Some ''Beep'', payload = None, timestamp = 1700000000, signature = None\<rparr> = Inr False"
    using five_small t1(2) age1 by simp_all
  from C4_stale_exactly_beyond_window [OF t2(1) five, where utcNow = 17000000050000000]
  have stale: "IsStale 5 17000000050000000 \<lparr>cmdId = None, action = Some ''Beep'', payload = None,
      timestamp = 1699999999000, signature = None\<rparr> = Inr True"
    and stale_product: "IsStale_with TotalSeconds_product 5 17000000050000000 \<lparr>cmdId = None, action =
        Some ''Beep'', payload = None, timestamp = 1699999999000, signature = None\<rparr> = Inr True"
    using five_small t2(2) age2 by simp_all
  from C4_stale_exactly_beyond_window [OF t3(1) five, where utcNow = 17000000050000000]
  have raised: "IsStale 5 17000000050000000 \<lparr>cmdId = None, action = Some ''Beep'', payload = None,
      timestamp = 253402300800000, signature = None\<rparr> = Inl ArgumentOutOfRangeException"
    using t3(2) by blast
  from C4_stale_exactly_beyond_window [OF t1(1) five, where W' = 0 and utcNow = 17000000050000000
      and m' = "\<lparr>cmdId = None, action = Some ''Beep'', payload = None, timestamp = 1, signature =
          None\<rparr>"]
  have off: "IsStale 0 17000000050000000 \<lparr>cmdId = None, action = Some ''Beep'', payload = None,
      timestamp = 1, signature = None\<rparr> = Inr False"
    by simp
  from C4_stale_exactly_beyond_window [OF t4(1) wide, where utcNow = 9007198730000001]
  have edge: "IsStale 900719872 9007198730000001 \<lparr>cmdId = None, action = Some ''Beep'', payload = None,
      timestamp = 1, signature = None\<rparr> = Inr True"
    using wide_small t4(2) age3 by simp
  show ?thesis
    using t1(1) five(1) five_small(1) wide(1) wide_small age1 age2 age3 fresh fresh_product stale
      stale_product raised off edge
    by simp
qed

text \<open>
  The claim as stated fails in two places. The first window of \<open>2\<^sup>5\<^sup>3\<close> ticks or more is
  900,719,936 seconds (a \<open>float\<close>: 14073749 times \<open>2\<^sup>6\<close>): at an age of one tick more the
  tick count 9,007,199,360,000,001 has no \<open>double\<close> of its own, the age is rounded to the
  window itself, and the envelope is not stale although its age exceeds the window. The
  same happens with a window of 1,000,000,000 seconds (1953125 times \<open>2\<^sup>9\<close>), and it
  happens whether the class library divides or multiplies. And an envelope with the
  millisecond timestamp 253,402,300,800,000, whose age is below the window, is not
  admitted: the conversion raises and the datagram is dropped.
\<close>

theorem C4_counterexample:
  "0 < timestamp \<lparr>cmdId = None, action = Some ''Beep'', payload = None, timestamp = 1, signature =
      None\<rparr>
   \<and> (900719936::real) = real_of_int 14073749 * 2 powi 6
   \<and> spec_age_seconds 9007199370000001 1 > 900719936
   \<and> IsStale 900719936 9007199370000001 \<lparr>cmdId = None, action = Some ''Beep'', payload = None,
       timestamp = 1, signature = None\<rparr> = Inr False
   \<and> IsStale_with TotalSeconds_product 900719936 9007199370000001 \<lparr>cmdId = None, action = Some
       ''Beep'', payload = None, timestamp = 1, signature = None\<rparr> = Inr False
   \<and> (1000000000::real) = real_of_int 1953125 * 2 powi 9
   \<and> spec_age_seconds 10000000010000001 1 > 1000000000
   \<and> IsStale 1000000000 10000000010000001 \<lparr>cmdId = None, action = Some ''Beep'', payload = None,
       timestamp = 1, signature = None\<rparr> = Inr False
   \<and> IsStale_with TotalSeconds_product 1000000000 10000000010000001 \<lparr>cmdId = None, action = Some
       ''Beep'', payload = None, timestamp = 1, signature = None\<rparr> = Inr False
   \<and> 17000000050000000 \<le> MaxUtcNowTicks
   \<and> spec_age_seconds 17000000050000000 253402300800000 < 5
   \<and> IsStale 5 17000000050000000 \<lparr>cmdId = None, action = Some ''Beep'', payload = None, timestamp
       = 253402300800000, signature = None\<rparr> = Inl ArgumentOutOfRangeException
   \<and> ListenLoop_round (\<lambda>key text. 0) (\<lambda>json. Inr (Some \<lparr>cmdId = None, action =
       Some ''Beep'', payload = None, timestamp = 253402300800000, signature = None\<rparr>))
       \<lparr>sharedSecret = None, staleCommandWindowSeconds = 5\<rparr> \<lparr>staleClock =
       17000000050000000, insertClock = 1700000005, pruneClock = 1700000005\<rparr> (''json'', \<lparr>Address
       = ''10.0.0.7'', Port = 50000\<rparr>) \<lparr>processedCommands = [], pendingCommands = []\<rparr> =
       (ReceiveException ArgumentOutOfRangeException, \<lparr>processedCommands = [], pendingCommands =
       []\<rparr>)"
proof -
  have "spec_age_seconds 9007199370000001 1 > 900719936"
    "spec_age_seconds 10000000010000001 1 > 1000000000"
    "spec_age_seconds 17000000050000000 253402300800000 < 5"
    by (simp_all add: spec_age_seconds_def)
  moreover have "IsStale 900719936 9007199370000001 \<lparr>cmdId = None, action = Some ''Beep'', payload =
      None, timestamp = 1, signature = None\<rparr> = Inr False"
    by code_simp
  moreover have "IsStale_with TotalSeconds_product 900719936 9007199370000001 \<lparr>cmdId = None, action =
      Some ''Beep'', payload = None, timestamp = 1, signature = None\<rparr> = Inr False"
    by code_simp
  moreover have "IsStale 1000000000 10000000010000001 \<lparr>cmdId = None, action = Some ''Beep'', payload =
      None, timestamp = 1, signature = None\<rparr> = Inr False"
    by code_simp
  moreover have "IsStale_with TotalSeconds_product 1000000000 10000000010000001 \<lparr>cmdId = None, action =
      Some ''Beep'', payload = None, timestamp = 1, signature = None\<rparr> = Inr False"
    by code_simp
  moreover have "IsStale 5 17000000050000000 \<lparr>cmdId = None, action = Some ''Beep'', payload = None,
      timestamp = 253402300800000, signature = None\<rparr> = Inl ArgumentOutOfRangeException"
    by (simp add: IsStale_def IsStale_with_def FromUnixTimeMilliseconds_def)
  moreover have "ListenLoop_round (\<lambda>key text. 0) (\<lambda>json. Inr (Some \<lparr>cmdId = None,
      action = Some ''Beep'', payload = None, timestamp = 253402300800000, signature = None\<rparr>))
      \<lparr>sharedSecret = None, staleCommandWindowSeconds = 5\<rparr> \<lparr>staleClock =
      17000000050000000, insertClock = 1700000005, pruneClock = 1700000005\<rparr> (''json'', \<lparr>Address
      = ''10.0.0.7'', Port = 50000\<rparr>) \<lparr>processedCommands = [], pendingCommands = []\<rparr> =
      (ReceiveException ArgumentOutOfRangeException, \<lparr>processedCommands = [], pendingCommands =
      []\<rparr>)"
    by (simp add: ListenLoop_round_def ParseMessage_def IsNullOrWhiteSpace_def IsWhiteSpace_def
        IsNullOrEmpty_def
          IsAuthorized_def IsStale_def IsStale_with_def FromUnixTimeMilliseconds_def)
  ultimately show ?thesis by (simp add: MaxUtcNowTicks_def)
qed

section \<open>Duplicate suppression and the bound of its cache\<close>

lemma fold_delete_eq_filter: "fold AList.delete ks d = filter (\<lambda>p. fst p \<notin> set ks) d"
proof (induction ks arbitrary: d)
  case Nil
  show ?case by simp
next
  case (Cons k ks)
  have "AList.delete k d = filter (\<lambda>p. fst p \<noteq> k) d"
    by (induction d) (auto simp: AList.delete_eq)
  then show ?case
    using Cons.IH [of "AList.delete k d"] by (auto intro: filter_cong)
qed

lemma Prune_eq_filter:
  "PruneProcessedCommands W t d =
     filter (\<lambda>p. fst p \<notin> fst ` {q \<in> set d. snd q < t - \<lfloor>max 1 W\<rfloor>}) d"
  by (simp add: PruneProcessedCommands_def Let_def fold_delete_eq_filter)

lemma set_Prune:
  "set (PruneProcessedCommands W t d) =
     {p \<in> set d. \<forall>q \<in> set d. fst q = fst p \<longrightarrow> \<not> snd q < t - \<lfloor>max 1
         W\<rfloor>}"
  unfolding Prune_eq_filter set_filter by (rule Collect_cong) force

lemma floor_window: "real_of_int n \<le> max 1 W \<longleftrightarrow> n \<le> \<lfloor>max 1 W\<rfloor>"
  by (simp add: le_floor_iff)

lemma Prune_retained_recent:
  assumes "(k, v) \<in> set (PruneProcessedCommands W t d)"
  shows "(k, v) \<in> set d \<and> real_of_int (t - v) \<le> max 1 W"
proof -
  from assms have in_d: "(k, v) \<in> set d" and "\<not> v < t - \<lfloor>max 1 W\<rfloor>"
    unfolding set_Prune by auto
  then have "t - v \<le> \<lfloor>max 1 W\<rfloor>" by linarith
  then have "real_of_int (t - v) \<le> max 1 W" by (simp only: floor_window)
  with in_d show ?thesis by simp
qed

lemma Prune_removes_old:
  assumes "(k, v) \<in> set d" and "real_of_int (t - v) > max 1 W"
  shows "k \<notin> fst ` set (PruneProcessedCommands W t d)"
proof
  assume "k \<in> fst ` set (PruneProcessedCommands W t d)"
  then obtain v' where "(k, v') \<in> set (PruneProcessedCommands W t d)" by force
  then have "\<forall>q \<in> set d. fst q = k \<longrightarrow> \<not> snd q < t - \<lfloor>max 1 W\<rfloor>"
    unfolding set_Prune by auto
  with assms(1) have "\<not> v < t - \<lfloor>max 1 W\<rfloor>" by force
  then have "t - v \<le> \<lfloor>max 1 W\<rfloor>" by linarith
  then have "real_of_int (t - v) \<le> max 1 W" by (simp only: floor_window)
  with assms(2) show False by linarith
qed

lemma Prune_keeps_recent:
  assumes "distinct (map fst d)" and "(k, v) \<in> set d" and "real_of_int (t - v) \<le> max 1 W"
  shows "(k, v) \<in> set (PruneProcessedCommands W t d)"
proof -
  have le: "t - v \<le> \<lfloor>max 1 W\<rfloor>" using assms(3) by (simp only: floor_window)
  have "\<not> snd q < t - \<lfloor>max 1 W\<rfloor>" if "q \<in> set d" "fst q = k" for q
  proof -
    from that have "(k, snd q) \<in> set d" by (metis prod.collapse)
    with assms(1,2) have "snd q = v" by (meson eq_key_imp_eq_value)
    with le show ?thesis by linarith
  qed
  with assms(2) show ?thesis unfolding set_Prune by auto
qed

lemma Prune_length: "length (PruneProcessedCommands W t d) \<le> length d"
  by (simp add: Prune_eq_filter)

lemma Prune_distinct: "distinct (map fst d) \<Longrightarrow> distinct (map fst (PruneProcessedCommands W t
    d))"
  by (simp add: Prune_eq_filter distinct_map_filter)

lemma update_fresh: "map_of d k = None \<Longrightarrow> AList.update k v d = d @ [(k, v)]"
  by (induction d) (auto split: if_splits)

lemma map_of_Prune_fresh:
  assumes "map_of d k = None" and "t2 \<le> t1 + 1"
  shows "map_of (PruneProcessedCommands W t2 (d @ [(k, t1)])) k = Some t1"
proof -
  have "\<lfloor>max 1 W\<rfloor> \<ge> 1" by (simp add: le_floor_iff)
  then have nlt: "\<not> t1 < t2 - \<lfloor>max 1 W\<rfloor>" using assms(2) by linarith
  have nd: "k \<notin> fst ` set d" using assms(1) by (simp add: map_of_eq_None_iff)
  have only: "q = (k, t1)" if "q \<in> set (d @ [(k, t1)])" "fst q = k" for q
    using that nd by force
  have "(k, t1) \<in> set (PruneProcessedCommands W t2 (d @ [(k, t1)]))"
    unfolding set_Prune using only nlt by force
  moreover have "v = t1" if "(k, v) \<in> set (PruneProcessedCommands W t2 (d @ [(k, t1)]))" for v
    using that only [of "(k, v)"] unfolding set_Prune by simp
  ultimately show ?thesis
    by (metis map_of_SomeD weak_map_of_SomeI)
qed

text \<open>
  C5. An envelope whose cmdId is null or empty always passes and leaves the cache as it
  was. An envelope with a cmdId passes exactly when that cmdId is not in the cache: the
  first one is admitted and its cmdId is inserted with the time of insertion, and every
  later one is rejected, the cache untouched, for as long as the cmdId is still there.
  The inserted entry is simply appended while the cache stays within its bound, and it
  survives the pruning pass of its own insertion whenever the clock has moved by at most
  one second between the two readings of that call; the next envelope with the same
  cmdId is then rejected and changes nothing, and so is every one after it.
\<close>

theorem C5_duplicate_suppression:
  "(IsNullOrEmpty (cmdId m) \<longrightarrow> RegisterCommandId W t1 t2 d m = (True, d))
   \<and> (\<not> IsNullOrEmpty (cmdId m) \<longrightarrow>
        (\<exists>key. cmdId m = Some key
           \<and> fst (RegisterCommandId W t1 t2 d m) = (\<not> ContainsKey key d)
           \<and> (ContainsKey key d \<longrightarrow> RegisterCommandId W t1 t2 d m = (False, d))
           \<and> (\<not> ContainsKey key d \<and> length d < MaxRememberedCommandIds \<longrightarrow>
                 snd (RegisterCommandId W t1 t2 d m) = d @ [(key, t1)])
           \<and> (\<not> ContainsKey key d \<and> t2 \<le> t1 + 1 \<longrightarrow>
                 map_of (snd (RegisterCommandId W t1 t2 d m)) key = Some t1
               \<and> (cmdId m' = Some key \<longrightarrow>
                    RegisterCommandId W t3 t4 (snd (RegisterCommandId W t1 t2 d m)) m'
                      = (False, snd (RegisterCommandId W t1 t2 d m))))))"
proof (cases "IsNullOrEmpty (cmdId m)")
  case True
  then show ?thesis
    by (auto simp: RegisterCommandId_def IsNullOrEmpty_def split: option.splits)
next
  case False
  then obtain key where key: "cmdId m = Some key" "key \<noteq> []"
    by (auto simp: IsNullOrEmpty_def split: option.splits)
  show ?thesis
  proof (cases "ContainsKey key d")
    case True
    then show ?thesis using key False by (simp add: RegisterCommandId_def)
  next
    case nc: False
    then have fresh: "map_of d key = None" by (simp add: ContainsKey_def)
    have ins: "AList.update key t1 d = d @ [(key, t1)]" by (rule update_fresh [OF fresh])
    have a: "fst (RegisterCommandId W t1 t2 d m)"
      using key nc by (simp add: RegisterCommandId_def Let_def)
    have b: "length d < MaxRememberedCommandIds \<Longrightarrow> snd (RegisterCommandId W t1 t2 d m) = d @
        [(key, t1)]"
      using key nc by (simp add: RegisterCommandId_def Let_def ins)
    have c: "map_of (snd (RegisterCommandId W t1 t2 d m)) key = Some t1" if "t2 \<le> t1 + 1"
      using key nc fresh map_of_Prune_fresh [OF fresh that, of W]
      by (simp add: RegisterCommandId_def Let_def ins map_add_def)
    have again: "RegisterCommandId W t3 t4 (snd (RegisterCommandId W t1 t2 d m)) m'
                      = (False, snd (RegisterCommandId W t1 t2 d m))"
      if "t2 \<le> t1 + 1" "cmdId m' = Some key"
      using c [OF that(1)] that(2) key(2) by (simp add: RegisterCommandId_def ContainsKey_def)
    show ?thesis using False key nc a b c again by simp
  qed
qed

theorem C5_duplicate_suppression_witness:
  "IsNullOrEmpty (cmdId \<lparr>cmdId = None, action = Some ''Beep'', payload = None, timestamp = 0, signature
      = None\<rparr>)
   \<and> RegisterCommandId 5 100 100 [(''8f8d2d86'', 99)]
        \<lparr>cmdId = None, action = Some ''Beep'', payload = None, timestamp = 0, signature = None\<rparr>
       = (True, [(''8f8d2d86'', 99)])
   \<and> \<not> IsNullOrEmpty (cmdId \<lparr>cmdId = Some ''8f8d2d86'', action = Some ''Beep'', payload =
       None,
       timestamp = 0, signature = None\<rparr>)
   \<and> \<not> ContainsKey ''8f8d2d86'' []
   \<and> length ([] :: processed_commands) < MaxRememberedCommandIds
   \<and> RegisterCommandId 5 99 99 []
        \<lparr>cmdId = Some ''8f8d2d86'', action = Some ''Beep'', payload = None, timestamp = 0, signature =
            None\<rparr>
       = (True, [(''8f8d2d86'', 99)])
   \<and> ContainsKey ''8f8d2d86'' [(''8f8d2d86'', 99)]
   \<and> RegisterCommandId 5 100 100 [(''8f8d2d86'', 99)]
        \<lparr>cmdId = Some ''8f8d2d86'', action = Some ''Beep'', payload = None, timestamp = 0, signature =
            None\<rparr>
       = (False, [(''8f8d2d86'', 99)])"
  using C5_duplicate_suppression [of
          "\<lparr>cmdId = None, action = Some ''Beep'', payload = None, timestamp = 0, signature =
              None\<rparr>"
          5 100 100 "[(''8f8d2d86'', 99)]"]
        C5_duplicate_suppression [of
          "\<lparr>cmdId = Some ''8f8d2d86'', action = Some ''Beep'', payload = None, timestamp = 0, signature
              = None\<rparr>"
          5 99 99 "[]"]
        C5_duplicate_suppression [of
          "\<lparr>cmdId = Some ''8f8d2d86'', action = Some ''Beep'', payload = None, timestamp = 0, signature
              = None\<rparr>"
          5 100 100 "[(''8f8d2d86'', 99)]"]
  by (auto simp: IsNullOrEmpty_def ContainsKey_def MaxRememberedCommandIds_def prod_eq_iff)

text \<open>
  C6 (amended). A pruning pass drops every entry older than \<open>max 1 W\<close> seconds and keeps
  only entries of age at most \<open>max 1 W\<close>: the window \<open>W\<close> when it is at least one second,
  and the floor of one second otherwise, whether staleness checking is off or the window
  lies between 0 and 1. A pass runs whenever an insertion raises the count above 128, so
  an insertion adds at most one entry, and from a cache within the bound the cache is
  again within the bound or holds only entries inside \<open>max 1 W\<close>.
\<close>

theorem C6_pruning_window_is_floored:
  "(\<forall>k v. (k, v) \<in> set (PruneProcessedCommands W t d) \<longrightarrow>
            (k, v) \<in> set d \<and> real_of_int (t - v) \<le> max 1 W)
   \<and> (\<forall>k v. (k, v) \<in> set d \<and> real_of_int (t - v) > max 1 W \<longrightarrow>
            k \<notin> fst ` set (PruneProcessedCommands W t d))
   \<and> (\<forall>key. cmdId m = Some key \<and> key \<noteq> [] \<and> \<not> ContainsKey key d \<and>
       MaxRememberedCommandIds \<le> length d \<longrightarrow>
            snd (RegisterCommandId W t1 t d m) = PruneProcessedCommands W t (d @ [(key, t1)]))
   \<and> length (snd (RegisterCommandId W t1 t d m)) \<le> length d + 1
   \<and> (length d \<le> MaxRememberedCommandIds \<longrightarrow>
         length (snd (RegisterCommandId W t1 t d m)) \<le> MaxRememberedCommandIds
         \<or> (\<forall>k v. (k, v) \<in> set (snd (RegisterCommandId W t1 t d m)) \<longrightarrow>
             real_of_int (t - v) \<le> max 1 W))"
proof -
  have 1: "\<forall>k v. (k, v) \<in> set (PruneProcessedCommands W t d) \<longrightarrow>
            (k, v) \<in> set d \<and> real_of_int (t - v) \<le> max 1 W"
    using Prune_retained_recent by blast
  have 2: "\<forall>k v. (k, v) \<in> set d \<and> real_of_int (t - v) > max 1 W \<longrightarrow>
            k \<notin> fst ` set (PruneProcessedCommands W t d)"
    using Prune_removes_old by blast
  have 3: "\<forall>key. cmdId m = Some key \<and> key \<noteq> [] \<and> \<not> ContainsKey key d \<and>
      MaxRememberedCommandIds \<le> length d \<longrightarrow>
            snd (RegisterCommandId W t1 t d m) = PruneProcessedCommands W t (d @ [(key, t1)])"
    by (auto simp: RegisterCommandId_def Let_def ContainsKey_def update_fresh)
  have shape: "snd (RegisterCommandId W t1 t d m) = d
        \<or> (\<exists>key. snd (RegisterCommandId W t1 t d m) = d @ [(key, t1)] \<and> length d <
            MaxRememberedCommandIds)
        \<or> (\<exists>key. snd (RegisterCommandId W t1 t d m) = PruneProcessedCommands W t (d @ [(key,
            t1)]))"
    by (auto simp: RegisterCommandId_def Let_def ContainsKey_def update_fresh split: option.splits)
  have 4: "length (snd (RegisterCommandId W t1 t d m)) \<le> length d + 1"
    using shape Prune_length [of W t] by (metis le_add1 length_append_singleton Suc_eq_plus1 order_refl)
  have 5: "length (snd (RegisterCommandId W t1 t d m)) \<le> MaxRememberedCommandIds
         \<or> (\<forall>k v. (k, v) \<in> set (snd (RegisterCommandId W t1 t d m)) \<longrightarrow>
             real_of_int (t - v) \<le> max 1 W)"
    if "length d \<le> MaxRememberedCommandIds"
    using shape that Prune_retained_recent [of _ _ W t] by (metis Suc_leI length_append_singleton)
  show ?thesis using 1 2 3 4 5 by blast
qed

theorem C6_pruning_window_is_floored_witness:
  "(''b'', 5) \<in> set [(''a'', 9), (''b'', 5)]
   \<and> real_of_int (10 - 5) > max 1 (1/2)
   \<and> ''b'' \<notin> fst ` set (PruneProcessedCommands (1/2) 10 [(''a'', 9), (''b'', 5)])
   \<and> (''a'', 9) \<in> set (PruneProcessedCommands (1/2) 10 [(''a'', 9), (''b'', 5)])
   \<and> real_of_int (10 - 9) \<le> max 1 (1/2)
   \<and> length [(''a'', 9), (''b'', 5 :: int)] \<le> MaxRememberedCommandIds
   \<and> length (snd (RegisterCommandId (1/2) 10 10 [(''a'', 9), (''b'', 5)]
         \<lparr>cmdId = Some ''c'', action = Some ''Beep'', payload = None, timestamp = 0, signature =
             None\<rparr>))
       \<le> MaxRememberedCommandIds"
  using C6_pruning_window_is_floored [of "1/2" 10 "[(''a'', 9), (''b'', 5)]"
          "\<lparr>cmdId = Some ''c'', action = Some ''Beep'', payload = None, timestamp = 0, signature =
              None\<rparr>" 10]
  by (simp add: PruneProcessedCommands_def RegisterCommandId_def ContainsKey_def MaxRememberedCommandIds_def
        AList.delete_eq)

lemma Prune_nothing_old:
  assumes "\<forall>p \<in> set d. \<not> snd p < t - \<lfloor>max 1 W\<rfloor>"
  shows "PruneProcessedCommands W t d = d"
proof -
  have "\<forall>p \<in> set d. fst p \<notin> fst ` {q \<in> set d. snd q < t - \<lfloor>max 1 W\<rfloor>}"
    using assms by auto
  then show ?thesis unfolding Prune_eq_filter by (rule filter_True)
qed

lemma new_not_numeric: "''new'' \<notin> set (map digits [0..<128])"
  by code_simp

text \<open>
  The claim as stated fails for a window between 0 and 1: staleness checking is on with
  \<open>W = 1/2\<close>, the 129th insertion at second 10 runs a pruning pass, and all 128 entries
  inserted at second 9, one second old, are retained.
\<close>

theorem C6_counterexample:
  "RegisterCommandId (1/2) 10 10 (zip (map digits [0..<128]) (replicate 128 9))
      \<lparr>cmdId = Some ''new'', action = Some ''Beep'', payload = None, timestamp = 0, signature =
          None\<rparr>
     = (True, zip (map digits [0..<128]) (replicate 128 9) @ [(''new'', 10)])
   \<and> MaxRememberedCommandIds < length (zip (map digits [0..<128]) (replicate 128 (9::int)) @ [(''new'',
       10)])
   \<and> (0::real) < 1/2 \<and> real_of_int (10 - 9) > 1/2"
proof -
  let ?d = "zip (map digits [0..<128]) (replicate 128 (9::int))"
  have fresh: "map_of ?d ''new'' = None"
    using new_not_numeric by (subst map_of_zip_is_None) simp_all
  have "\<lfloor>max 1 (1/2 :: real)\<rfloor> = 1" by simp
  then have cut: "(10::int) - \<lfloor>max 1 (1/2 :: real)\<rfloor> = 9" by simp
  have vals: "\<forall>p \<in> set (?d @ [(''new'', 10)]). \<not> snd p < 10 - \<lfloor>max 1 (1/2 ::
      real)\<rfloor>"
    unfolding cut by (auto dest!: set_zip_rightD)
  have len: "length ?d = 128" by simp
  show ?thesis
    using Prune_nothing_old [OF vals]
    by (simp add: RegisterCommandId_def ContainsKey_def fresh update_fresh [OF fresh]
          MaxRememberedCommandIds_def del: upt.simps map_append)
qed

section \<open>The receive loop\<close>

lemma round_rejected_unchanged:
  assumes "fst (ListenLoop_round H FromJson cfg clock datagram st) \<in> {EmptyDatagram, Malformed,
      Unauthorized, Stale}"
  shows "snd (ListenLoop_round H FromJson cfg clock datagram st) = st"
  using assms
  by (auto simp: ListenLoop_round_def Let_def split: option.splits sum.splits bool.splits prod.splits
      if_splits)

lemma round_enqueues:
  assumes "fst datagram \<noteq> []"
    and "ParseMessage FromJson (fst datagram) = Inr (Some command)"
    and "IsAuthorized H (sharedSecret cfg) command"
    and "IsStale (staleCommandWindowSeconds cfg) (staleClock clock) command = Inr False"
    and "cmdId command = Some key" and "\<not> ContainsKey key (processedCommands st)"
  shows "fst (ListenLoop_round H FromJson cfg clock datagram st) = Enqueued"
  using assms
  by (auto simp: ListenLoop_round_def Let_def RegisterCommandId_def split: prod.splits bool.splits)

text \<open>
  C10. A datagram dropped as malformed (it does not parse, or its action is empty), as
  unauthorized (the signature check fails) or as stale leaves the listener, and so the
  cache of processed cmdIds, exactly as it was: a cmdId is recorded only after parsing,
  authentication and the staleness check, and a round that changes the cache has
  enqueued an envelope that passed all three. Hence a later valid envelope carrying a
  cmdId that was not in the cache before the rejected datagram is admitted and enqueued.
\<close>

theorem C10_rejected_datagrams_leave_cache:
  "(ParseMessage FromJson (fst datagram) = Inr None \<and> fst datagram \<noteq> [] \<longrightarrow>
       ListenLoop_round H FromJson cfg clock datagram st = (Malformed, st))
   \<and> (\<forall>command. fst datagram \<noteq> [] \<and> ParseMessage FromJson (fst datagram) = Inr (Some
       command)
          \<and> \<not> IsAuthorized H (sharedSecret cfg) command \<longrightarrow>
       ListenLoop_round H FromJson cfg clock datagram st = (Unauthorized, st))
   \<and> (\<forall>command. fst datagram \<noteq> [] \<and> ParseMessage FromJson (fst datagram) = Inr (Some
       command)
          \<and> IsAuthorized H (sharedSecret cfg) command
          \<and> IsStale (staleCommandWindowSeconds cfg) (staleClock clock) command = Inr True
              \<longrightarrow>
       ListenLoop_round H FromJson cfg clock datagram st = (Stale, st))
   \<and> (fst (ListenLoop_round H FromJson cfg clock datagram st) \<in> {Malformed, Unauthorized, Stale}
       \<longrightarrow>
       processedCommands (snd (ListenLoop_round H FromJson cfg clock datagram st)) = processedCommands st
       \<and> (\<forall>datagram' clock' command key.
             fst datagram' \<noteq> [] \<and> ParseMessage FromJson (fst datagram') = Inr (Some command)
             \<and> IsAuthorized H (sharedSecret cfg) command
             \<and> IsStale (staleCommandWindowSeconds cfg) (staleClock clock') command = Inr False
             \<and> cmdId command = Some key \<and> \<not> ContainsKey key (processedCommands st)
                 \<longrightarrow>
             fst (ListenLoop_round H FromJson cfg clock' datagram'
                    (snd (ListenLoop_round H FromJson cfg clock datagram st))) = Enqueued))
   \<and> (processedCommands (snd (ListenLoop_round H FromJson cfg clock datagram st)) \<noteq>
       processedCommands st \<longrightarrow>
       fst (ListenLoop_round H FromJson cfg clock datagram st) = Enqueued
       \<and> (\<exists>command. ParseMessage FromJson (fst datagram) = Inr (Some command)
              \<and> IsAuthorized H (sharedSecret cfg) command
              \<and> IsStale (staleCommandWindowSeconds cfg) (staleClock clock) command = Inr False))"
proof -
  have 1: "ParseMessage FromJson (fst datagram) = Inr None \<and> fst datagram \<noteq> [] \<longrightarrow>
       ListenLoop_round H FromJson cfg clock datagram st = (Malformed, st)"
    by (simp add: ListenLoop_round_def)
  have 2: "\<forall>command. fst datagram \<noteq> [] \<and> ParseMessage FromJson (fst datagram) = Inr (Some
      command)
          \<and> \<not> IsAuthorized H (sharedSecret cfg) command \<longrightarrow>
       ListenLoop_round H FromJson cfg clock datagram st = (Unauthorized, st)"
    by (simp add: ListenLoop_round_def)
  have 3: "\<forall>command. fst datagram \<noteq> [] \<and> ParseMessage FromJson (fst datagram) = Inr (Some
      command)
          \<and> IsAuthorized H (sharedSecret cfg) command
          \<and> IsStale (staleCommandWindowSeconds cfg) (staleClock clock) command = Inr True
              \<longrightarrow>
       ListenLoop_round H FromJson cfg clock datagram st = (Stale, st)"
    by (simp add: ListenLoop_round_def)
  have 4: "snd (ListenLoop_round H FromJson cfg clock datagram st) = st"
    if "fst (ListenLoop_round H FromJson cfg clock datagram st) \<in> {Malformed, Unauthorized, Stale}"
    using that by (intro round_rejected_unchanged) auto
  have 5: "processedCommands (snd (ListenLoop_round H FromJson cfg clock datagram st)) \<noteq>
      processedCommands st \<longrightarrow>
       fst (ListenLoop_round H FromJson cfg clock datagram st) = Enqueued
       \<and> (\<exists>command. ParseMessage FromJson (fst datagram) = Inr (Some command)
              \<and> IsAuthorized H (sharedSecret cfg) command
              \<and> IsStale (staleCommandWindowSeconds cfg) (staleClock clock) command = Inr False)"
    by (auto simp: ListenLoop_round_def Let_def RegisterCommandId_def
             split: option.splits sum.splits bool.splits prod.splits if_splits)
  have 6: "(fst (ListenLoop_round H FromJson cfg clock datagram st) \<in> {Malformed, Unauthorized, Stale}
      \<longrightarrow>
       processedCommands (snd (ListenLoop_round H FromJson cfg clock datagram st)) = processedCommands st
       \<and> (\<forall>datagram' clock' command key.
             fst datagram' \<noteq> [] \<and> ParseMessage FromJson (fst datagram') = Inr (Some command)
             \<and> IsAuthorized H (sharedSecret cfg) command
             \<and> IsStale (staleCommandWindowSeconds cfg) (staleClock clock') command = Inr False
             \<and> cmdId command = Some key \<and> \<not> ContainsKey key (processedCommands st)
                 \<longrightarrow>
             fst (ListenLoop_round H FromJson cfg clock' datagram'
                    (snd (ListenLoop_round H FromJson cfg clock datagram st))) = Enqueued))"
    using 4 round_enqueues [of _ FromJson _ H cfg _ _ st] by (simp del: split_paired_All)
  show ?thesis
    using 1 2 3 5 6 by blast
qed

theorem C10_rejected_datagrams_leave_cache_witness:
  "ParseMessage (\<lambda>json. if json = ''good'' then Inr (Some \<lparr>cmdId = Some ''8f8d2d86'', action =
      Some ''Beep'', payload = None, timestamp = 1700000000, signature = None\<rparr>) else Inl
      ArgumentException) ''junk'' = Inr None
   \<and> ListenLoop_round (\<lambda>key text. 0) (\<lambda>json. if json = ''good'' then Inr (Some
       \<lparr>cmdId = Some ''8f8d2d86'', action = Some ''Beep'', payload = None, timestamp = 1700000000,
       signature = None\<rparr>) else Inl ArgumentException) \<lparr>sharedSecret = None,
       staleCommandWindowSeconds = 5\<rparr> \<lparr>staleClock = 17000000010000000, insertClock = 1700000001,
       pruneClock = 1700000001\<rparr> (''junk'', \<lparr>Address = ''10.0.0.7'', Port = 50000\<rparr>)
       \<lparr>processedCommands = [], pendingCommands = []\<rparr> = (Malformed, \<lparr>processedCommands =
       [], pendingCommands = []\<rparr>)
   \<and> ParseMessage (\<lambda>json. if json = ''good'' then Inr (Some \<lparr>cmdId = Some ''8f8d2d86'',
       action = Some ''Beep'', payload = None, timestamp = 1700000000, signature = None\<rparr>) else Inl
       ArgumentException) ''good'' = Inr (Some \<lparr>cmdId = Some ''8f8d2d86'', action = Some ''Beep'',
       payload = None, timestamp = 1700000000, signature = None\<rparr>)
   \<and> \<not> IsAuthorized (\<lambda>key text. 0) (Some ''s3cret'') \<lparr>cmdId = Some ''8f8d2d86'',
       action
       = Some ''Beep'', payload = None, timestamp = 1700000000, signature = None\<rparr>
   \<and> ListenLoop_round (\<lambda>key text. 0) (\<lambda>json. if json = ''good'' then Inr (Some
       \<lparr>cmdId = Some ''8f8d2d86'', action = Some ''Beep'', payload = None, timestamp = 1700000000,
       signature = None\<rparr>) else Inl ArgumentException) \<lparr>sharedSecret = Some ''s3cret'',
       staleCommandWindowSeconds = 5\<rparr> \<lparr>staleClock = 17000000010000000, insertClock = 1700000001,
       pruneClock = 1700000001\<rparr> (''good'', \<lparr>Address = ''10.0.0.7'', Port = 50000\<rparr>)
       \<lparr>processedCommands = [], pendingCommands = []\<rparr> = (Unauthorized, \<lparr>processedCommands
           =
       [], pendingCommands = []\<rparr>)
   \<and> IsStale 5 17000000600000000 \<lparr>cmdId = Some ''8f8d2d86'', action = Some ''Beep'', payload =
       None,
       timestamp = 1700000000, signature = None\<rparr> = Inr True
   \<and> ListenLoop_round (\<lambda>key text. 0) (\<lambda>json. if json = ''good'' then Inr (Some
       \<lparr>cmdId = Some ''8f8d2d86'', action = Some ''Beep'', payload = None, timestamp = 1700000000,
       signature = None\<rparr>) else Inl ArgumentException) \<lparr>sharedSecret = None,
       staleCommandWindowSeconds = 5\<rparr> \<lparr>staleClock = 17000000600000000, insertClock = 1700000060,
       pruneClock = 1700000060\<rparr> (''good'', \<lparr>Address = ''10.0.0.7'', Port = 50000\<rparr>)
       \<lparr>processedCommands = [], pendingCommands = []\<rparr> = (Stale, \<lparr>processedCommands = [],
       pendingCommands = []\<rparr>)
   \<and> IsStale 5 17000000010000000 \<lparr>cmdId = Some ''8f8d2d86'', action = Some ''Beep'', payload =
       None,
       timestamp = 1700000000, signature = None\<rparr> = Inr False
   \<and> \<not> ContainsKey ''8f8d2d86'' (processedCommands \<lparr>processedCommands = [], pendingCommands =
       []\<rparr>)
   \<and> fst (ListenLoop_round (\<lambda>key text. 0) (\<lambda>json. if json = ''good'' then Inr (Some
       \<lparr>cmdId = Some ''8f8d2d86'', action = Some ''Beep'', payload = None, timestamp = 1700000000,
       signature = None\<rparr>) else Inl ArgumentException) \<lparr>sharedSecret = None,
       staleCommandWindowSeconds = 5\<rparr> \<lparr>staleClock = 17000000010000000, insertClock = 1700000001,
       pruneClock = 1700000001\<rparr> (''good'', \<lparr>Address = ''10.0.0.7'', Port = 50000\<rparr>)
           (snd (ListenLoop_round (\<lambda>key text. 0) (\<lambda>json. if json = ''good'' then Inr (Some
               \<lparr>cmdId = Some ''8f8d2d86'', action = Some ''Beep'', payload = None, timestamp =
               1700000000, signature = None\<rparr>) else Inl ArgumentException) \<lparr>sharedSecret = None,
               staleCommandWindowSeconds = 5\<rparr> \<lparr>staleClock = 17000000600000000, insertClock =
               1700000060, pruneClock = 1700000060\<rparr> (''good'', \<lparr>Address = ''10.0.0.7'', Port =
               50000\<rparr>) \<lparr>processedCommands = [], pendingCommands = []\<rparr>))) = Enqueued"
proof -
  let ?FJ = "\<lambda>json. if json = ''good'' then Inr (Some \<lparr>cmdId = Some ''8f8d2d86'', action = Some
      ''Beep'', payload = None, timestamp = 1700000000, signature = None\<rparr>) else Inl ArgumentException"
  let ?H = "(\<lambda>key text. 0) :: hmacsha256"
  let ?msg = "\<lparr>cmdId = Some ''8f8d2d86'', action = Some ''Beep'', payload = None, timestamp =
      1700000000,
      signature = None\<rparr>"
  let ?st = "\<lparr>processedCommands = [], pendingCommands = []\<rparr>"
  let ?cfg0 = "\<lparr>sharedSecret = None, staleCommandWindowSeconds = 5\<rparr>"
  let ?cfg1 = "\<lparr>sharedSecret = Some ''s3cret'', staleCommandWindowSeconds = 5\<rparr>"
  let ?clk = "\<lparr>staleClock = 17000000010000000, insertClock = 1700000001, pruneClock =
      1700000001\<rparr>"
  let ?late = "\<lparr>staleClock = 17000000600000000, insertClock = 1700000060, pruneClock =
      1700000060\<rparr>"
  let ?junk = "(''junk'', \<lparr>Address = ''10.0.0.7'', Port = 50000\<rparr>)"
  let ?good = "(''good'', \<lparr>Address = ''10.0.0.7'', Port = 50000\<rparr>)"
  have p1: "ParseMessage ?FJ (fst ?junk) = Inr None" "fst ?junk \<noteq> []"
    by (simp_all add: ParseMessage_def is_ArgumentException_def)
  have p2: "ParseMessage ?FJ (fst ?good) = Inr (Some ?msg)" "fst ?good \<noteq> []"
    by (simp_all add: ParseMessage_def IsNullOrWhiteSpace_def IsWhiteSpace_def IsNullOrEmpty_def)
  have na: "\<not> IsAuthorized ?H (sharedSecret ?cfg1) ?msg"
    by (simp add: IsAuthorized_def IsNullOrEmpty_def)
  have au: "IsAuthorized ?H (sharedSecret ?cfg0) ?msg"
    by (simp add: IsAuthorized_def IsNullOrEmpty_def)
  have stale: "IsStale (staleCommandWindowSeconds ?cfg0) (staleClock ?late) ?msg = Inr True"
    by (simp add: IsStale_5 spec_age_seconds_def)
  have fresh: "IsStale (staleCommandWindowSeconds ?cfg0) (staleClock ?clk) ?msg = Inr False"
    by (simp add: IsStale_5 spec_age_seconds_def)
  have nc: "\<not> ContainsKey ''8f8d2d86'' (processedCommands ?st)"
    by (simp add: ContainsKey_def)
  have r1: "ListenLoop_round ?H ?FJ ?cfg0 ?clk ?junk ?st = (Malformed, ?st)"
    using C10_rejected_datagrams_leave_cache [of ?FJ ?junk ?H ?cfg0 ?clk ?st] p1 by blast
  have r2: "ListenLoop_round ?H ?FJ ?cfg1 ?clk ?good ?st = (Unauthorized, ?st)"
    using C10_rejected_datagrams_leave_cache [of ?FJ ?good ?H ?cfg1 ?clk ?st] p2 na by blast
  have T3: "(\<forall>command. fst ?good \<noteq> [] \<and> ParseMessage ?FJ (fst ?good) = Inr (Some command)
          \<and> IsAuthorized ?H (sharedSecret ?cfg0) command
          \<and> IsStale (staleCommandWindowSeconds ?cfg0) (staleClock ?late) command = Inr True
              \<longrightarrow>
       ListenLoop_round ?H ?FJ ?cfg0 ?late ?good ?st = (Stale, ?st))"
    and T4: "(fst (ListenLoop_round ?H ?FJ ?cfg0 ?late ?good ?st) \<in> {Malformed, Unauthorized, Stale}
        \<longrightarrow>
       processedCommands (snd (ListenLoop_round ?H ?FJ ?cfg0 ?late ?good ?st)) = processedCommands ?st
       \<and> (\<forall>datagram' clock' command key.
             fst datagram' \<noteq> [] \<and> ParseMessage ?FJ (fst datagram') = Inr (Some command)
             \<and> IsAuthorized ?H (sharedSecret ?cfg0) command
             \<and> IsStale (staleCommandWindowSeconds ?cfg0) (staleClock clock') command = Inr False
             \<and> cmdId command = Some key \<and> \<not> ContainsKey key (processedCommands ?st)
                 \<longrightarrow>
             fst (ListenLoop_round ?H ?FJ ?cfg0 clock' datagram'
                    (snd (ListenLoop_round ?H ?FJ ?cfg0 ?late ?good ?st))) = Enqueued))"
    using C10_rejected_datagrams_leave_cache [of ?FJ ?good ?H ?cfg0 ?late ?st] by blast+
  have r3: "ListenLoop_round ?H ?FJ ?cfg0 ?late ?good ?st = (Stale, ?st)"
    using T3 p2 au stale by blast
  have "cmdId ?msg = Some ''8f8d2d86''" by simp
  with T4 r3 p2 au fresh nc
  have r4: "fst (ListenLoop_round ?H ?FJ ?cfg0 ?clk ?good
                    (snd (ListenLoop_round ?H ?FJ ?cfg0 ?late ?good ?st))) = Enqueued"
    by (metis fst_conv insertCI)
  show ?thesis
    using p1 p2 na stale fresh nc r1 r2 r3 r4 by simp
qed

section \<open>The roster\<close>

lemma or_number_default_nonzero: "or_number P 3939 \<noteq> 0"
  by (simp add: or_number_def split: option.splits)

lemma merge_client_lastSeen [simp]: "lastSeen (merge_client P t pkt rec c) = t"
  by (simp add: merge_client_def Let_def)

lemma merge_client_remote [simp]:
  "remoteAddress (merge_client P t pkt rec c) = address pkt"
  "remotePort (merge_client P t pkt rec c) = port pkt"
  by (simp_all add: merge_client_def Let_def)

lemma merge_client_firstSeen [simp]: "firstSeen (merge_client P t pkt rec c) = firstSeen c"
  by (simp add: merge_client_def Let_def)

lemma merge_client_deviceId:
  "device.deviceId (merge_client P t pkt rec c) = assign_defined (client_record.deviceId rec) (device.deviceId
      c)"
  by (simp add: merge_client_def Let_def)

lemma merge_client_platform:
  "device.platform (merge_client P t pkt rec c) = assign_defined (client_record.platform rec) (device.platform
      c)"
  by (simp add: merge_client_def Let_def)

lemma merge_client_buildVersion:
  "device.buildVersion (merge_client P t pkt rec c) = assign_defined (client_record.buildVersion rec)
      (device.buildVersion c)"
  by (simp add: merge_client_def Let_def)

lemma merge_client_ipv4:
  "device.ipv4 (merge_client P t pkt rec c) =
     or_string (Some (assign_defined (client_record.ipv4 rec) (device.ipv4 c))) (address pkt)"
  by (simp add: merge_client_def Let_def)

lemma merge_client_scene:
  "device.scene (merge_client P t pkt rec c) =
     or_string (Some (assign_defined (client_record.scene rec) (device.scene c))) (device.scene c)"
  by (simp add: merge_client_def Let_def)

lemma merge_client_commandPort:
  "device.commandPort (merge_client P t pkt rec c) =
     Some (or_number (case client_record.commandPort rec of None \<Rightarrow> device.commandPort c | Some n
         \<Rightarrow> Some n)
            (or_number P 3939))"
  by (simp add: merge_client_def Let_def split: option.splits)

lemma merge_client_deviceName:
  "device.deviceName (merge_client P t pkt rec c) =
     (if assign_defined (client_record.deviceName rec) (device.deviceName c) = []
      then assign_defined (client_record.deviceId rec) (device.deviceId c)
      else assign_defined (client_record.deviceName rec) (device.deviceName c))"
  by (simp add: merge_client_def Let_def)

lemma merge_client_more [simp]: "device.more (merge_client P t pkt rec c) = device.more c"
  by (simp add: merge_client_def Let_def)

lemmas merge_client_fields = merge_client_deviceId merge_client_platform merge_client_buildVersion
  merge_client_ipv4 merge_client_scene merge_client_commandPort merge_client_deviceName

lemma merge_client_idem:
  "merge_client P t2 pkt rec (merge_client P t1 pkt rec c) = (merge_client P t1 pkt rec c)\<lparr>lastSeen :=
      t2\<rparr>"
proof (rule device.equality)
  show "device.commandPort (merge_client P t2 pkt rec (merge_client P t1 pkt rec c)) =
        device.commandPort ((merge_client P t1 pkt rec c)\<lparr>lastSeen := t2\<rparr>)"
    using or_number_default_nonzero [of P]
    by (simp add: merge_client_commandPort or_number_def split: option.splits)
qed (simp_all add: merge_client_fields assign_defined_def or_string_def split: option.splits)

lemma client_key_stable:
  assumes "or_string (client_record.deviceId rec) (address pkt) \<noteq> []"
  shows "client_key pkt rec cs = or_string (client_record.deviceId rec) (address pkt)"
  using assms by (auto simp: client_key_def or_string_def split: option.splits)

lemma map_of_upsertClient:
  "map_of (upsertClient P t pkt rec cs) (client_key pkt rec cs) =
     Some (merge_client P t pkt rec
            (case map_of cs (client_key pkt rec cs) of
               Some existing \<Rightarrow> existing
             | None \<Rightarrow> new_client t pkt rec (client_key pkt rec cs)))"
  by (simp add: upsertClient_def Let_def update_conv')

lemma map_of_upsertClient_other:
  "k \<noteq> client_key pkt rec cs \<Longrightarrow> map_of (upsertClient P t pkt rec cs) k = map_of cs k"
  by (simp add: upsertClient_def Let_def update_conv')

lemma upsertClient_twice:
  assumes "or_string (client_record.deviceId rec) (address pkt) \<noteq> []"
    and "map_of (upsertClient P t1 pkt rec cs) (client_key pkt rec cs) = Some e1"
  shows "map_of (upsertClient P t2 pkt rec (upsertClient P t1 pkt rec cs)) (client_key pkt rec cs)
         = Some (e1\<lparr>lastSeen := t2\<rparr>)"
proof -
  have k: "client_key pkt rec (upsertClient P t1 pkt rec cs) = client_key pkt rec cs"
    by (simp add: client_key_stable [OF assms(1)])
  have e1: "e1 = merge_client P t1 pkt rec
            (case map_of cs (client_key pkt rec cs) of
               Some existing \<Rightarrow> existing
             | None \<Rightarrow> new_client t1 pkt rec (client_key pkt rec cs))"
    using assms(2) by (simp add: map_of_upsertClient)
  have "map_of (upsertClient P t2 pkt rec (upsertClient P t1 pkt rec cs))
          (client_key pkt rec (upsertClient P t1 pkt rec cs))
        = Some (merge_client P t2 pkt rec e1)"
    by (subst map_of_upsertClient) (simp add: k assms(2))
  then show ?thesis
    by (simp add: k e1 merge_client_idem)
qed

text \<open>
  C8 (amended). One application of a record stores an entry under the record's key whose
  \<open>lastSeen\<close> is the time of the application and whose transport address and port are
  those of the packet; where the map already had an entry, a property absent from the
  record keeps the present value of that entry. When the key comes from the record's
  deviceId or from the source address, applying the same record from the same packet
  again gives the entry of the first application in every field except \<open>lastSeen\<close>,
  which becomes the time of the second application: it advances strictly when that
  time is strictly later and stays the same when both applications read the same
  millisecond.
\<close>

theorem C8_roster_merge:
  "\<exists>e1. map_of (upsertClient P t1 pkt rec cs) (client_key pkt rec cs) = Some e1
      \<and> lastSeen e1 = t1 \<and> remoteAddress e1 = address pkt \<and> remotePort e1 = port pkt
      \<and> (\<forall>e0. map_of cs (client_key pkt rec cs) = Some e0 \<longrightarrow>
             firstSeen e1 = firstSeen e0
           \<and> (client_record.deviceId rec = None \<longrightarrow> device.deviceId e1 = device.deviceId
               e0)
           \<and> (client_record.deviceName rec = None \<and> device.deviceName e0 \<noteq> []
               \<longrightarrow>
                device.deviceName e1 = device.deviceName e0)
           \<and> (client_record.platform rec = None \<longrightarrow> device.platform e1 = device.platform
               e0)
           \<and> (client_record.buildVersion rec = None \<longrightarrow> device.buildVersion e1 =
               device.buildVersion e0)
           \<and> (client_record.ipv4 rec = None \<and> device.ipv4 e0 \<noteq> [] \<longrightarrow>
               device.ipv4
               e1 = device.ipv4 e0)
           \<and> (client_record.scene rec = None \<longrightarrow> device.scene e1 = device.scene e0)
           \<and> (client_record.commandPort rec = None \<and> (\<exists>n. device.commandPort e0 = Some n
               \<and> n \<noteq> 0) \<longrightarrow>
                device.commandPort e1 = device.commandPort e0))
      \<and> (or_string (client_record.deviceId rec) (address pkt) \<noteq> [] \<longrightarrow>
             map_of (upsertClient P t2 pkt rec (upsertClient P t1 pkt rec cs)) (client_key pkt rec cs)
               = Some (e1\<lparr>lastSeen := t2\<rparr>)
           \<and> (lastSeen e1 < lastSeen (e1\<lparr>lastSeen := t2\<rparr>) \<longleftrightarrow> t1 < t2))"
proof -
  let ?key = "client_key pkt rec cs"
  let ?cur = "case map_of cs ?key of Some existing \<Rightarrow> existing | None \<Rightarrow> new_client t1
      pkt rec ?key"
  let ?e1 = "merge_client P t1 pkt rec ?cur"
  have a: "map_of (upsertClient P t1 pkt rec cs) ?key = Some ?e1"
    by (rule map_of_upsertClient)
  have b: "lastSeen ?e1 = t1 \<and> remoteAddress ?e1 = address pkt \<and> remotePort ?e1 = port pkt"
    by simp
  have c: "firstSeen ?e1 = firstSeen e0
           \<and> (client_record.deviceId rec = None \<longrightarrow> device.deviceId ?e1 = device.deviceId
               e0)
           \<and> (client_record.deviceName rec = None \<and> device.deviceName e0 \<noteq> []
               \<longrightarrow>
                device.deviceName ?e1 = device.deviceName e0)
           \<and> (client_record.platform rec = None \<longrightarrow> device.platform ?e1 = device.platform
               e0)
           \<and> (client_record.buildVersion rec = None \<longrightarrow> device.buildVersion ?e1 =
               device.buildVersion e0)
           \<and> (client_record.ipv4 rec = None \<and> device.ipv4 e0 \<noteq> [] \<longrightarrow>
               device.ipv4
               ?e1 = device.ipv4 e0)
           \<and> (client_record.scene rec = None \<longrightarrow> device.scene ?e1 = device.scene e0)
           \<and> (client_record.commandPort rec = None \<and> (\<exists>n. device.commandPort e0 = Some n
               \<and> n \<noteq> 0) \<longrightarrow>
                device.commandPort ?e1 = device.commandPort e0)"
    if "map_of cs ?key = Some e0" for e0
    using that
    by (auto simp: merge_client_fields assign_defined_def or_string_def or_number_def)
  have d: "map_of (upsertClient P t2 pkt rec (upsertClient P t1 pkt rec cs)) ?key = Some (?e1\<lparr>lastSeen
      := t2\<rparr>)"
    if "or_string (client_record.deviceId rec) (address pkt) \<noteq> []"
    by (rule upsertClient_twice [OF that a])
  have e: "lastSeen ?e1 < lastSeen (?e1\<lparr>lastSeen := t2\<rparr>) \<longleftrightarrow> t1 < t2"
    by simp
  show ?thesis
    using a b c d e by (intro exI [of _ ?e1]) blast
qed

theorem C8_roster_merge_witness:
  "or_string (client_record.deviceId \<lparr>client_record.deviceId = Some ''abc'', deviceName = None,
      platform
      = None, buildVersion = None, ipv4 = None, scene = Some ''Arena'', commandPort = Some 3939\<rparr>)
      (address \<lparr>address = ''10.0.0.7'', port = 50000\<rparr>) \<noteq> []
   \<and> map_of [(''abc'', \<lparr>device.deviceId = ''abc'', deviceName = ''Quest'', platform = ''Android'',
       buildVersion = ''1.0'', ipv4 = ''10.0.0.7'', scene = ''Lobby'', commandPort = Some 3939, remoteAddress
           =
       ''10.0.0.7'', remotePort = 50000, firstSeen = 1000, lastSeen = 1000\<rparr>)] ''abc'' = Some
       \<lparr>device.deviceId = ''abc'', deviceName = ''Quest'', platform = ''Android'', buildVersion =
       ''1.0'', ipv4 = ''10.0.0.7'', scene = ''Lobby'', commandPort = Some 3939, remoteAddress = ''10.0.0.7'',
       remotePort = 50000, firstSeen = 1000, lastSeen = 1000\<rparr>
   \<and> client_record.platform \<lparr>client_record.deviceId = Some ''abc'', deviceName = None, platform =
       None, buildVersion = None, ipv4 = None, scene = Some ''Arena'', commandPort = Some 3939\<rparr> = None
   \<and> map_of (upsertClient None 12000 \<lparr>address = ''10.0.0.7'', port = 50000\<rparr>
       \<lparr>client_record.deviceId = Some ''abc'', deviceName = None, platform = None, buildVersion = None,
       ipv4 = None, scene = Some ''Arena'', commandPort = Some 3939\<rparr> [(''abc'', \<lparr>device.deviceId
           =
       ''abc'', deviceName = ''Quest'', platform = ''Android'', buildVersion = ''1.0'', ipv4 = ''10.0.0.7'',
       scene = ''Lobby'', commandPort = Some 3939, remoteAddress = ''10.0.0.7'', remotePort = 50000, firstSeen
           =
       1000, lastSeen = 1000\<rparr>)]) ''abc''
       = Some \<lparr>device.deviceId = ''abc'', deviceName = ''Quest'', platform = ''Android'', buildVersion
           =
           ''1.0'', ipv4 = ''10.0.0.7'', scene = ''Arena'', commandPort = Some 3939, remoteAddress =
           ''10.0.0.7'', remotePort = 50000, firstSeen = 1000, lastSeen = 12000\<rparr>
   \<and> map_of (upsertClient None 23000 \<lparr>address = ''10.0.0.7'', port = 50000\<rparr>
       \<lparr>client_record.deviceId = Some ''abc'', deviceName = None, platform = None, buildVersion = None,
       ipv4 = None, scene = Some ''Arena'', commandPort = Some 3939\<rparr>
               (upsertClient None 12000 \<lparr>address = ''10.0.0.7'', port = 50000\<rparr>
                   \<lparr>client_record.deviceId = Some ''abc'', deviceName = None, platform = None,
                   buildVersion = None, ipv4 = None, scene = Some ''Arena'', commandPort = Some 3939\<rparr>
                   [(''abc'', \<lparr>device.deviceId = ''abc'', deviceName = ''Quest'', platform =
                       ''Android'',
                   buildVersion = ''1.0'', ipv4 = ''10.0.0.7'', scene = ''Lobby'', commandPort = Some 3939,
                   remoteAddress = ''10.0.0.7'', remotePort = 50000, firstSeen = 1000, lastSeen =
                   1000\<rparr>)])) ''abc''
       = Some \<lparr>device.deviceId = ''abc'', deviceName = ''Quest'', platform = ''Android'', buildVersion
           =
           ''1.0'', ipv4 = ''10.0.0.7'', scene = ''Arena'', commandPort = Some 3939, remoteAddress =
           ''10.0.0.7'', remotePort = 50000, firstSeen = 1000, lastSeen = 23000\<rparr>"
proof -
  let ?pkt = "\<lparr>address = ''10.0.0.7'', port = 50000\<rparr>"
  let ?hb = "\<lparr>client_record.deviceId = Some ''abc'', deviceName = None, platform = None, buildVersion =
      None, ipv4 = None, scene = Some ''Arena'', commandPort = Some 3939\<rparr>"
  let ?cs = "[(''abc'', \<lparr>device.deviceId = ''abc'', deviceName = ''Quest'', platform = ''Android'',
      buildVersion = ''1.0'', ipv4 = ''10.0.0.7'', scene = ''Lobby'', commandPort = Some 3939, remoteAddress =
      ''10.0.0.7'', remotePort = 50000, firstSeen = 1000, lastSeen = 1000\<rparr>)]"
  have key: "client_key ?pkt ?hb ?cs = ''abc''"
    by (simp add: client_key_def or_string_def)
  have one: "map_of (upsertClient None 12000 ?pkt ?hb ?cs) ''abc'' = Some \<lparr>device.deviceId = ''abc'',
      deviceName = ''Quest'', platform = ''Android'', buildVersion = ''1.0'', ipv4 = ''10.0.0.7'', scene =
      ''Arena'', commandPort = Some 3939, remoteAddress = ''10.0.0.7'', remotePort = 50000, firstSeen = 1000,
      lastSeen = 12000\<rparr>"
    by (simp add: upsertClient_def key merge_client_def Let_def assign_defined_def or_string_def
        or_number_def)
  from C8_roster_merge [of None 12000 ?pkt ?hb ?cs 23000]
  obtain e1 where e1: "map_of (upsertClient None 12000 ?pkt ?hb ?cs) (client_key ?pkt ?hb ?cs) = Some e1"
    and two: "or_string (client_record.deviceId ?hb) (address ?pkt) \<noteq> [] \<longrightarrow>
             map_of (upsertClient None 23000 ?pkt ?hb (upsertClient None 12000 ?pkt ?hb ?cs)) (client_key ?pkt
                 ?hb ?cs)
               = Some (e1\<lparr>lastSeen := 23000\<rparr>)"
    by blast
  have "e1 = \<lparr>device.deviceId = ''abc'', deviceName = ''Quest'', platform = ''Android'', buildVersion =
      ''1.0'', ipv4 = ''10.0.0.7'', scene = ''Arena'', commandPort = Some 3939, remoteAddress = ''10.0.0.7'',
      remotePort = 50000, firstSeen = 1000, lastSeen = 12000\<rparr>"
    using e1 one by (simp add: key)
  with two show ?thesis
    using one by (simp add: key or_string_def)
qed

text \<open>
  The claim as stated fails when both applications read the same millisecond from the
  clock: the entry after the second application is the entry after the first, and
  \<open>lastSeen\<close> has not advanced.
\<close>

theorem C8_counterexample:
  "map_of (upsertClient None 12000 \<lparr>address = ''10.0.0.7'', port = 50000\<rparr>
      \<lparr>client_record.deviceId = Some ''abc'', deviceName = None, platform = None, buildVersion = None,
      ipv4 = None, scene = Some ''Arena'', commandPort = Some 3939\<rparr> [(''abc'', \<lparr>device.deviceId
          =
      ''abc'', deviceName = ''Quest'', platform = ''Android'', buildVersion = ''1.0'', ipv4 = ''10.0.0.7'',
      scene = ''Lobby'', commandPort = Some 3939, remoteAddress = ''10.0.0.7'', remotePort = 50000, firstSeen
          =
      1000, lastSeen = 1000\<rparr>)]) ''abc''
     = Some \<lparr>device.deviceId = ''abc'', deviceName = ''Quest'', platform = ''Android'', buildVersion =
         ''1.0'', ipv4 = ''10.0.0.7'', scene = ''Arena'', commandPort = Some 3939, remoteAddress =
             ''10.0.0.7'',
         remotePort = 50000, firstSeen = 1000, lastSeen = 12000\<rparr>
   \<and> map_of (upsertClient None 12000 \<lparr>address = ''10.0.0.7'', port = 50000\<rparr>
       \<lparr>client_record.deviceId = Some ''abc'', deviceName = None, platform = None, buildVersion = None,
       ipv4 = None, scene = Some ''Arena'', commandPort = Some 3939\<rparr>
               (upsertClient None 12000 \<lparr>address = ''10.0.0.7'', port = 50000\<rparr>
                   \<lparr>client_record.deviceId = Some ''abc'', deviceName = None, platform = None,
                   buildVersion = None, ipv4 = None, scene = Some ''Arena'', commandPort = Some 3939\<rparr>
                   [(''abc'', \<lparr>device.deviceId = ''abc'', deviceName = ''Quest'', platform =
                       ''Android'',
                   buildVersion = ''1.0'', ipv4 = ''10.0.0.7'', scene = ''Lobby'', commandPort = Some 3939,
                   remoteAddress = ''10.0.0.7'', remotePort = 50000, firstSeen = 1000, lastSeen =
                   1000\<rparr>)])) ''abc''
     = Some \<lparr>device.deviceId = ''abc'', deviceName = ''Quest'', platform = ''Android'', buildVersion =
         ''1.0'', ipv4 = ''10.0.0.7'', scene = ''Arena'', commandPort = Some 3939, remoteAddress =
             ''10.0.0.7'',
         remotePort = 50000, firstSeen = 1000, lastSeen = 12000\<rparr>"
  by (simp add: upsertClient_def client_key_def merge_client_def Let_def assign_defined_def or_string_def
        or_number_def)

lemma length_filter_complement: "length xs - length (filter P xs) = length (filter (\<lambda>x. \<not> P x)
    xs)"
  using sum_length_filter_compl [of P xs] by simp

lemma count_list_insert_sorted:
  "count_list (map g (insert_sorted comparefn x ys)) c = count_list (map g (x # ys)) c"
  by (induction ys) auto

lemma set_insert_sorted: "set (insert_sorted comparefn x ys) = insert x (set ys)"
  by (induction ys) auto

lemma set_Array_sort: "set (Array_sort comparefn xs) = set xs"
proof -
  have "set (fold (insert_sorted comparefn) xs acc) = set xs \<union> set acc" for acc
    by (induction xs arbitrary: acc) (auto simp: set_insert_sorted)
  then show ?thesis by (simp add: Array_sort_def)
qed

lemma count_list_Array_sort: "count_list (map g (Array_sort comparefn xs)) c = count_list (map g xs) c"
proof -
  have "count_list (map g (fold (insert_sorted comparefn) xs acc)) c
          = count_list (map g xs) c + count_list (map g acc) c" for acc
  proof (induction xs arbitrary: acc)
    case Nil
    show ?case by simp
  next
    case (Cons x xs)
    show ?case
      unfolding fold_simps Cons.IH count_list_insert_sorted by simp
  qed
  then show ?thesis by (simp add: Array_sort_def)
qed

text \<open>
  C9. Whether an entry is shown online is computed at each read from the time of the read
  and the entry's \<open>lastSeen\<close> alone: online exactly when \<open>now - lastSeen\<close> is at most
  10,000 ms. The grid draws one card for each entry of the roster, sorted by name, and
  every card carries the state computed so; the statistics line counts the entries the
  same way, and the entry has no field that stores the state. An entry that is online at
  one read and receives no further record is offline at every read later than
  \<open>lastSeen + 10,000\<close>; an entry just written by a record at time \<open>t\<close> is online until
  \<open>t + 10,000\<close>.
\<close>

theorem C9_online_is_computed_from_lastSeen:
  "(\<not> isOffline now d \<longleftrightarrow> now - lastSeen d \<le> 10000)
   \<and> (lastSeen d' = lastSeen d \<longrightarrow> isOffline now d' = isOffline now d)
   \<and> (\<not> isOffline now d \<and> lastSeen d + 10000 < later \<longrightarrow> isOffline later d)
   \<and> count_list (fst (renderDeviceGrid toLowerCase localeCompare now cs selected)) shown
        = count_list (map (\<lambda>entry. (fst entry, \<not> now - lastSeen (snd entry) \<le> 10000)) cs)
            shown
   \<and> length (fst (renderDeviceGrid toLowerCase localeCompare now cs selected)) = length cs
   \<and> (\<forall>key \<in> set (snd (renderDeviceGrid toLowerCase localeCompare now cs selected)).
         \<exists>e. map_of cs key = Some e \<and> now - lastSeen e \<le> 10000)
   \<and> updateDeviceStats now cs
        = (length (filter (\<lambda>entry. now - lastSeen (snd entry) \<le> 10000) cs),
           length (filter (\<lambda>entry. \<not> now - lastSeen (snd entry) \<le> 10000) cs))
   \<and> (\<exists>e. map_of (upsertClient P t pkt rec cs) (client_key pkt rec cs) = Some e
          \<and> (\<not> isOffline now e \<longleftrightarrow> now - t \<le> 10000))"
proof -
  let ?cmp = "compare_cards toLowerCase localeCompare"
  have 1: "\<not> isOffline now d \<longleftrightarrow> now - lastSeen d \<le> 10000" for now d
    by (auto simp: isOffline_def HEARTBEAT_TIMEOUT_MS_def)
  have cards: "fst (renderDeviceGrid toLowerCase localeCompare now cs selected)
        = map (\<lambda>entry. (fst entry, \<not> now - lastSeen (snd entry) \<le> 10000)) (Array_sort ?cmp
            cs)"
    by (cases cs) (simp_all add: renderDeviceGrid_def Let_def 1 [symmetric] Array_sort_def)
  have 4: "count_list (fst (renderDeviceGrid toLowerCase localeCompare now cs selected)) shown
        = count_list (map (\<lambda>entry. (fst entry, \<not> now - lastSeen (snd entry) \<le> 10000)) cs)
            shown"
    unfolding cards by (rule count_list_Array_sort)
  have len: "length (Array_sort ?cmp cs) = length cs"
  proof -
    have "length (insert_sorted ?cmp x ys) = Suc (length ys)" for x ys
      by (induction ys) auto
    then have "length (fold (insert_sorted ?cmp) xs acc) = length xs + length acc" for xs acc
      by (induction xs arbitrary: acc) auto
    then show ?thesis by (simp add: Array_sort_def)
  qed
  have cards_length: "length (fst (renderDeviceGrid toLowerCase localeCompare now cs selected)) = length cs"
    unfolding cards by (simp add: len)
  have selection_online: "\<exists>e. map_of cs key = Some e \<and> now - lastSeen e \<le> 10000"
    if key: "key \<in> set (snd (renderDeviceGrid toLowerCase localeCompare now cs selected))" for key
  proof -
    have nonempty: "cs \<noteq> []" and valid: "map_of cs key \<noteq> None"
      using key by (auto simp: renderDeviceGrid_def Let_def split: if_splits)
    then obtain e where e: "map_of cs key = Some e" by blast
    have drawn: "\<not> list_ex (\<lambda>entry. fst entry = key \<and> isOffline now (snd entry)) (Array_sort
        ?cmp cs)"
      using key nonempty by (auto simp: renderDeviceGrid_def Let_def)
    have "(key, e) \<in> set cs" using e by (rule map_of_SomeD)
    then have "(key, e) \<in> set (Array_sort ?cmp cs)"
      by (simp only: set_Array_sort)
    then have "\<not> isOffline now e"
      using drawn by (auto simp: list_ex_iff)
    then show ?thesis using e 1 by simp
  qed
  have off: "filter (\<lambda>entry. now - lastSeen (snd entry) > 10000) cs
      = filter (\<lambda>entry. \<not> now - lastSeen (snd entry) \<le> 10000) cs"
    by (rule filter_cong) auto
  have on: "length cs - length (filter (\<lambda>entry. \<not> now - lastSeen (snd entry) \<le> 10000) cs)
      = length (filter (\<lambda>entry. now - lastSeen (snd entry) \<le> 10000) cs)"
    using length_filter_complement [of cs "\<lambda>entry. \<not> now - lastSeen (snd entry) \<le> 10000"] by
        simp
  have 5: "updateDeviceStats now cs
        = (length (filter (\<lambda>entry. now - lastSeen (snd entry) \<le> 10000) cs),
           length (filter (\<lambda>entry. \<not> now - lastSeen (snd entry) \<le> 10000) cs))"
    unfolding updateDeviceStats_def Let_def HEARTBEAT_TIMEOUT_MS_def off on ..
  have 6: "\<exists>e. map_of (upsertClient P t pkt rec cs) (client_key pkt rec cs) = Some e
          \<and> (\<not> isOffline now e \<longleftrightarrow> now - t \<le> 10000)"
    by (simp add: map_of_upsertClient 1)
  have 2: "lastSeen d' = lastSeen d \<longrightarrow> isOffline now d' = isOffline now d"
    by (simp add: isOffline_def)
  have 3: "\<not> isOffline now d \<and> lastSeen d + 10000 < later \<longrightarrow> isOffline later d"
    by (auto simp: isOffline_def HEARTBEAT_TIMEOUT_MS_def)
  show ?thesis
    using 1 [of now d] 2 3 4 cards_length selection_online 5 6 by blast
qed

theorem C9_online_is_computed_from_lastSeen_witness:
  "\<not> isOffline 11000 \<lparr>device.deviceId = ''k1'', deviceName = ''Quest'', platform = ''Android'',
      buildVersion = ''1.0'', ipv4 = ''10.0.0.7'', scene = ''Lobby'', commandPort = Some 3939, remoteAddress =
      ''10.0.0.7'', remotePort = 50000, firstSeen = 1000, lastSeen = 1000\<rparr>
   \<and> lastSeen \<lparr>device.deviceId = ''k1'', deviceName = ''Quest'', platform = ''Android'',
       buildVersion = ''1.0'', ipv4 = ''10.0.0.7'', scene = ''Lobby'', commandPort = Some 3939, remoteAddress
       = ''10.0.0.7'', remotePort = 50000, firstSeen = 1000, lastSeen = 1000\<rparr> + 10000 < 11500
   \<and> isOffline 11500 \<lparr>device.deviceId = ''k1'', deviceName = ''Quest'', platform = ''Android'',
       buildVersion = ''1.0'', ipv4 = ''10.0.0.7'', scene = ''Lobby'', commandPort = Some 3939, remoteAddress
       = ''10.0.0.7'', remotePort = 50000, firstSeen = 1000, lastSeen = 1000\<rparr>
   \<and> fst (renderDeviceGrid (\<lambda>s. s) (\<lambda>a b. int (length a) - int (length b)) 11500
       [(''k1'', \<lparr>device.deviceId = ''k1'', deviceName = ''Quest'', platform = ''Android'',
       buildVersion = ''1.0'', ipv4 = ''10.0.0.7'', scene = ''Lobby'', commandPort = Some 3939, remoteAddress
       = ''10.0.0.7'', remotePort = 50000, firstSeen = 1000, lastSeen = 1000\<rparr>), (''k2'',
       \<lparr>device.deviceId = ''k2'', deviceName = ''Go'', platform = ''Android'', buildVersion = ''1.0'',
       ipv4 = ''10.0.0.8'', scene = ''Lobby'', commandPort = Some 3939, remoteAddress = ''10.0.0.8'',
       remotePort = 50001, firstSeen = 5000, lastSeen = 5000\<rparr>)] [''k1'', ''k2'', ''k3'']) = [(''k2'',
       False), (''k1'', True)]
   \<and> count_list (fst (renderDeviceGrid (\<lambda>s. s) (\<lambda>a b. int (length a) - int (length b))
       11500 [(''k1'', \<lparr>device.deviceId = ''k1'', deviceName = ''Quest'', platform = ''Android'',
       buildVersion = ''1.0'', ipv4 = ''10.0.0.7'', scene = ''Lobby'', commandPort = Some 3939, remoteAddress
       = ''10.0.0.7'', remotePort = 50000, firstSeen = 1000, lastSeen = 1000\<rparr>), (''k2'',
       \<lparr>device.deviceId = ''k2'', deviceName = ''Go'', platform = ''Android'', buildVersion = ''1.0'',
       ipv4 = ''10.0.0.8'', scene = ''Lobby'', commandPort = Some 3939, remoteAddress = ''10.0.0.8'',
       remotePort = 50001, firstSeen = 5000, lastSeen = 5000\<rparr>)] [''k1'', ''k2'', ''k3''])) (''k1'',
       True) = 1
   \<and> snd (renderDeviceGrid (\<lambda>s. s) (\<lambda>a b. int (length a) - int (length b)) 11500
       [(''k1'', \<lparr>device.deviceId = ''k1'', deviceName = ''Quest'', platform = ''Android'',
       buildVersion = ''1.0'', ipv4 = ''10.0.0.7'', scene = ''Lobby'', commandPort = Some 3939, remoteAddress
       = ''10.0.0.7'', remotePort = 50000, firstSeen = 1000, lastSeen = 1000\<rparr>), (''k2'',
       \<lparr>device.deviceId = ''k2'', deviceName = ''Go'', platform = ''Android'', buildVersion = ''1.0'',
       ipv4 = ''10.0.0.8'', scene = ''Lobby'', commandPort = Some 3939, remoteAddress = ''10.0.0.8'',
       remotePort = 50001, firstSeen = 5000, lastSeen = 5000\<rparr>)] [''k1'', ''k2'', ''k3'']) = [''k2'']
   \<and> updateDeviceStats 11500 [(''k1'', \<lparr>device.deviceId = ''k1'', deviceName = ''Quest'', platform
       = ''Android'', buildVersion = ''1.0'', ipv4 = ''10.0.0.7'', scene = ''Lobby'', commandPort = Some 3939,
       remoteAddress = ''10.0.0.7'', remotePort = 50000, firstSeen = 1000, lastSeen = 1000\<rparr>), (''k2'',
       \<lparr>device.deviceId = ''k2'', deviceName = ''Go'', platform = ''Android'', buildVersion = ''1.0'',
       ipv4 = ''10.0.0.8'', scene = ''Lobby'', commandPort = Some 3939, remoteAddress = ''10.0.0.8'',
       remotePort = 50001, firstSeen = 5000, lastSeen = 5000\<rparr>)] = (1, 1)"
proof -
  let ?d1 = "\<lparr>device.deviceId = ''k1'', deviceName = ''Quest'', platform = ''Android'', buildVersion =
      ''1.0'', ipv4 = ''10.0.0.7'', scene = ''Lobby'', commandPort = Some 3939, remoteAddress = ''10.0.0.7'',
      remotePort = 50000, firstSeen = 1000, lastSeen = 1000\<rparr>"
  let ?d2 = "\<lparr>device.deviceId = ''k2'', deviceName = ''Go'', platform = ''Android'', buildVersion =
      ''1.0'', ipv4 = ''10.0.0.8'', scene = ''Lobby'', commandPort = Some 3939, remoteAddress = ''10.0.0.8'',
      remotePort = 50001, firstSeen = 5000, lastSeen = 5000\<rparr>"
  let ?cs = "[(''k1'', ?d1), (''k2'', ?d2)]"
  let ?lower = "(\<lambda>s. s) :: string \<Rightarrow> string"
  let ?cmp = "(\<lambda>a b. int (length a) - int (length b)) :: locale_compare"
  let ?sel = "[''k1'', ''k2'', ''k3'']"
  have grid: "renderDeviceGrid ?lower ?cmp 11500 ?cs ?sel = ([(''k2'', False), (''k1'', True)], [''k2''])"
    by (simp add: renderDeviceGrid_def Array_sort_def compare_cards_def or_string_def isOffline_def
          HEARTBEAT_TIMEOUT_MS_def Let_def)
  have online: "\<not> isOffline 11000 ?d1" and later: "lastSeen ?d1 + 10000 < 11500"
    by (simp_all add: isOffline_def HEARTBEAT_TIMEOUT_MS_def)
  have stats: "length (filter (\<lambda>entry. 11500 - lastSeen (snd entry) \<le> 10000) ?cs) = 1"
    "length (filter (\<lambda>entry. \<not> 11500 - lastSeen (snd entry) \<le> 10000) ?cs) = 1"
    by simp_all
  from C9_online_is_computed_from_lastSeen [where now = 11000 and d = ?d1 and d' = ?d1 and later = 11500]
  have offline: "isOffline 11500 ?d1"
    using online later by blast
  from C9_online_is_computed_from_lastSeen [where now = 11500 and cs = ?cs and toLowerCase = ?lower
      and localeCompare = ?cmp and selected = ?sel and shown = "(''k1'', True)"]
  have count: "count_list (fst (renderDeviceGrid ?lower ?cmp 11500 ?cs ?sel)) (''k1'', True)
      = count_list (map (\<lambda>entry. (fst entry, \<not> 11500 - lastSeen (snd entry) \<le> 10000)) ?cs)
          (''k1'', True)"
    and counts: "updateDeviceStats 11500 ?cs
        = (length (filter (\<lambda>entry. 11500 - lastSeen (snd entry) \<le> 10000) ?cs),
           length (filter (\<lambda>entry. \<not> 11500 - lastSeen (snd entry) \<le> 10000) ?cs))"
    by blast+
  have count1: "count_list (fst (renderDeviceGrid ?lower ?cmp 11500 ?cs ?sel)) (''k1'', True) = 1"
    unfolding count by simp
  have stats1: "updateDeviceStats 11500 ?cs = (1, 1)"
    unfolding counts stats ..
  show ?thesis
    using online later offline grid count1 stats1 by simp
qed

section \<open>Dispatch\<close>

lemma EqualsOrdinalIgnoreCase_Some:
  "EqualsOrdinalIgnoreCase (Some x) (Some y) \<longleftrightarrow> map ToUpperInvariant x = map
      ToUpperInvariant y"
  by (simp add: EqualsOrdinalIgnoreCase_def)

lemma TryGetValue_append:
  "TryGetValue k (xs @ [(a, b)]) =
     (case TryGetValue k xs of
        Some v \<Rightarrow> Some v
      | None \<Rightarrow> if EqualsOrdinalIgnoreCase (Some a) (Some k) then Some b else None)"
  by (induction xs) auto

lemma TryGetValue_ignores_case:
  "EqualsOrdinalIgnoreCase (Some k) (Some k') \<Longrightarrow> TryGetValue k xs = TryGetValue k' xs"
  by (induction xs) (auto simp: EqualsOrdinalIgnoreCase_Some)

lemma TryGetValue_AddRuntimeHandler:
  "TryGetValue k (AddRuntimeHandler a h xs) =
     (if EqualsOrdinalIgnoreCase (Some a) (Some k)
      then map_option (\<lambda>b. b\<lparr>RuntimeHandlers := RuntimeHandlers b @ [h]\<rparr>) (TryGetValue k
          xs)
      else TryGetValue k xs)"
  by (induction xs) (auto simp: EqualsOrdinalIgnoreCase_Some)

lemma TryGetValue_BuildBindingLookup_step:
  "TryGetValue k (BuildBindingLookup_step binding acc) =
     (case TryGetValue k acc of
        Some v \<Rightarrow> Some v
      | None \<Rightarrow>
          (case binding of
             None \<Rightarrow> None
           | Some b \<Rightarrow>
               if \<not> IsNullOrWhiteSpace (Action b) \<and> EqualsOrdinalIgnoreCase (Action b) (Some k)
               then Some b else None))"
proof (cases binding)
  case None
  then show ?thesis by (simp add: BuildBindingLookup_step_def split: option.splits)
next
  case outer: (Some x)
  show ?thesis
  proof (cases "Action x")
    case None
    then show ?thesis using outer
      by (simp add: BuildBindingLookup_step_def IsNullOrWhiteSpace_def split: option.splits)
  next
    case act: (Some a)
    have same: "TryGetValue k acc = TryGetValue a acc" if "EqualsOrdinalIgnoreCase (Some a) (Some k)"
      using TryGetValue_ignores_case [OF that, of acc] by simp
    show ?thesis using outer act same
      by (auto simp: BuildBindingLookup_step_def TryGetValue_append split: option.splits)
  qed
qed

lemma TryGetValue_fold_bindings:
  "TryGetValue k (fold BuildBindingLookup_step bs acc) =
     (case TryGetValue k acc of
        Some v \<Rightarrow> Some v
      | None \<Rightarrow> find (\<lambda>b. \<not> IsNullOrWhiteSpace (Action b) \<and>
          EqualsOrdinalIgnoreCase (Action b) (Some k))
                 (List.map_filter (\<lambda>b. b) bs))"
proof (induction bs arbitrary: acc)
  case Nil
  show ?case by (simp add: List.map_filter_simps split: option.splits)
next
  case (Cons binding bs)
  show ?case
    unfolding fold_simps Cons.IH TryGetValue_BuildBindingLookup_step
    by (auto simp: List.map_filter_simps split: option.splits)
qed

lemma TryGetValue_BuildBindingLookup:
  "TryGetValue k (BuildBindingLookup bindings) =
     find (\<lambda>b. \<not> IsNullOrWhiteSpace (Action b) \<and> EqualsOrdinalIgnoreCase (Action b) (Some
         k))
       (List.map_filter (\<lambda>b. b) bindings)"
  by (simp add: BuildBindingLookup_def TryGetValue_fold_bindings)

lemma EqualsOrdinalIgnoreCase_trans:
  "EqualsOrdinalIgnoreCase (Some a) (Some b) \<Longrightarrow> EqualsOrdinalIgnoreCase (Some a) (Some c)
     = EqualsOrdinalIgnoreCase (Some b) (Some c)"
  by (simp add: EqualsOrdinalIgnoreCase_Some)

lemma RegisterHandler_step:
  assumes "a \<noteq> []"
  shows "\<exists>l'. RegisterHandler (Some a) (Some h) l = Inr l'
     \<and> (\<forall>k. map_option (\<lambda>b. (onCommand b, RuntimeHandlers b)) (TryGetValue k l') =
            (if EqualsOrdinalIgnoreCase (Some a) (Some k)
             then Some (case TryGetValue k l of
                          None \<Rightarrow> ([], [h])
                        | Some b \<Rightarrow> (onCommand b, RuntimeHandlers b @ [h]))
             else map_option (\<lambda>b. (onCommand b, RuntimeHandlers b)) (TryGetValue k l)))"
proof (cases "TryGetValue a l")
  case None
  have same: "TryGetValue k l = None" if "EqualsOrdinalIgnoreCase (Some a) (Some k)" for k
    using TryGetValue_ignores_case [OF that, of l] None by simp
  show ?thesis using assms None same
    by (auto simp: RegisterHandler_def TryGetValue_append split: option.splits)
next
  case (Some binding)
  have same: "TryGetValue k l = Some binding" if "EqualsOrdinalIgnoreCase (Some a) (Some k)" for k
    using TryGetValue_ignores_case [OF that, of l] Some by simp
  show ?thesis using assms Some same
    by (auto simp: RegisterHandler_def TryGetValue_AddRuntimeHandler split: option.splits)
qed

lemma RegisterHandler_calls_lookup:
  assumes "\<forall>r \<in> set registrations. fst r \<noteq> []"
  shows "\<exists>l'. RegisterHandler_calls registrations l = Inr l'
     \<and> (\<forall>k. map_option (\<lambda>b. (onCommand b, RuntimeHandlers b)) (TryGetValue k l') =
            (let runtime = map snd (filter (\<lambda>r. EqualsOrdinalIgnoreCase (Some (fst r)) (Some k))
                registrations)
             in case TryGetValue k l of
                  None \<Rightarrow> if runtime = [] then None else Some ([], runtime)
                | Some b \<Rightarrow> Some (onCommand b, RuntimeHandlers b @ runtime)))"
  using assms
proof (induction registrations arbitrary: l)
  case Nil
  show ?case by (simp add: split: option.splits)
next
  case (Cons r rest)
  obtain a h where r: "r = (a, h)" by (cases r)
  have a: "a \<noteq> []" using Cons.prems r by simp
  from RegisterHandler_step [OF a, of h l]
  obtain l1 where l1: "RegisterHandler (Some a) (Some h) l = Inr l1"
    and v1: "\<And>k. map_option (\<lambda>b. (onCommand b, RuntimeHandlers b)) (TryGetValue k l1) =
            (if EqualsOrdinalIgnoreCase (Some a) (Some k)
             then Some (case TryGetValue k l of
                          None \<Rightarrow> ([], [h])
                        | Some b \<Rightarrow> (onCommand b, RuntimeHandlers b @ [h]))
             else map_option (\<lambda>b. (onCommand b, RuntimeHandlers b)) (TryGetValue k l))"
    by blast
  have rest: "\<forall>r \<in> set rest. fst r \<noteq> []" using Cons.prems by simp
  from Cons.IH [OF rest, of l1]
  obtain l2 where l2: "RegisterHandler_calls rest l1 = Inr l2"
    and v2: "\<And>k. map_option (\<lambda>b. (onCommand b, RuntimeHandlers b)) (TryGetValue k l2) =
            (let runtime = map snd (filter (\<lambda>r. EqualsOrdinalIgnoreCase (Some (fst r)) (Some k)) rest)
             in case TryGetValue k l1 of
                  None \<Rightarrow> if runtime = [] then None else Some ([], runtime)
                | Some b \<Rightarrow> Some (onCommand b, RuntimeHandlers b @ runtime))"
    by blast
  have calls: "RegisterHandler_calls (r # rest) l = Inr l2"
    using l1 l2 r by simp
  have "map_option (\<lambda>b. (onCommand b, RuntimeHandlers b)) (TryGetValue k l2) =
            (let runtime = map snd (filter (\<lambda>r. EqualsOrdinalIgnoreCase (Some (fst r)) (Some k)) (r #
                rest))
             in case TryGetValue k l of
                  None \<Rightarrow> if runtime = [] then None else Some ([], runtime)
                | Some b \<Rightarrow> Some (onCommand b, RuntimeHandlers b @ runtime))" for k
    using v1 [of k] v2 [of k] r
    by (auto simp: Let_def split: option.splits if_splits)
  then show ?case using calls by blast
qed


lemma lookup_matching_handlers:
  assumes "\<forall>r \<in> set registrations. fst r \<noteq> []"
  shows "\<exists>lookup. RegisterHandler_calls registrations (BuildBindingLookup bindings) = Inr lookup
     \<and> (\<forall>k. map_option (\<lambda>b. onCommand b @ RuntimeHandlers b) (TryGetValue k lookup)
            = matching_handlers bindings registrations k)"
proof -
  from RegisterHandler_calls_lookup [OF assms, of "BuildBindingLookup bindings"]
  obtain lookup where l: "RegisterHandler_calls registrations (BuildBindingLookup bindings) = Inr lookup"
    and v: "\<And>k. map_option (\<lambda>b. (onCommand b, RuntimeHandlers b)) (TryGetValue k lookup) =
            (let runtime = map snd (filter (\<lambda>r. EqualsOrdinalIgnoreCase (Some (fst r)) (Some k))
                registrations)
             in case TryGetValue k (BuildBindingLookup bindings) of
                  None \<Rightarrow> if runtime = [] then None else Some ([], runtime)
                | Some b \<Rightarrow> Some (onCommand b, RuntimeHandlers b @ runtime))"
    by blast
  have "map_option (\<lambda>b. onCommand b @ RuntimeHandlers b) (TryGetValue k lookup)
            = matching_handlers bindings registrations k" for k
    using v [of k]
    by (cases "TryGetValue k lookup")
       (auto simp: matching_handlers_def TryGetValue_BuildBindingLookup Let_def
             split: option.splits if_splits)
  then show ?thesis using l by blast
qed

lemma matching_handlers_ignores_case:
  assumes "EqualsOrdinalIgnoreCase (Some a) (Some a2)"
  shows "matching_handlers bindings registrations a2 = matching_handlers bindings registrations a"
proof -
  have eq: "EqualsOrdinalIgnoreCase x (Some a2) = EqualsOrdinalIgnoreCase x (Some a)" for x
    using assms by (cases x) (auto simp: EqualsOrdinalIgnoreCase_def)
  show ?thesis unfolding matching_handlers_def eq ..
qed

lemma count_list_Invoke: "count_list (map (\<lambda>h'. Invoke h' m) hs) (Invoke h m) = count_list hs h"
  by (induction hs) auto

lemma raises_append: "raises (xs @ ys) \<longleftrightarrow> raises xs \<or> raises ys"
  by (simp add: raises_def)

lemma raises_Invoke: "\<not> raises (map (\<lambda>h. Invoke h m) hs)"
  by (simp add: raises_def list_ex_iff)

lemma round_enqueued_pending:
  assumes "fst (ListenLoop_round H FromJson cfg clock datagram st) = Enqueued"
    and "ParseMessage FromJson (fst datagram) = Inr (Some m)"
  shows "pendingCommands (snd (ListenLoop_round H FromJson cfg clock datagram st))
           = pendingCommands st @ [(m, Some (snd datagram))]"
  using assms
  by (auto simp: ListenLoop_round_def Let_def split: sum.splits bool.splits prod.splits if_splits)

text \<open>
  C3 (amended). The dispatcher looks the handlers up by comparing the envelope's action
  with the registered actions ignoring letter case (the dictionary is built with the
  ordinal case-insensitive comparer). Let the listener be set up from the Inspector's
  bindings and then by any sequence of calls of \<open>RegisterHandler\<close> with non-empty actions.
  The dispatch of an envelope then runs the general listeners, then exactly the handlers
  registered for the envelope's action up to letter case, each once for each of its
  registrations: the listeners of the first Inspector binding with that action (a later
  Inspector binding whose action differs only in case is ignored), followed by the
  handlers registered at run time under any spelling of the action, which all join the
  one binding; when nothing is registered for the action, it runs no specific handler
  and logs a warning. The acknowledgement follows. The same holds of the frame update
  that follows the admission of the envelope into an empty queue, and two actions that
  differ only in case have the same handlers.
\<close>

theorem C3_dispatch_matches_ignoring_case:
  assumes "\<forall>r \<in> set registrations. fst r \<noteq> []" and "action m = Some a"
  shows "\<exists>lookup. RegisterHandler_calls registrations (BuildBindingLookup bindings) = Inr lookup
     \<and> (\<forall>remote. DispatchCommand (d\<lparr>bindingLookup := lookup\<rparr>) t (m, remote)
         = map (\<lambda>h. Invoke h m) (onCommandReceived d) @ map (\<lambda>h. Invoke h m) (CommandReceived
             d)
           @ (case matching_handlers bindings registrations a of
                None \<Rightarrow> [LogWarning]
              | Some handlers \<Rightarrow> map (\<lambda>h. Invoke h m) handlers)
           @ (case remote of
                None \<Rightarrow> []
              | Some r \<Rightarrow> if sendAcknowledgement d then SendAcknowledgement d t m r else []))
     \<and> count_list (DispatchCommand (d\<lparr>bindingLookup := lookup\<rparr>) t (m, remote)) (Invoke h m)
         = count_list (onCommandReceived d) h + count_list (CommandReceived d) h
           + (case matching_handlers bindings registrations a of
                None \<Rightarrow> 0
              | Some handlers \<Rightarrow> count_list handlers h)
     \<and> (fst (ListenLoop_round H FromJson cfg clock datagram st) = Enqueued
           \<and> ParseMessage FromJson (fst datagram) = Inr (Some m) \<and> pendingCommands st = []
               \<longrightarrow>
         Update (d\<lparr>bindingLookup := lookup\<rparr>) t (snd (ListenLoop_round H FromJson cfg clock
             datagram st))
           = (DispatchCommand (d\<lparr>bindingLookup := lookup\<rparr>) t (m, Some (snd datagram)),
              (snd (ListenLoop_round H FromJson cfg clock datagram st))\<lparr>pendingCommands := []\<rparr>))
     \<and> (EqualsOrdinalIgnoreCase (Some a) (Some a2) \<longrightarrow>
           matching_handlers bindings registrations a2 = matching_handlers bindings registrations a)"
proof -
  from lookup_matching_handlers [OF assms(1), of bindings]
  obtain lookup where l: "RegisterHandler_calls registrations (BuildBindingLookup bindings) = Inr lookup"
    and v: "\<And>k. map_option (\<lambda>b. onCommand b @ RuntimeHandlers b) (TryGetValue k lookup)
            = matching_handlers bindings registrations k"
    by blast
  let ?d = "d\<lparr>bindingLookup := lookup\<rparr>"
  let ?specific = "case matching_handlers bindings registrations a of
                None \<Rightarrow> [LogWarning]
              | Some handlers \<Rightarrow> map (\<lambda>h. Invoke h m) handlers"
  let ?ack = "\<lambda>remote. case remote of
                None \<Rightarrow> []
              | Some r \<Rightarrow> if sendAcknowledgement d then SendAcknowledgement d t m r else []"
  have specific: "(case TryGetValue a lookup of
                Some binding \<Rightarrow> Binding_Invoke binding m
              | None \<Rightarrow> [LogWarning]) = ?specific"
    using v [of a, symmetric] by (cases "TryGetValue a lookup") (simp_all add: Binding_Invoke_def)
  have ack: "SendAcknowledgement ?d t m r = SendAcknowledgement d t m r" for r
    by (simp add: SendAcknowledgement_def)
  have dispatch: "DispatchCommand ?d t (m, remote)
         = map (\<lambda>h. Invoke h m) (onCommandReceived d) @ map (\<lambda>h. Invoke h m) (CommandReceived
             d)
           @ ?specific @ ?ack remote" for remote
    using assms(2) specific by (simp add: DispatchCommand_def Let_def ack split: option.splits)
  have count_ack: "count_list (?ack remote) (Invoke h m) = 0"
    by (simp add: SendAcknowledgement_def split: option.splits)
  have count_specific: "count_list ?specific (Invoke h m)
      = (case matching_handlers bindings registrations a of
                None \<Rightarrow> 0
              | Some handlers \<Rightarrow> count_list handlers h)"
    by (simp add: count_list_Invoke split: option.splits)
  have count: "count_list (DispatchCommand ?d t (m, remote)) (Invoke h m)
         = count_list (onCommandReceived d) h + count_list (CommandReceived d) h
           + (case matching_handlers bindings registrations a of
                None \<Rightarrow> 0
              | Some handlers \<Rightarrow> count_list handlers h)"
    unfolding dispatch count_list_append count_list_Invoke count_specific count_ack by simp
  have quiet: "\<not> raises (DispatchCommand ?d t (m, remote))" for remote
  proof -
    have "\<not> raises ?specific"
      by (cases "matching_handlers bindings registrations a") (simp_all add: raises_Invoke, simp add:
          raises_def)
    moreover have "\<not> raises (?ack remote)"
      by (simp add: raises_def SendAcknowledgement_def split: option.splits)
    ultimately show ?thesis
      unfolding dispatch by (simp only: raises_append raises_Invoke simp_thms)
  qed
  have update: "Update ?d t (snd (ListenLoop_round H FromJson cfg clock datagram st))
           = (DispatchCommand ?d t (m, Some (snd datagram)),
              (snd (ListenLoop_round H FromJson cfg clock datagram st))\<lparr>pendingCommands := []\<rparr>)"
    if "fst (ListenLoop_round H FromJson cfg clock datagram st) = Enqueued"
      "ParseMessage FromJson (fst datagram) = Inr (Some m)" "pendingCommands st = []"
    using round_enqueued_pending [OF that(1,2)] that(3) quiet [of "Some (snd datagram)"]
    by (simp add: Update_def Let_def)
  show ?thesis
    using l dispatch count update matching_handlers_ignores_case [of a a2 bindings registrations]
    by blast
qed


lemma beep_ignoring_case: "EqualsOrdinalIgnoreCase (Some ''bEEp'') (Some ''BEEP'')"
  by code_simp

theorem C3_dispatch_matches_ignoring_case_witness:
  "list_all (\<lambda>r. fst r \<noteq> []) [(''BEEP'', 3), (''other'', 4), (''beeP'', 5)]
   \<and> action \<lparr>cmdId = None, action = Some ''bEEp'', payload = None, timestamp = 0, signature =
       None\<rparr> = Some ''bEEp''
   \<and> RegisterHandler_calls [(''BEEP'', 3), (''other'', 4), (''beeP'', 5)] (BuildBindingLookup [Some
       \<lparr>Action = Some ''beep'', onCommand = [1::nat], RuntimeHandlers = []\<rparr>, Some \<lparr>Action
       = Some ''Beep'', onCommand = [2], RuntimeHandlers = []\<rparr>, None]) = Inr [(''beep'', \<lparr>Action
       = Some ''beep'', onCommand = [1::nat], RuntimeHandlers = [3, 5]\<rparr>), (''other'', \<lparr>Action =
       Some ''other'', onCommand = [], RuntimeHandlers = [4]\<rparr>)]
   \<and> matching_handlers [Some \<lparr>Action = Some ''beep'', onCommand = [1::nat], RuntimeHandlers =
       []\<rparr>, Some \<lparr>Action = Some ''Beep'', onCommand = [2], RuntimeHandlers = []\<rparr>, None]
       [(''BEEP'', 3), (''other'', 4), (''beeP'', 5)] ''bEEp'' = Some [1, 3, 5]
   \<and> matching_handlers [Some \<lparr>Action = Some ''beep'', onCommand = [1::nat], RuntimeHandlers =
       []\<rparr>, Some \<lparr>Action = Some ''Beep'', onCommand = [2], RuntimeHandlers = []\<rparr>, None]
       [(''BEEP'', 3), (''other'', 4), (''beeP'', 5)] ''BEEP'' = Some [1, 3, 5]
   \<and> DispatchCommand (\<lparr>onCommandReceived = [], CommandReceived = [], bindingLookup = [(''beep'',
       \<lparr>Action = Some ''beep'', onCommand = [1::nat], RuntimeHandlers = [3, 5]\<rparr>), (''other'',
       \<lparr>Action = Some ''other'', onCommand = [], RuntimeHandlers = [4]\<rparr>)], sendAcknowledgement =
       False, ackClientOpen = False\<rparr>) 0 (\<lparr>cmdId = None, action = Some ''bEEp'', payload = None,
       timestamp = 0, signature = None\<rparr>, None) = [Invoke 1 \<lparr>cmdId = None, action = Some
       ''bEEp'', payload = None, timestamp = 0, signature = None\<rparr>, Invoke 3 \<lparr>cmdId = None,
       action = Some ''bEEp'', payload = None, timestamp = 0, signature = None\<rparr>, Invoke 5 \<lparr>cmdId
       = None, action = Some ''bEEp'', payload = None, timestamp = 0, signature = None\<rparr>]
   \<and> count_list (DispatchCommand (\<lparr>onCommandReceived = [], CommandReceived = [], bindingLookup =
       [(''beep'', \<lparr>Action = Some ''beep'', onCommand = [1::nat], RuntimeHandlers = [3, 5]\<rparr>),
       (''other'', \<lparr>Action = Some ''other'', onCommand = [], RuntimeHandlers = [4]\<rparr>)],
       sendAcknowledgement = False, ackClientOpen = False\<rparr>) 0 (\<lparr>cmdId = None, action = Some
       ''bEEp'', payload = None, timestamp = 0, signature = None\<rparr>, None)) (Invoke 3 \<lparr>cmdId =
       None, action = Some ''bEEp'', payload = None, timestamp = 0, signature = None\<rparr>) = 1
   \<and> count_list (DispatchCommand (\<lparr>onCommandReceived = [], CommandReceived = [], bindingLookup =
       [(''beep'', \<lparr>Action = Some ''beep'', onCommand = [1::nat], RuntimeHandlers = [3, 5]\<rparr>),
       (''other'', \<lparr>Action = Some ''other'', onCommand = [], RuntimeHandlers = [4]\<rparr>)],
       sendAcknowledgement = False, ackClientOpen = False\<rparr>) 0 (\<lparr>cmdId = None, action = Some
       ''bEEp'', payload = None, timestamp = 0, signature = None\<rparr>, None)) (Invoke 2 \<lparr>cmdId =
       None, action = Some ''bEEp'', payload = None, timestamp = 0, signature = None\<rparr>) = 0
   \<and> fst (ListenLoop_round (\<lambda>key text. 0) (\<lambda>json. Inr (Some \<lparr>cmdId = None, action
       = Some ''bEEp'', payload = None, timestamp = 0, signature = None\<rparr>)) \<lparr>sharedSecret = None,
       staleCommandWindowSeconds = 5\<rparr> \<lparr>staleClock = 17000000010000000, insertClock = 1700000001,
       pruneClock = 1700000001\<rparr> (''json'', \<lparr>Address = ''10.0.0.7'', Port = 50000\<rparr>)
       \<lparr>processedCommands = [], pendingCommands = []\<rparr>) = Enqueued
   \<and> fst (Update (\<lparr>onCommandReceived = [], CommandReceived = [], bindingLookup = [(''beep'',
       \<lparr>Action = Some ''beep'', onCommand = [1::nat], RuntimeHandlers = [3, 5]\<rparr>), (''other'',
       \<lparr>Action = Some ''other'', onCommand = [], RuntimeHandlers = [4]\<rparr>)], sendAcknowledgement =
       False, ackClientOpen = False\<rparr>) 0 (snd (ListenLoop_round (\<lambda>key text. 0) (\<lambda>json.
       Inr (Some \<lparr>cmdId = None, action = Some ''bEEp'', payload = None, timestamp = 0, signature =
       None\<rparr>)) \<lparr>sharedSecret = None, staleCommandWindowSeconds = 5\<rparr> \<lparr>staleClock =
       17000000010000000, insertClock = 1700000001, pruneClock = 1700000001\<rparr> (''json'', \<lparr>Address
       = ''10.0.0.7'', Port = 50000\<rparr>) \<lparr>processedCommands = [], pendingCommands = []\<rparr>))) =
       [Invoke 1 \<lparr>cmdId = None, action = Some ''bEEp'', payload = None, timestamp = 0, signature =
       None\<rparr>, Invoke 3 \<lparr>cmdId = None, action = Some ''bEEp'', payload = None, timestamp = 0,
       signature = None\<rparr>, Invoke 5 \<lparr>cmdId = None, action = Some ''bEEp'', payload = None,
       timestamp = 0, signature = None\<rparr>]
   \<and> pendingCommands (snd (Update (\<lparr>onCommandReceived = [], CommandReceived = [], bindingLookup =
       [(''beep'', \<lparr>Action = Some ''beep'', onCommand = [1::nat], RuntimeHandlers = [3, 5]\<rparr>),
       (''other'', \<lparr>Action = Some ''other'', onCommand = [], RuntimeHandlers = [4]\<rparr>)],
       sendAcknowledgement = False, ackClientOpen = False\<rparr>) 0 (snd (ListenLoop_round (\<lambda>key
       text. 0) (\<lambda>json. Inr (Some \<lparr>cmdId = None, action = Some ''bEEp'', payload = None,
       timestamp = 0, signature = None\<rparr>)) \<lparr>sharedSecret = None, staleCommandWindowSeconds =
       5\<rparr> \<lparr>staleClock = 17000000010000000, insertClock = 1700000001, pruneClock =
       1700000001\<rparr> (''json'', \<lparr>Address = ''10.0.0.7'', Port = 50000\<rparr>)
       \<lparr>processedCommands = [], pendingCommands = []\<rparr>)))) = []"
proof -
  let ?regs = "[(''BEEP'', 3), (''other'', 4), (''beeP'', 5)] :: (string \<times> nat) list"
  let ?bindings = "[Some \<lparr>Action = Some ''beep'', onCommand = [1::nat], RuntimeHandlers = []\<rparr>,
      Some \<lparr>Action = Some ''Beep'', onCommand = [2], RuntimeHandlers = []\<rparr>, None]"
  let ?lookup = "[(''beep'', \<lparr>Action = Some ''beep'', onCommand = [1::nat], RuntimeHandlers = [3,
      5]\<rparr>), (''other'', \<lparr>Action = Some ''other'', onCommand = [], RuntimeHandlers =
      [4]\<rparr>)]"
  let ?m = "\<lparr>cmdId = None, action = Some ''bEEp'', payload = None, timestamp = 0, signature =
      None\<rparr>"
  let ?d = "\<lparr>onCommandReceived = [], CommandReceived = [], bindingLookup = [], sendAcknowledgement =
      False, ackClientOpen = False\<rparr> :: nat dispatcher"
  let ?H = "(\<lambda>key text. 0) :: hmacsha256"
  let ?FJ = "(\<lambda>json. Inr (Some \<lparr>cmdId = None, action = Some ''bEEp'', payload = None, timestamp
      = 0, signature = None\<rparr>)) :: from_json"
  let ?cfg = "\<lparr>sharedSecret = None, staleCommandWindowSeconds = 5\<rparr>"
  let ?clk = "\<lparr>staleClock = 17000000010000000, insertClock = 1700000001, pruneClock =
      1700000001\<rparr>"
  let ?dg = "(''json'', \<lparr>Address = ''10.0.0.7'', Port = 50000\<rparr>)"
  let ?st = "\<lparr>processedCommands = [], pendingCommands = []\<rparr>"
  have regs: "\<forall>r \<in> set ?regs. fst r \<noteq> []" by simp
  have act: "action ?m = Some ''bEEp''" by simp
  have calls: "RegisterHandler_calls ?regs (BuildBindingLookup ?bindings) = Inr ?lookup"
    by code_simp
  have handlers: "matching_handlers ?bindings ?regs ''bEEp'' = Some [1, 3, 5]"
    by code_simp
  have parse: "ParseMessage ?FJ (fst ?dg) = Inr (Some ?m)"
    by (simp add: ParseMessage_def IsNullOrWhiteSpace_def IsWhiteSpace_def IsNullOrEmpty_def)
  have enq: "fst (ListenLoop_round ?H ?FJ ?cfg ?clk ?dg ?st) = Enqueued"
    using parse
    by (simp add: ListenLoop_round_def IsAuthorized_def IsNullOrEmpty_def IsStale_def IsStale_with_def
        RegisterCommandId_def)
  from C3_dispatch_matches_ignoring_case [OF regs act, where bindings = ?bindings and d = ?d and t = 0
      and remote = None and h = 3 and H = ?H and FromJson = ?FJ and cfg = ?cfg and clock = ?clk
      and datagram = ?dg and st = ?st and ?a2.0 = "''BEEP''"]
  obtain lookup where l: "RegisterHandler_calls ?regs (BuildBindingLookup ?bindings) = Inr lookup"
    and dispatch: "\<And>remote. DispatchCommand (?d\<lparr>bindingLookup := lookup\<rparr>) 0 (?m, remote)
         = map (\<lambda>h. Invoke h ?m) (onCommandReceived ?d) @ map (\<lambda>h. Invoke h ?m)
             (CommandReceived ?d)
           @ (case matching_handlers ?bindings ?regs ''bEEp'' of
                None \<Rightarrow> [LogWarning]
              | Some handlers \<Rightarrow> map (\<lambda>h. Invoke h ?m) handlers)
           @ (case remote of
                None \<Rightarrow> []
              | Some r \<Rightarrow> if sendAcknowledgement ?d then SendAcknowledgement ?d 0 ?m r else [])"
    and update: "fst (ListenLoop_round ?H ?FJ ?cfg ?clk ?dg ?st) = Enqueued
           \<and> ParseMessage ?FJ (fst ?dg) = Inr (Some ?m) \<and> pendingCommands ?st = [] \<longrightarrow>
         Update (?d\<lparr>bindingLookup := lookup\<rparr>) 0 (snd (ListenLoop_round ?H ?FJ ?cfg ?clk ?dg
             ?st))
           = (DispatchCommand (?d\<lparr>bindingLookup := lookup\<rparr>) 0 (?m, Some (snd ?dg)),
              (snd (ListenLoop_round ?H ?FJ ?cfg ?clk ?dg ?st))\<lparr>pendingCommands := []\<rparr>)"
    and same: "EqualsOrdinalIgnoreCase (Some ''bEEp'') (Some ''BEEP'') \<longrightarrow>
           matching_handlers ?bindings ?regs ''BEEP'' = matching_handlers ?bindings ?regs ''bEEp''"
    by blast
  have lookup: "lookup = ?lookup" using l calls by simp
  have d: "?d\<lparr>bindingLookup := ?lookup\<rparr> = \<lparr>onCommandReceived = [], CommandReceived = [],
      bindingLookup = [(''beep'', \<lparr>Action = Some ''beep'', onCommand = [1::nat], RuntimeHandlers = [3,
      5]\<rparr>), (''other'', \<lparr>Action = Some ''other'', onCommand = [], RuntimeHandlers =
      [4]\<rparr>)], sendAcknowledgement = False, ackClientOpen = False\<rparr>" by simp
  have run: "DispatchCommand (\<lparr>onCommandReceived = [], CommandReceived = [], bindingLookup =
      [(''beep'', \<lparr>Action = Some ''beep'', onCommand = [1::nat], RuntimeHandlers = [3, 5]\<rparr>),
      (''other'', \<lparr>Action = Some ''other'', onCommand = [], RuntimeHandlers = [4]\<rparr>)],
      sendAcknowledgement = False, ackClientOpen = False\<rparr>) 0 (?m, remote) = [Invoke 1 ?m, Invoke 3 ?m,
      Invoke 5 ?m]" for remote
    using dispatch [of remote] unfolding lookup d handlers by (simp split: option.splits)
  have upper: "matching_handlers ?bindings ?regs ''BEEP'' = Some [1, 3, 5]"
    using same beep_ignoring_case handlers by simp
  have upd: "Update (\<lparr>onCommandReceived = [], CommandReceived = [], bindingLookup = [(''beep'',
      \<lparr>Action = Some ''beep'', onCommand = [1::nat], RuntimeHandlers = [3, 5]\<rparr>), (''other'',
      \<lparr>Action = Some ''other'', onCommand = [], RuntimeHandlers = [4]\<rparr>)], sendAcknowledgement =
      False, ackClientOpen = False\<rparr>) 0 (snd (ListenLoop_round ?H ?FJ ?cfg ?clk ?dg ?st))
           = ([Invoke 1 ?m, Invoke 3 ?m, Invoke 5 ?m],
              (snd (ListenLoop_round ?H ?FJ ?cfg ?clk ?dg ?st))\<lparr>pendingCommands := []\<rparr>)"
    using update enq parse unfolding lookup d run by simp
  show ?thesis
    unfolding upd run using calls handlers upper enq by simp
qed

text \<open>
  The claim as stated fails: handlers registered at run time under \<open>beep\<close> and \<open>Beep\<close> end
  in one binding, and an envelope with action \<open>BEEP\<close> runs the handler registered under
  \<open>beep\<close>; of two Inspector bindings \<open>beep\<close> and \<open>Beep\<close> only the first is kept, and it
  answers an envelope with action \<open>Beep\<close>.
\<close>

theorem C3_counterexample:
  "RegisterHandler (Some ''beep'') (Some 1) [] = Inr [(''beep'', \<lparr>Action = Some ''beep'', onCommand =
      [],
      RuntimeHandlers = [1::nat]\<rparr>)]
   \<and> RegisterHandler (Some ''Beep'') (Some 2) [(''beep'', \<lparr>Action = Some ''beep'', onCommand = [],
       RuntimeHandlers = [1::nat]\<rparr>)] = Inr [(''beep'', \<lparr>Action = Some ''beep'', onCommand = [],
       RuntimeHandlers = [1::nat, 2]\<rparr>)]
   \<and> DispatchCommand \<lparr>onCommandReceived = [], CommandReceived = [], bindingLookup = [(''beep'',
       \<lparr>Action = Some ''beep'', onCommand = [], RuntimeHandlers = [1::nat]\<rparr>)],
           sendAcknowledgement
       = False, ackClientOpen = False\<rparr> 0 (\<lparr>cmdId = None, action = Some ''BEEP'', payload = None,
       timestamp = 0, signature = None\<rparr>, None) = [Invoke 1 \<lparr>cmdId = None, action = Some
           ''BEEP'',
       payload = None, timestamp = 0, signature = None\<rparr>]
   \<and> BuildBindingLookup [Some \<lparr>Action = Some ''beep'', onCommand = [1::nat], RuntimeHandlers =
       []\<rparr>,
       Some \<lparr>Action = Some ''Beep'', onCommand = [2], RuntimeHandlers = []\<rparr>]
       = [(''beep'', \<lparr>Action = Some ''beep'', onCommand = [1], RuntimeHandlers = []\<rparr>)]
   \<and> DispatchCommand \<lparr>onCommandReceived = [], CommandReceived = [], bindingLookup = [(''beep'',
       \<lparr>Action = Some ''beep'', onCommand = [1::nat], RuntimeHandlers = []\<rparr>)],
           sendAcknowledgement
       = False, ackClientOpen = False\<rparr> 0 (\<lparr>cmdId = None, action = Some ''Beep'', payload = None,
       timestamp = 0, signature = None\<rparr>, None) = [Invoke 1 \<lparr>cmdId = None, action = Some
           ''Beep'',
       payload = None, timestamp = 0, signature = None\<rparr>]"
  by code_simp

section \<open>Host discovery\<close>

lemma address_10_0_0_5_resolved:
  "\<not> IsNullOrWhiteSpace (Some ''10.0.0.5'')"
  "\<not> EqualsOrdinalIgnoreCase (Some ''10.0.0.5'') (Some ''auto'')"
  by code_simp+

lemma upper_10_0_0_5: "map ToUpperInvariant ''10.0.0.5'' = ''10.0.0.5''"
  by code_simp

lemma upper_auto: "map ToUpperInvariant ''auto'' = ''AUTO''"
  by code_simp

lemma IsWhiteSpace_upper: "IsWhiteSpace c \<Longrightarrow> ToUpperInvariant c = c"
  by (auto simp: IsWhiteSpace_def ToUpperInvariant_def Let_def)

lemma one_not_white: "\<not> IsWhiteSpace CHR ''1''"
  by code_simp

lemma unresolved_differs:
  assumes "\<not> IsHostResolved st"
  shows "\<not> EqualsOrdinalIgnoreCase (UdpClientReporter.hostAddress st) (Some ''10.0.0.5'')"
proof (cases "UdpClientReporter.hostAddress st")
  case None
  then show ?thesis by (simp add: EqualsOrdinalIgnoreCase_def)
next
  case (Some x)
  show ?thesis
  proof
    assume "EqualsOrdinalIgnoreCase (UdpClientReporter.hostAddress st) (Some ''10.0.0.5'')"
    then have "map ToUpperInvariant x = map ToUpperInvariant ''10.0.0.5''"
      by (simp add: Some EqualsOrdinalIgnoreCase_def del: list.map)
    then have up: "map ToUpperInvariant x = ''10.0.0.5''"
      by (simp only: upper_10_0_0_5)
    from assms Some
    have "list_all IsWhiteSpace x \<or> map ToUpperInvariant x = map ToUpperInvariant ''auto''"
      by (auto simp: IsHostResolved_def IsNullOrWhiteSpace_def EqualsOrdinalIgnoreCase_def simp del: list.map)
    then show False
    proof
      assume white: "list_all IsWhiteSpace x"
      then have "map ToUpperInvariant x = x"
        by (induction x) (auto simp: IsWhiteSpace_upper)
      with up have "x = ''10.0.0.5''" by simp
      with white one_not_white show False by simp
    next
      assume "map ToUpperInvariant x = map ToUpperInvariant ''auto''"
      with up have "''10.0.0.5'' = map ToUpperInvariant ''auto''" by (simp del: list.map)
      then have "''10.0.0.5'' = ''AUTO''" by (simp only: upper_auto)
      then show False by simp
    qed
  qed
qed

lemma ApplyHostAnnouncement_cases:
  "ApplyHostAnnouncement ann remote st =
     (let resolvedAddress =
            (if \<not> IsNullOrWhiteSpace (case ann of None \<Rightarrow> None | Some p \<Rightarrow>
                HostAnnouncementPayload.hostAddress p)
             then (case ann of None \<Rightarrow> None | Some p \<Rightarrow>
                 HostAnnouncementPayload.hostAddress p)
             else map_option Address remote);
          resolvedPort =
            (case ann of
               None \<Rightarrow> UdpClientReporter.hostPort st
             | Some p \<Rightarrow> if HostAnnouncementPayload.hostPort p > 0 then
                 HostAnnouncementPayload.hostPort p
                         else UdpClientReporter.hostPort st)
      in if IsNullOrWhiteSpace resolvedAddress then (False, st)
         else if \<not> EqualsOrdinalIgnoreCase (UdpClientReporter.hostAddress st) resolvedAddress
                 \<or> resolvedPort \<noteq> UdpClientReporter.hostPort st
         then (True, st\<lparr>UdpClientReporter.hostAddress := resolvedAddress,
                        UdpClientReporter.hostPort := resolvedPort, discoveryPort := resolvedPort,
                        cachedEndpoint := None, cachedHostAddress := None,
                        hasSentRegistration := False, hasLoggedMissingHost := False\<rparr>)
         else (True, st\<lparr>UdpClientReporter.hostAddress := resolvedAddress,
                        UdpClientReporter.hostPort := resolvedPort, discoveryPort := resolvedPort,
                        hasLoggedMissingHost := False\<rparr>))"
  by (auto simp: ApplyHostAnnouncement_def Let_def ResetCachedEndpoint_def split: option.splits)

lemma RegisterClient_fresh:
  assumes "UdpClientReporter.hostAddress st = Some host" and "IsHostResolved st"
    and "cachedEndpoint st = None"
    and "G host = Inr ((InterNetwork, ip) # others)"
    and "T \<lparr>Address = ip, Port = UdpClientReporter.hostPort st\<rparr>"
    and "0 \<le> UdpClientReporter.hostPort st" and "UdpClientReporter.hostPort st \<le> 65535"
  shows "fst (RegisterClient G T st) = Some \<lparr>Address = ip, Port = UdpClientReporter.hostPort
      st\<rparr>"
    and "hasSentRegistration (snd (RegisterClient G T st))"
  using assms
  by (simp_all add: RegisterClient_def SendCommand_def EnsureHostReady_def TryResolveEndpoint_def
        new_IPEndPoint_def IsHostResolved_def Let_def)

lemma ToUpperInvariant_below_A:
  assumes "ToUpperInvariant c = d" and "(of_char d :: nat) < 65"
  shows "c = d"
proof (rule ccontr)
  assume "c \<noteq> d"
  with assms(1) have rng: "(97 \<le> (of_char c :: nat) \<and> (of_char c :: nat) \<le> 122)
      \<or> (224 \<le> (of_char c :: nat) \<and> (of_char c :: nat) \<le> 254 \<and> (of_char c :: nat)
          \<noteq> 247)"
    and d: "d = char_of ((of_char c :: nat) - 32)"
    by (auto simp: ToUpperInvariant_def Let_def split: if_splits)
  have "(of_char d :: nat) = ((of_char c :: nat) - 32) mod 256"
    unfolding d by simp
  also have "\<dots> = (of_char c :: nat) - 32"
  proof -
    have "(of_char c :: nat) - 32 < 256" using of_char_lt_256 [of c] by linarith
    then show ?thesis by (rule mod_less)
  qed
  finally show False using rng assms(2) by linarith
qed

lemma upper_is_10_0_0_5:
  assumes "map ToUpperInvariant x = ''10.0.0.5''"
  shows "x = ''10.0.0.5''"
proof -
  have "\<forall>d \<in> set ''10.0.0.5''. (of_char d :: nat) < 65" by simp
  then have "\<forall>c \<in> set x. ToUpperInvariant c = c"
    using assms ToUpperInvariant_below_A by (metis (no_types, lifting) imageI list.set_map)
  then have "map ToUpperInvariant x = x" by (induction x) auto
  with assms show ?thesis by simp
qed

lemma TryResolveEndpoint_coherent:
  assumes "cache_coherent G st"
  shows "cache_coherent G (snd (TryResolveEndpoint G st))"
  using assms
  by (auto simp: TryResolveEndpoint_def new_IPEndPoint_def cache_coherent_def first_InterNetwork_def Let_def
           split: option.splits sum.splits list.splits)

lemma ApplyHostAnnouncement_coherent:
  assumes "cache_coherent G st"
  shows "cache_coherent G (snd (ApplyHostAnnouncement ann remote st))"
  using assms
  by (auto simp: ApplyHostAnnouncement_cases cache_coherent_def Let_def split: option.splits)

lemma RegisterClient_10_0_0_5:
  assumes b: "UdpClientReporter.hostAddress st = Some ''10.0.0.5''"
    and c: "UdpClientReporter.hostPort st = 4949"
    and coh: "cache_coherent G st"
    and g: "G ''10.0.0.5'' = Inr ((InterNetwork, ''10.0.0.5'') # others)"
    and t: "T \<lparr>Address = ''10.0.0.5'', Port = 4949\<rparr>"
  shows "fst (RegisterClient G T st) = Some \<lparr>Address = ''10.0.0.5'', Port = 4949\<rparr>"
    and "hasSentRegistration (snd (RegisterClient G T st))"
proof -
  have res: "IsHostResolved st"
    using b address_10_0_0_5_resolved by (simp add: IsHostResolved_def)
  have f: "first_InterNetwork G ''10.0.0.5'' = Some ''10.0.0.5''"
    by (simp add: first_InterNetwork_def g)
  have resolved: "fst (TryResolveEndpoint G (st\<lparr>hasLoggedMissingHost := False\<rparr>))
      = Some \<lparr>Address = ''10.0.0.5'', Port = 4949\<rparr>"
  proof (cases "cachedEndpoint st")
    case None
    then show ?thesis
      using b c res g by (simp add: TryResolveEndpoint_def new_IPEndPoint_def IsHostResolved_def Let_def)
  next
    case (Some e)
    show ?thesis
    proof (cases "EqualsOrdinalIgnoreCase (UdpClientReporter.hostAddress st) (cachedHostAddress st)
                  \<and> Port e = UdpClientReporter.hostPort st")
      case True
      then obtain host where host: "cachedHostAddress st = Some host"
        using b by (cases "cachedHostAddress st") (auto simp: EqualsOrdinalIgnoreCase_def)
      from True host b have "map ToUpperInvariant host = map ToUpperInvariant ''10.0.0.5''"
        by (simp add: EqualsOrdinalIgnoreCase_def del: list.map)
      then have "map ToUpperInvariant host = ''10.0.0.5''"
        by (simp only: upper_10_0_0_5)
      then have h: "host = ''10.0.0.5''" by (rule upper_is_10_0_0_5)
      from coh Some host have "first_InterNetwork G host = Some (Address e)"
        by (simp add: cache_coherent_def)
      with h f have "Address e = ''10.0.0.5''" by simp
      moreover from True c have "Port e = 4949" by simp
      ultimately have "e = \<lparr>Address = ''10.0.0.5'', Port = 4949\<rparr>" by simp
      then show ?thesis
        using True Some res by (simp add: TryResolveEndpoint_def IsHostResolved_def)
    next
      case False
      then show ?thesis
        using Some b c res g by (auto simp: TryResolveEndpoint_def new_IPEndPoint_def IsHostResolved_def
            Let_def)
    qed
  qed
  show "fst (RegisterClient G T st) = Some \<lparr>Address = ''10.0.0.5'', Port = 4949\<rparr>"
    using res resolved t
    by (auto simp: RegisterClient_def SendCommand_def EnsureHostReady_def IsHostResolved_def
             split: prod.splits option.splits bool.splits)
  show "hasSentRegistration (snd (RegisterClient G T st))"
    using res resolved t
    by (auto simp: RegisterClient_def SendCommand_def EnsureHostReady_def IsHostResolved_def
             split: prod.splits option.splits bool.splits)
qed

text \<open>
  C7 (amended). An applied announcement sets the host address to the payload's
  hostAddress, or to the sender's address when the payload has none, and applies nothing
  when both are missing; it sets the host port to the payload's hostPort when that is
  positive and keeps the configured port otherwise. The cached endpoint is dropped and
  the registration-sent flag cleared exactly when the new address differs from the
  configured one with letter case ignored, or the port differs; otherwise both are kept.
  An announcement of 10.0.0.5 and port 4949 leaves the reporter configured for
  10.0.0.5:4949, and the next registration is sent to that endpoint, whether the
  reporter was unresolved or held a cached endpoint that was resolved for the host it is
  cached under (which announcements and resolutions preserve, and which holds with no
  cached endpoint); from an unresolved reporter that registers on enable, the start of
  reporting that follows sends it.
\<close>

theorem C7_host_announcement_applied:
  "(\<forall>p. ann = Some p \<and> \<not> IsNullOrWhiteSpace (HostAnnouncementPayload.hostAddress p)
      \<longrightarrow>
       fst (ApplyHostAnnouncement ann remote st)
       \<and> UdpClientReporter.hostAddress (snd (ApplyHostAnnouncement ann remote st))
           = HostAnnouncementPayload.hostAddress p)
   \<and> (\<forall>r. (case ann of None \<Rightarrow> True | Some p \<Rightarrow> IsNullOrWhiteSpace
       (HostAnnouncementPayload.hostAddress p))
          \<and> remote = Some r \<and> \<not> IsNullOrWhiteSpace (Some (Address r)) \<longrightarrow>
       fst (ApplyHostAnnouncement ann remote st)
       \<and> UdpClientReporter.hostAddress (snd (ApplyHostAnnouncement ann remote st)) = Some (Address r))
   \<and> ((case ann of None \<Rightarrow> True | Some p \<Rightarrow> IsNullOrWhiteSpace
       (HostAnnouncementPayload.hostAddress p))
          \<and> remote = None \<longrightarrow>
       ApplyHostAnnouncement ann remote st = (False, st))
   \<and> (fst (ApplyHostAnnouncement ann remote st) \<longrightarrow>
         UdpClientReporter.hostPort (snd (ApplyHostAnnouncement ann remote st))
           = (case ann of
                None \<Rightarrow> UdpClientReporter.hostPort st
              | Some p \<Rightarrow> if HostAnnouncementPayload.hostPort p > 0 then
                  HostAnnouncementPayload.hostPort p
                          else UdpClientReporter.hostPort st)
       \<and> (if \<not> EqualsOrdinalIgnoreCase (UdpClientReporter.hostAddress st)
                    (UdpClientReporter.hostAddress (snd (ApplyHostAnnouncement ann remote st)))
              \<or> UdpClientReporter.hostPort (snd (ApplyHostAnnouncement ann remote st)) \<noteq>
                  UdpClientReporter.hostPort st
           then cachedEndpoint (snd (ApplyHostAnnouncement ann remote st)) = None
              \<and> cachedHostAddress (snd (ApplyHostAnnouncement ann remote st)) = None
              \<and> \<not> hasSentRegistration (snd (ApplyHostAnnouncement ann remote st))
           else cachedEndpoint (snd (ApplyHostAnnouncement ann remote st)) = cachedEndpoint st
              \<and> cachedHostAddress (snd (ApplyHostAnnouncement ann remote st)) = cachedHostAddress st
              \<and> hasSentRegistration (snd (ApplyHostAnnouncement ann remote st)) = hasSentRegistration
                  st))
   \<and> (\<forall>p. ann = Some p \<and> HostAnnouncementPayload.hostAddress p = Some ''10.0.0.5''
            \<and> HostAnnouncementPayload.hostPort p = 4949 \<longrightarrow>
         fst (ApplyHostAnnouncement ann remote st)
       \<and> UdpClientReporter.hostAddress (snd (ApplyHostAnnouncement ann remote st)) = Some ''10.0.0.5''
       \<and> UdpClientReporter.hostPort (snd (ApplyHostAnnouncement ann remote st)) = 4949
       \<and> ((cache_coherent G st \<or> \<not> IsHostResolved st)
            \<and> (\<exists>others. G ''10.0.0.5'' = Inr ((InterNetwork, ''10.0.0.5'') # others))
            \<and> T \<lparr>Address = ''10.0.0.5'', Port = 4949\<rparr> \<longrightarrow>
              fst (RegisterClient G T (snd (ApplyHostAnnouncement ann remote st)))
                = Some \<lparr>Address = ''10.0.0.5'', Port = 4949\<rparr>
            \<and> hasSentRegistration (snd (RegisterClient G T (snd (ApplyHostAnnouncement ann remote st))))
            \<and> (\<not> IsHostResolved st \<and> registerOnEnable st \<longrightarrow>
                  fst (MaybeStartReporting G T forceRegister (snd (ApplyHostAnnouncement ann remote st)))
                    = Some \<lparr>Address = ''10.0.0.5'', Port = 4949\<rparr>)))
   \<and> (cache_coherent G st \<longrightarrow>
         cache_coherent G (snd (ApplyHostAnnouncement ann remote st))
       \<and> cache_coherent G (snd (TryResolveEndpoint G st)))"
proof -
  let ?r = "ApplyHostAnnouncement ann remote st"
  have 1: "\<forall>p. ann = Some p \<and> \<not> IsNullOrWhiteSpace (HostAnnouncementPayload.hostAddress p)
      \<longrightarrow>
       fst ?r \<and> UdpClientReporter.hostAddress (snd ?r) = HostAnnouncementPayload.hostAddress p"
    by (auto simp: ApplyHostAnnouncement_cases Let_def)
  have 2: "\<forall>r. (case ann of None \<Rightarrow> True | Some p \<Rightarrow> IsNullOrWhiteSpace
      (HostAnnouncementPayload.hostAddress p))
          \<and> remote = Some r \<and> \<not> IsNullOrWhiteSpace (Some (Address r)) \<longrightarrow>
       fst ?r \<and> UdpClientReporter.hostAddress (snd ?r) = Some (Address r)"
    by (auto simp: ApplyHostAnnouncement_cases Let_def IsNullOrWhiteSpace_def split: option.splits)
  have 3: "(case ann of None \<Rightarrow> True | Some p \<Rightarrow> IsNullOrWhiteSpace
      (HostAnnouncementPayload.hostAddress p))
          \<and> remote = None \<longrightarrow> ?r = (False, st)"
    by (auto simp: ApplyHostAnnouncement_cases Let_def IsNullOrWhiteSpace_def split: option.splits)
  have 4: "fst ?r \<longrightarrow>
         UdpClientReporter.hostPort (snd ?r)
           = (case ann of
                None \<Rightarrow> UdpClientReporter.hostPort st
              | Some p \<Rightarrow> if HostAnnouncementPayload.hostPort p > 0 then
                  HostAnnouncementPayload.hostPort p
                          else UdpClientReporter.hostPort st)
       \<and> (if \<not> EqualsOrdinalIgnoreCase (UdpClientReporter.hostAddress st)
           (UdpClientReporter.hostAddress (snd ?r))
              \<or> UdpClientReporter.hostPort (snd ?r) \<noteq> UdpClientReporter.hostPort st
           then cachedEndpoint (snd ?r) = None \<and> cachedHostAddress (snd ?r) = None
              \<and> \<not> hasSentRegistration (snd ?r)
           else cachedEndpoint (snd ?r) = cachedEndpoint st \<and> cachedHostAddress (snd ?r) =
               cachedHostAddress st
              \<and> hasSentRegistration (snd ?r) = hasSentRegistration st)"
    by (simp add: ApplyHostAnnouncement_cases Let_def)
  have 5: "fst ?r \<and> UdpClientReporter.hostAddress (snd ?r) = Some ''10.0.0.5''
       \<and> UdpClientReporter.hostPort (snd ?r) = 4949
       \<and> ((cache_coherent G st \<or> \<not> IsHostResolved st)
            \<and> (\<exists>others. G ''10.0.0.5'' = Inr ((InterNetwork, ''10.0.0.5'') # others))
            \<and> T \<lparr>Address = ''10.0.0.5'', Port = 4949\<rparr> \<longrightarrow>
              fst (RegisterClient G T (snd ?r)) = Some \<lparr>Address = ''10.0.0.5'', Port = 4949\<rparr>
            \<and> hasSentRegistration (snd (RegisterClient G T (snd ?r)))
            \<and> (\<not> IsHostResolved st \<and> registerOnEnable st \<longrightarrow>
                  fst (MaybeStartReporting G T forceRegister (snd ?r))
                    = Some \<lparr>Address = ''10.0.0.5'', Port = 4949\<rparr>))"
    if p: "ann = Some p" "HostAnnouncementPayload.hostAddress p = Some ''10.0.0.5''"
          "HostAnnouncementPayload.hostPort p = 4949" for p
  proof -
    have a: "fst ?r" and b: "UdpClientReporter.hostAddress (snd ?r) = Some ''10.0.0.5''"
      using 1 p address_10_0_0_5_resolved(1) by auto
    have c: "UdpClientReporter.hostPort (snd ?r) = 4949"
      using 4 a p by simp
    have res: "IsHostResolved (snd ?r)"
      using b address_10_0_0_5_resolved by (simp add: IsHostResolved_def)
    have d: "fst (RegisterClient G T (snd ?r)) = Some \<lparr>Address = ''10.0.0.5'', Port = 4949\<rparr>
            \<and> hasSentRegistration (snd (RegisterClient G T (snd ?r)))
            \<and> (\<not> IsHostResolved st \<and> registerOnEnable st \<longrightarrow>
                  fst (MaybeStartReporting G T forceRegister (snd ?r))
                    = Some \<lparr>Address = ''10.0.0.5'', Port = 4949\<rparr>)"
      if h: "cache_coherent G st \<or> \<not> IsHostResolved st"
        "G ''10.0.0.5'' = Inr ((InterNetwork, ''10.0.0.5'') # others)"
        "T \<lparr>Address = ''10.0.0.5'', Port = 4949\<rparr>" for others
    proof -
      have coh: "cache_coherent G (snd ?r)"
      proof (cases "cache_coherent G st")
        case True
        then show ?thesis by (rule ApplyHostAnnouncement_coherent)
      next
        case False
        with h(1) have "\<not> IsHostResolved st" by simp
        then have "\<not> EqualsOrdinalIgnoreCase (UdpClientReporter.hostAddress st)
            (UdpClientReporter.hostAddress (snd ?r))"
          using unresolved_differs b by simp
        with 4 a have "cachedEndpoint (snd ?r) = None" by simp
        then show ?thesis by (simp add: cache_coherent_def)
      qed
      have reg: "fst (RegisterClient G T (snd ?r)) = Some \<lparr>Address = ''10.0.0.5'', Port = 4949\<rparr>"
        "hasSentRegistration (snd (RegisterClient G T (snd ?r)))"
        using RegisterClient_10_0_0_5 [where G = G and T = T, OF b c coh h(2) h(3)] by simp_all
      have start: "fst (MaybeStartReporting G T forceRegister (snd ?r))
                    = Some \<lparr>Address = ''10.0.0.5'', Port = 4949\<rparr>"
        if u: "\<not> IsHostResolved st" "registerOnEnable st"
      proof -
        have "\<not> EqualsOrdinalIgnoreCase (UdpClientReporter.hostAddress st) (UdpClientReporter.hostAddress
            (snd ?r))"
          using unresolved_differs [OF u(1)] b by simp
        with 4 a have cleared: "\<not> hasSentRegistration (snd ?r)" by simp
        have roe: "registerOnEnable (snd ?r)"
          using u(2) by (simp add: ApplyHostAnnouncement_cases Let_def)
        have logged: "(snd ?r)\<lparr>hasLoggedMissingHost := False\<rparr> = snd ?r"
          using a by (auto simp: ApplyHostAnnouncement_cases Let_def split: if_splits)
        show ?thesis
          using res cleared roe reg(1) by (simp add: MaybeStartReporting_def Let_def logged)
      qed
      show ?thesis
        using reg start by blast
    qed
    show ?thesis using a b c d by blast
  qed
  have 6: "cache_coherent G st \<longrightarrow>
         cache_coherent G (snd ?r) \<and> cache_coherent G (snd (TryResolveEndpoint G st))"
    using ApplyHostAnnouncement_coherent TryResolveEndpoint_coherent by blast
  show ?thesis
    using 1 2 3 4 5 6 by blast
qed

theorem C7_host_announcement_applied_witness:
  "\<not> IsNullOrWhiteSpace (HostAnnouncementPayload.hostAddress
         \<lparr>hostName = Some ''dashboard'', hostAddress = Some ''10.0.0.5'', hostPort = 4949,
                 commandPort = 3939\<rparr>)
   \<and> cache_coherent (\<lambda>host. Inr [(InterNetwork, host)])
         \<lparr>UdpClientReporter.hostAddress = Some ''auto'', hostPort = 4949, discoveryPort = 4949,
           autoDiscoverHost = True, registerOnEnable = True, cachedEndpoint = None,
           cachedHostAddress = None, hasSentRegistration = False, hasLoggedMissingHost = False\<rparr>
   \<and> fst (ApplyHostAnnouncement
           (Some \<lparr>hostName = Some ''dashboard'', hostAddress = Some ''10.0.0.5'', hostPort = 4949,
                 commandPort = 3939\<rparr>)
           None
           \<lparr>UdpClientReporter.hostAddress = Some ''auto'', hostPort = 4949, discoveryPort = 4949,
           autoDiscoverHost = True, registerOnEnable = True, cachedEndpoint = None,
           cachedHostAddress = None, hasSentRegistration = False, hasLoggedMissingHost = False\<rparr>)
   \<and> fst (RegisterClient (\<lambda>host. Inr [(InterNetwork, host)]) (\<lambda>endpoint. True)
           (snd (ApplyHostAnnouncement
                  (Some \<lparr>hostName = Some ''dashboard'', hostAddress = Some ''10.0.0.5'', hostPort =
                      4949,
                 commandPort = 3939\<rparr>)
                  None
                  \<lparr>UdpClientReporter.hostAddress = Some ''auto'', hostPort = 4949, discoveryPort =
                      4949,
           autoDiscoverHost = True, registerOnEnable = True, cachedEndpoint = None,
           cachedHostAddress = None, hasSentRegistration = False, hasLoggedMissingHost = False\<rparr>)))
       = Some \<lparr>Address = ''10.0.0.5'', Port = 4949\<rparr>
   \<and> \<not> IsNullOrWhiteSpace (Some (Address \<lparr>Address = ''10.0.0.9'', Port = 50123\<rparr>))
   \<and> UdpClientReporter.hostAddress
         (snd (ApplyHostAnnouncement None (Some \<lparr>Address = ''10.0.0.9'', Port = 50123\<rparr>)
                \<lparr>UdpClientReporter.hostAddress = Some ''auto'', hostPort = 4949, discoveryPort = 4949,
           autoDiscoverHost = True, registerOnEnable = True, cachedEndpoint = None,
           cachedHostAddress = None, hasSentRegistration = False, hasLoggedMissingHost = False\<rparr>))
       = Some ''10.0.0.9''
   \<and> UdpClientReporter.hostPort
         (snd (ApplyHostAnnouncement None (Some \<lparr>Address = ''10.0.0.9'', Port = 50123\<rparr>)
                \<lparr>UdpClientReporter.hostAddress = Some ''auto'', hostPort = 4949, discoveryPort = 4949,
           autoDiscoverHost = True, registerOnEnable = True, cachedEndpoint = None,
           cachedHostAddress = None, hasSentRegistration = False, hasLoggedMissingHost = False\<rparr>))
       = 4949
   \<and> ApplyHostAnnouncement None None
         \<lparr>UdpClientReporter.hostAddress = Some ''auto'', hostPort = 4949, discoveryPort = 4949,
           autoDiscoverHost = True, registerOnEnable = True, cachedEndpoint = None,
           cachedHostAddress = None, hasSentRegistration = False, hasLoggedMissingHost = False\<rparr>
       = (False,
          \<lparr>UdpClientReporter.hostAddress = Some ''auto'', hostPort = 4949, discoveryPort = 4949,
           autoDiscoverHost = True, registerOnEnable = True, cachedEndpoint = None,
           cachedHostAddress = None, hasSentRegistration = False, hasLoggedMissingHost = False\<rparr>)"
proof -
  let ?st = "\<lparr>UdpClientReporter.hostAddress = Some ''auto'', hostPort = 4949, discoveryPort = 4949,
           autoDiscoverHost = True, registerOnEnable = True, cachedEndpoint = None,
           cachedHostAddress = None, hasSentRegistration = False, hasLoggedMissingHost = False\<rparr>"
  let ?p = "\<lparr>hostName = Some ''dashboard'', hostAddress = Some ''10.0.0.5'', hostPort = 4949,
                 commandPort = 3939\<rparr>"
  let ?ep = "\<lparr>Address = ''10.0.0.9'', Port = 50123\<rparr>"
  let ?G = "(\<lambda>host. Inr [(InterNetwork, host)]) :: get_host_addresses"
  let ?T = "(\<lambda>endpoint. True) :: IPEndPoint \<Rightarrow> bool"
  have w: "\<not> IsNullOrWhiteSpace (HostAnnouncementPayload.hostAddress ?p)"
    using address_10_0_0_5_resolved(1) by simp
  have w9: "\<not> IsNullOrWhiteSpace (Some (Address ?ep))"
    by code_simp
  have coh: "cache_coherent ?G ?st"
    by (simp add: cache_coherent_def)
  have g: "\<exists>others. ?G ''10.0.0.5'' = Inr ((InterNetwork, ''10.0.0.5'') # others)"
    by simp
  have a: "fst (ApplyHostAnnouncement (Some ?p) None ?st)
      \<and> fst (RegisterClient ?G ?T (snd (ApplyHostAnnouncement (Some ?p) None ?st)))
          = Some \<lparr>Address = ''10.0.0.5'', Port = 4949\<rparr>"
    using C7_host_announcement_applied [of "Some ?p" None ?st ?G ?T] w coh g by simp
  have b: "UdpClientReporter.hostAddress (snd (ApplyHostAnnouncement None (Some ?ep) ?st)) = Some ''10.0.0.9''
      \<and> UdpClientReporter.hostPort (snd (ApplyHostAnnouncement None (Some ?ep) ?st)) = 4949"
    using C7_host_announcement_applied [of None "Some ?ep" ?st ?G ?T] w9 by simp
  have c: "ApplyHostAnnouncement None None ?st = (False, ?st)"
    using C7_host_announcement_applied [of None None ?st ?G ?T] by simp
  show ?thesis
    using w w9 coh a b c by simp
qed

lemma host_local_upper: "EqualsOrdinalIgnoreCase (Some ''HOST.local'') (Some ''host.local'')"
  "\<not> IsNullOrWhiteSpace (Some ''host.local'')"
  by code_simp+

text \<open>
  The claim as stated fails when the announced address differs from the configured one
  only in letter case: the address changes, and the cached endpoint and the
  registration-sent flag stay.
\<close>

theorem C7_counterexample:
  "ApplyHostAnnouncement (Some \<lparr>hostName = Some ''dashboard'', hostAddress = Some ''host.local'',
      hostPort = 4949, commandPort = 3939\<rparr>) None
      \<lparr>UdpClientReporter.hostAddress = Some ''HOST.local'', hostPort = 4949, discoveryPort = 4949,
          autoDiscoverHost = True, registerOnEnable = True, cachedEndpoint = Some \<lparr>Address =
          ''10.0.0.5'', Port = 4949\<rparr>, cachedHostAddress = Some ''HOST.local'', hasSentRegistration =
          True, hasLoggedMissingHost = False\<rparr>
     = (True, \<lparr>UdpClientReporter.hostAddress = Some ''host.local'', hostPort = 4949, discoveryPort =
         4949, autoDiscoverHost = True, registerOnEnable = True, cachedEndpoint = Some \<lparr>Address =
         ''10.0.0.5'', Port = 4949\<rparr>, cachedHostAddress = Some ''HOST.local'', hasSentRegistration =
             True,
         hasLoggedMissingHost = False\<rparr>)
   \<and> Some ''host.local'' \<noteq> Some ''HOST.local''"
  using host_local_upper by (simp add: ApplyHostAnnouncement_def Let_def)

end
